theory Spec2Isabelle
  imports Complex_Main "HOL-Library.AList" "HOL-Library.Char_ord" "HOL-Library.List_Lexorder"
begin

section \<open>Python values, errors and the object store\<close>

text \<open>
  The module \<^verbatim>\<open>document/doc.py\<close> keeps datasets (numarray arrays with optional error
  arrays), the links of datasets to files, and a tree of widgets addressed by paths;
  \<^verbatim>\<open>document/commandinterface.py\<close> is the command layer over it. Exceptions are values
  of \<open>pyerr\<close>; a function that can raise returns \<open>pyerr + 'a\<close> together with the state
  it leaves behind, because a Python exception does not undo the assignments made
  before it.
\<close>

datatype pyerr =
    ValueError string
  | AssertionError
  | AttributeError
  | KeyError string
  | TypeError
  | IndexError
  | RuntimeError string
  | DatasetExpressionException string
  | Read2DError
  | IOError

text \<open>
  Objects with identity live in a store. A \<open>ref\<close> is the address of a numarray array or
  of a float; Python's \<^verbatim>\<open>None\<close> is \<open>None\<close> of \<open>ref option\<close>. An array is its shape and
  its cells in row-major order (\<open>Arr [3] [1,2,3]\<close> is one-dimensional, \<open>Arr [2,3] cs\<close> has two
  rows and three columns, \<open>Arr [] [x]\<close> is zero-dimensional). Cells are Float64 in the
  source and reals here: the operations modelled copy arrays and compare shapes.
\<close>

type_synonym ref = nat

datatype pyobj = Arr "nat list" "real list" | Num real

type_synonym pyval = "ref option"

text \<open>
  \<open>cells\<close> is the store, \<open>nxt\<close> the next free address (every address below it is in use),
  \<open>evlog\<close> the expressions handed to Python's \<^verbatim>\<open>eval\<close> so far, latest first.
\<close>

record world =
  cells :: "ref \<Rightarrow> pyobj"
  nxt :: ref
  evlog :: "string list"

definition alloc :: "pyobj \<Rightarrow> world \<Rightarrow> ref \<times> world" where
  "alloc ob w = (nxt w, w\<lparr>cells := (cells w)(nxt w := ob), nxt := Suc (nxt w)\<rparr>)"

text \<open>\<^verbatim>\<open>a.shape\<close>: a float has no such attribute.\<close>

fun shape :: "pyobj \<Rightarrow> pyerr + nat list" where
  "shape (Arr s cs) = Inr s"
| "shape (Num x) = Inl AttributeError"

text \<open>\<^verbatim>\<open>len(a)\<close>: TypeError for a float and for a zero-dimensional array.\<close>

fun len :: "pyobj \<Rightarrow> pyerr + nat" where
  "len (Arr [] cs) = Inl TypeError"
| "len (Arr (n # s) cs) = Inr n"
| "len (Num x) = Inl TypeError"

text \<open>\<^verbatim>\<open>a.copy()\<close> and \<^verbatim>\<open>a.astype(N.Float64)\<close>: a new array with the same shape and cells.\<close>

definition copy :: "ref \<Rightarrow> world \<Rightarrow> (pyerr + ref) \<times> world" where
  "copy a w =
     (case cells w a of
        Arr s cs \<Rightarrow> (let (r, w') = alloc (Arr s cs) w in (Inr r, w'))
      | Num x \<Rightarrow> (Inl AttributeError, w))"

text \<open>
  \<^verbatim>\<open>_cnvt_numarray(a)\<close>: \<^verbatim>\<open>None\<close> stays \<^verbatim>\<open>None\<close>; an array is copied with
  \<^verbatim>\<open>astype\<close>; anything else goes through \<^verbatim>\<open>N.array(a, type=N.Float64)\<close>, which makes a
  zero-dimensional array of a float.
\<close>

definition cnvt_numarray :: "pyval \<Rightarrow> world \<Rightarrow> pyval \<times> world" where
  "cnvt_numarray a w =
     (case a of
        None \<Rightarrow> (None, w)
      | Some r \<Rightarrow>
          (case cells w r of
             Arr s cs \<Rightarrow> (let (r', w') = alloc (Arr s cs) w in (Some r', w'))
           | Num x \<Rightarrow> (let (r', w') = alloc (Arr [] [x]) w in (Some r', w'))))"

section \<open>The widget tree and path resolution\<close>

text \<open>
  The module \<^verbatim>\<open>widgets\<close> is not part of the sources. A widget is an object with a name,
  a reference to its parent (\<^verbatim>\<open>None\<close> at the root) and its children in order; \<open>wstore\<close>
  gives the widget at each address.
\<close>

type_synonym wref = nat

record widget =
  name :: string
  parent :: "wref option"
  children :: "wref list"

type_synonym wstore = "wref \<Rightarrow> widget"

text \<open>
  Modelled from the spec: \<^verbatim>\<open>Widget.getChild\<close> is defined in the absent module
  \<^verbatim>\<open>widgets\<close>; the spec says it looks up a child of the current node by exact name, and
  the callers test its result against \<^verbatim>\<open>None\<close>.
\<close>

definition getChild :: "wstore \<Rightarrow> wref \<Rightarrow> string \<Rightarrow> wref option" where
  "getChild ws obj p = find (\<lambda>c. name (ws c) = p) (children (ws obj))"

text \<open>\<^verbatim>\<open>where.split('/')\<close>: the pieces between separators, empty pieces kept.\<close>

fun py_split :: "char \<Rightarrow> string \<Rightarrow> string list" where
  "py_split c [] = [[]]"
| "py_split c (x # xs) =
     (if x = c then [] # py_split c xs
      else (case py_split c xs of
              [] \<Rightarrow> [[x]]
            | w # ws \<Rightarrow> (x # w) # ws))"

text \<open>The message \<^verbatim>\<open>"Child '%s' does not exist" % p\<close>.\<close>

definition child_missing :: "string \<Rightarrow> pyerr" where
  "child_missing p = ValueError (''Child '' @ [CHR 0x27] @ p @ [CHR 0x27] @ '' does not exist'')"

text \<open>The loop of \<^verbatim>\<open>Document.resolve\<close> over the parts of the path.\<close>

fun resolve_parts :: "wstore \<Rightarrow> wref \<Rightarrow> string list \<Rightarrow> pyerr + wref" where
  "resolve_parts ws obj [] = Inr obj"
| "resolve_parts ws obj (p # ps) =
     (if p = ''..'' then
        (case parent (ws obj) of
           None \<Rightarrow> Inl (ValueError ''Base graph has no parent'')
         | Some q \<Rightarrow> resolve_parts ws q ps)
      else if p = ''.'' \<or> length p = 0 then resolve_parts ws obj ps
      else
        (case getChild ws obj p of
           None \<Rightarrow> Inl (child_missing p)
         | Some c \<Rightarrow> resolve_parts ws c ps))"

section \<open>Links, datasets and the document\<close>

text \<open>
  A link object is compared by identity (\<^verbatim>\<open>linked == self\<close>, and as a dictionary key), so
  datasets hold the address \<open>lref\<close> of their link and \<open>lstore\<close> gives the object there.
  The fields are those the constructors store: \<open>LinkedFile filename descriptor useblocks\<close>,
  \<open>Linked2DFile filename datasets xrange yrange invertrows invertcols transpose\<close>,
  \<open>LinkedFITSFile dsname filename hdu columns\<close>.
\<close>

type_synonym lref = nat

datatype link =
    LinkedFile string string bool
  | Linked2DFile string "string list" "(real \<times> real) option" "(real \<times> real) option"
      "bool option" "bool option" "bool option"
  | LinkedFITSFile string string string "string option list"

type_synonym lstore = "lref \<Rightarrow> link"

text \<open>
  The three dataset classes. \<open>document\<close> is the identity of the document the dataset
  belongs to (\<^verbatim>\<open>self.document\<close>), \<open>linked\<close> its link. A \<^verbatim>\<open>Dataset\<close> has the attributes
  \<^verbatim>\<open>data\<close>, \<^verbatim>\<open>serr\<close>, \<^verbatim>\<open>nerr\<close>, \<^verbatim>\<open>perr\<close> (\<open>ds_data\<close> here, since the document's
  dictionary is called \<^verbatim>\<open>data\<close> too); a \<^verbatim>\<open>Dataset2D\<close> has \<^verbatim>\<open>data\<close> (\<open>data2d\<close>),
  \<^verbatim>\<open>xrange\<close> and \<^verbatim>\<open>yrange\<close>.
\<close>

record dsbase =
  document :: "nat option"
  linked :: "lref option"

record dataset1 = dsbase +
  ds_data :: pyval
  serr :: pyval
  nerr :: pyval
  perr :: pyval

record dataset2 = dsbase +
  data2d :: pyval
  xrange :: "(real \<times> real) option"
  yrange :: "(real \<times> real) option"

text \<open>The keys \<^verbatim>\<open>'data'\<close>, \<^verbatim>\<open>'serr'\<close>, \<^verbatim>\<open>'nerr'\<close>, \<^verbatim>\<open>'perr'\<close> of a dataset's parts.\<close>

datatype part = PData | PSerr | PNerr | PPerr

fun part_name :: "part \<Rightarrow> string" where
  "part_name PData = ''data''"
| "part_name PSerr = ''serr''"
| "part_name PNerr = ''nerr''"
| "part_name PPerr = ''perr''"

text \<open>
  A \<^verbatim>\<open>DatasetExpression\<close>: \<open>docchangeset\<close> is \<^verbatim>\<open>self.docchangeset\<close>, \<open>ds_changeset\<close> the
  attribute \<^verbatim>\<open>self.changeset\<close> (absent until \<^verbatim>\<open>_propValues\<close> assigns it), \<open>expr\<close> and
  \<open>evaluated\<close> the two dictionaries keyed by part. A dictionary is an association list
  with one entry per key; its order stands for the unspecified order Python iterates in.
\<close>

record datasetexpr = dsbase +
  docchangeset :: "int option"
  ds_changeset :: "int option"
  expr :: "(part \<times> string option) list"
  evaluated :: "(part \<times> pyval) list"

datatype dataset =
    Dataset dataset1
  | Dataset2D dataset2
  | DatasetExpression datasetexpr

fun dimensions :: "dataset \<Rightarrow> nat" where
  "dimensions (Dataset r) = 1"
| "dimensions (Dataset2D r) = 2"
| "dimensions (DatasetExpression r) = 1"

fun get_linked :: "dataset \<Rightarrow> lref option" where
  "get_linked (Dataset r) = linked r"
| "get_linked (Dataset2D r) = linked r"
| "get_linked (DatasetExpression r) = linked r"

fun set_linked :: "lref option \<Rightarrow> dataset \<Rightarrow> dataset" where
  "set_linked l (Dataset r) = Dataset (r\<lparr>linked := l\<rparr>)"
| "set_linked l (Dataset2D r) = Dataset2D (r\<lparr>linked := l\<rparr>)"
| "set_linked l (DatasetExpression r) = DatasetExpression (r\<lparr>linked := l\<rparr>)"

fun get_document :: "dataset \<Rightarrow> nat option" where
  "get_document (Dataset r) = document r"
| "get_document (Dataset2D r) = document r"
| "get_document (DatasetExpression r) = document r"

fun set_document :: "nat option \<Rightarrow> dataset \<Rightarrow> dataset" where
  "set_document i (Dataset r) = Dataset (r\<lparr>document := i\<rparr>)"
| "set_document i (Dataset2D r) = Dataset2D (r\<lparr>document := i\<rparr>)"
| "set_document i (DatasetExpression r) = DatasetExpression (r\<lparr>document := i\<rparr>)"

text \<open>
  The document: \<open>docid\<close> is the identity of the object, \<open>data\<close> the dictionary from names
  to datasets, \<open>basewidget\<close> the root of the widget tree. The Qt signals a document emits
  (\<^verbatim>\<open>sigModified\<close>, \<^verbatim>\<open>sigWiped\<close>) reach no state of the model and are left out.
\<close>

record document =
  docid :: nat
  data :: "(string \<times> dataset) list"
  changeset :: int
  modified :: bool
  basewidget :: wref

type_synonym state = "document \<times> world"

text \<open>\<^verbatim>\<open>name in self.data\<close>.\<close>

definition has_key :: "('k \<times> 'v) list \<Rightarrow> 'k \<Rightarrow> bool" where
  "has_key al k = (map_of al k \<noteq> None)"

text \<open>\<^verbatim>\<open>Document.setModified(ismodified=True)\<close>.\<close>

definition setModified :: "bool \<Rightarrow> document \<Rightarrow> document" where
  "setModified ismodified d = d\<lparr>modified := ismodified, changeset := changeset d + 1\<rparr>"

text \<open>
  \<^verbatim>\<open>Document.wipe\<close>; \<open>newroot\<close> is the object \<^verbatim>\<open>widgets.Root(None, document=self)\<close> returns.
\<close>

definition wipe :: "wref \<Rightarrow> document \<Rightarrow> document" where
  "wipe newroot d = setModified False (d\<lparr>data := [], basewidget := newroot\<rparr>)"

text \<open>\<^verbatim>\<open>Document.__init__\<close>: the counter starts at 0 and the document is wiped.\<close>

definition Document_init :: "nat \<Rightarrow> wref \<Rightarrow> document" where
  "Document_init i newroot =
     wipe newroot \<lparr>docid = i, data = [], changeset = 0, modified = False, basewidget = newroot\<rparr>"

definition isBlank :: "wstore \<Rightarrow> document \<Rightarrow> bool" where
  "isBlank ws d = (length (children (ws (basewidget d))) = 0 \<and> length (data d) = 0)"

definition setData :: "string \<Rightarrow> dataset \<Rightarrow> document \<Rightarrow> document" where
  "setData nm ds d =
     setModified True (d\<lparr>data := AList.update nm (set_document (Some (docid d)) ds) (data d)\<rparr>)"

definition deleteDataset :: "string \<Rightarrow> document \<Rightarrow> (pyerr + unit) \<times> document" where
  "deleteDataset nm d =
     (if has_key (data d) nm
      then (Inr (), setModified True (d\<lparr>data := AList.delete nm (data d)\<rparr>))
      else (Inl (KeyError nm), d))"

definition renameDataset :: "string \<Rightarrow> string \<Rightarrow> document \<Rightarrow> (pyerr + unit) \<times> document" where
  "renameDataset oldname newname d =
     (case map_of (data d) oldname of
        None \<Rightarrow> (Inl (KeyError oldname), d)
      | Some ds \<Rightarrow>
          (Inr (), setModified True
             (d\<lparr>data := AList.update newname ds (AList.delete oldname (data d))\<rparr>)))"

definition unlinkDataset :: "string \<Rightarrow> document \<Rightarrow> (pyerr + unit) \<times> document" where
  "unlinkDataset nm d =
     (case map_of (data d) nm of
        None \<Rightarrow> (Inl (KeyError nm), d)
      | Some ds \<Rightarrow>
          (Inr (), setModified True (d\<lparr>data := AList.update nm (set_linked None ds) (data d)\<rparr>)))"

definition getData :: "string \<Rightarrow> document \<Rightarrow> pyerr + dataset" where
  "getData nm d = (case map_of (data d) nm of None \<Rightarrow> Inl (KeyError nm) | Some ds \<Rightarrow> Inr ds)"

definition hasData :: "string \<Rightarrow> document \<Rightarrow> bool" where
  "hasData nm d = has_key (data d) nm"

definition isModified :: "document \<Rightarrow> bool" where
  "isModified d = modified d"

text \<open>
  \<^verbatim>\<open>Document.resolve(fromwidget, where)\<close>: an absolute path starts at the root widget, any
  other at \<open>fromwidget\<close>.
\<close>

definition resolve :: "wstore \<Rightarrow> document \<Rightarrow> wref \<Rightarrow> string \<Rightarrow> pyerr + wref" where
  "resolve ws d fromwidget wher =
     (let parts = py_split CHR ''/'' wher;
          obj = (if take 1 wher = ''/'' then basewidget d else fromwidget)
      in resolve_parts ws obj parts)"

section \<open>Expression datasets\<close>

text \<open>
  What the module takes from outside: \<open>py_eval x e env w\<close> is Python's \<^verbatim>\<open>eval(e, env)\<close>,
  which returns a value or the text of the exception raised (\<^verbatim>\<open>str(e)\<close>) and may allocate
  or change arrays; \<open>np_addzero x e a\<close> is the numarray expression \<^verbatim>\<open>e + a*0.\<close>. The
  environment handed to \<open>py_eval\<close> holds the bindings \<^verbatim>\<open>updateValues\<close> adds; the copied
  module globals and numarray names under them are the evaluator's own.
\<close>

type_synonym env = "(string \<times> pyval) list"

record externals =
  py_eval :: "string \<Rightarrow> env \<Rightarrow> world \<Rightarrow> (string + pyval) \<times> world"
  np_addzero :: "pyobj \<Rightarrow> pyobj \<Rightarrow> pyerr + pyobj"

text \<open>Sequencing of two steps that may raise: the second runs only if the first returned.\<close>

definition andthen ::
  "('s \<Rightarrow> (pyerr + 'a) \<times> 's) \<Rightarrow> ('a \<Rightarrow> 's \<Rightarrow> (pyerr + 'b) \<times> 's) \<Rightarrow> 's \<Rightarrow> (pyerr + 'b) \<times> 's" where
  "andthen m f s = (case m s of (Inl e, s') \<Rightarrow> (Inl e, s') | (Inr a, s') \<Rightarrow> f a s')"

fun field :: "part \<Rightarrow> dataset1 \<Rightarrow> pyval" where
  "field PData r = ds_data r"
| "field PSerr r = serr r"
| "field PNerr r = nerr r"
| "field PPerr r = perr r"

type_synonym reader = "string \<Rightarrow> part \<Rightarrow> state \<Rightarrow> (pyerr + pyval) \<times> state"

text \<open>
  \<^verbatim>\<open>getattr(ds, part)\<close> for the dataset stored under \<open>nm\<close>: a plain attribute of a
  \<^verbatim>\<open>Dataset\<close>, a property of a \<^verbatim>\<open>DatasetExpression\<close> (\<open>rd\<close> is \<^verbatim>\<open>_propValues\<close>), and of a
  \<^verbatim>\<open>Dataset2D\<close> only \<^verbatim>\<open>data\<close> exists. Two names never hold the same dataset object.
\<close>

definition getattr_part :: "reader \<Rightarrow> string \<Rightarrow> part \<Rightarrow> state \<Rightarrow> (pyerr + pyval) \<times> state" where
  "getattr_part rd nm pt st =
     (case map_of (data (fst st)) nm of
        None \<Rightarrow> (Inl (KeyError nm), st)
      | Some (Dataset r) \<Rightarrow> (Inr (field pt r), st)
      | Some (Dataset2D r) \<Rightarrow> (if pt = PData then Inr (data2d r) else Inl AttributeError, st)
      | Some (DatasetExpression e) \<Rightarrow> rd nm pt st)"

text \<open>
  The body of the loop over the other datasets in \<^verbatim>\<open>updateValues\<close>: the part asked for
  is bound to the dataset's name, and each of its four parts to the name with a suffix.
\<close>

definition env_dataset :: "reader \<Rightarrow> part \<Rightarrow> string \<Rightarrow> env \<Rightarrow> state \<Rightarrow> (pyerr + env) \<times> state" where
  "env_dataset rd pt nm en =
     andthen (getattr_part rd nm pt) (\<lambda>v.
     andthen (getattr_part rd nm PData) (\<lambda>v0.
     andthen (getattr_part rd nm PSerr) (\<lambda>v1.
     andthen (getattr_part rd nm PNerr) (\<lambda>v2.
     andthen (getattr_part rd nm PPerr) (\<lambda>v3. \<lambda>st.
       (Inr (AList.update (nm @ ''_perr'') v3
            (AList.update (nm @ ''_nerr'') v2
            (AList.update (nm @ ''_serr'') v1
            (AList.update (nm @ ''_data'') v0
            (AList.update nm v en))))), st))))))"

fun env_loop :: "reader \<Rightarrow> string \<Rightarrow> part \<Rightarrow> string list \<Rightarrow> env \<Rightarrow> state \<Rightarrow> (pyerr + env) \<times> state" where
  "env_loop rd self pt [] en st = (Inr en, st)"
| "env_loop rd self pt (nm # nms) en st =
     (case map_of (data (fst st)) nm of
        None \<Rightarrow> env_loop rd self pt nms en st
      | Some ds \<Rightarrow>
          (if nm \<noteq> self \<and> dimensions ds = 1 then
             (case env_dataset rd pt nm en st of
                (Inl e, st') \<Rightarrow> (Inl e, st')
              | (Inr en', st') \<Rightarrow> env_loop rd self pt nms en' st')
           else env_loop rd self pt nms en st))"

text \<open>Apply \<open>f\<close> to the expression dataset stored under \<open>self\<close>.\<close>

definition upd_expr :: "string \<Rightarrow> (datasetexpr \<Rightarrow> datasetexpr) \<Rightarrow> document \<Rightarrow> document" where
  "upd_expr self f d =
     (case map_of (data d) self of
        Some (DatasetExpression e) \<Rightarrow> d\<lparr>data := AList.update self (DatasetExpression (f e)) (data d)\<rparr>
      | _ \<Rightarrow> d)"

definition set_evaluated :: "string \<Rightarrow> part \<Rightarrow> pyval \<Rightarrow> document \<Rightarrow> document" where
  "set_evaluated self pt v = upd_expr self (\<lambda>e. e\<lparr>evaluated := AList.update pt v (evaluated e)\<rparr>)"

definition eval_error :: "string \<Rightarrow> string \<Rightarrow> pyerr" where
  "eval_error ex msg =
     DatasetExpressionException
       (''Error evaluating expession '' @ [CHR 0x27] @ ex @ [CHR 0x27, CHR 0x0A]
        @ ''Error: '' @ [CHR 0x27] @ msg @ [CHR 0x27])"

text \<open>One expression of \<^verbatim>\<open>updateValues\<close>: build the environment, evaluate, store.\<close>

definition eval_part :: "externals \<Rightarrow> reader \<Rightarrow> string \<Rightarrow> part \<Rightarrow> string \<Rightarrow> state \<Rightarrow> (pyerr + unit) \<times> state" where
  "eval_part x rd self pt ex st =
     (case env_loop rd self pt (map fst (data (fst st))) [] st of
        (Inl e, st') \<Rightarrow> (Inl e, st')
      | (Inr en, (d, w)) \<Rightarrow>
          (case py_eval x ex en (w\<lparr>evlog := ex # evlog w\<rparr>) of
             (Inl msg, w') \<Rightarrow> (Inl (eval_error ex msg), (d, w'))
           | (Inr v, w') \<Rightarrow> (Inr (), (set_evaluated self pt v d, w'))))"

fun eval_loop :: "externals \<Rightarrow> reader \<Rightarrow> string \<Rightarrow> (part \<times> string option) list \<Rightarrow> state \<Rightarrow> (pyerr + unit) \<times> state" where
  "eval_loop x rd self [] st = (Inr (), st)"
| "eval_loop x rd self ((pt, ex) # es) st =
     (case ex of
        None \<Rightarrow> eval_loop x rd self es (set_evaluated self pt None (fst st), snd st)
      | Some e \<Rightarrow>
          (if e = [] then eval_loop x rd self es (set_evaluated self pt None (fst st), snd st)
           else
             (case eval_part x rd self pt e st of
                (Inl er, st') \<Rightarrow> (Inl er, st')
              | (Inr u, st') \<Rightarrow> eval_loop x rd self es st')))"

text \<open>
  The check at the end of \<^verbatim>\<open>updateValues\<close> that the evaluated parts have one length.
  \<open>lastl\<close> is the variable \<^verbatim>\<open>last\<close>; where \<^verbatim>\<open>len(val)\<close> raises TypeError, \<^verbatim>\<open>l\<close> is -100 and
  the later \<^verbatim>\<open>last = len(val)\<close> raises it again, outside the \<^verbatim>\<open>try\<close>.
\<close>

fun check_lengths :: "world \<Rightarrow> int option \<Rightarrow> pyval list \<Rightarrow> pyerr option" where
  "check_lengths w lastl [] = None"
| "check_lengths w lastl (None # vs) = check_lengths w lastl vs"
| "check_lengths w lastl (Some r # vs) =
     (let l = (case len (cells w r) of Inl e \<Rightarrow> -100 | Inr n \<Rightarrow> int n) in
      if lastl \<noteq> None \<and> lastl \<noteq> Some l then
        Some (DatasetExpressionException
               ''Expressions for dataset parts do not yield results of the same length'')
      else
        (case len (cells w r) of
           Inl e \<Rightarrow> Some e
         | Inr n \<Rightarrow> check_lengths w (Some (int n)) vs))"

text \<open>\<^verbatim>\<open>DatasetExpression.updateValues\<close> for the dataset stored under \<open>self\<close>.\<close>

definition updateValues :: "externals \<Rightarrow> reader \<Rightarrow> string \<Rightarrow> state \<Rightarrow> (pyerr + unit) \<times> state" where
  "updateValues x rd self st =
     (case map_of (data (fst st)) self of
        Some (DatasetExpression e) \<Rightarrow>
          (case eval_loop x rd self (expr e) st of
             (Inl er, st') \<Rightarrow> (Inl er, st')
           | (Inr u, (d, w)) \<Rightarrow>
               (case map_of (data d) self of
                  Some (DatasetExpression e') \<Rightarrow>
                    (case check_lengths w None (map snd (evaluated e')) of
                       Some er \<Rightarrow> (Inl er, (d, w))
                     | None \<Rightarrow> (Inr (), (d, w)))
                | _ \<Rightarrow> (Inl AttributeError, (d, w))))
      | _ \<Rightarrow> (Inl AttributeError, st))"

text \<open>
  \<^verbatim>\<open>DatasetExpression._propValues(name)\<close> for the dataset stored under \<open>self\<close>; the
  document compared against is the one of the state. The assignment before
  \<^verbatim>\<open>updateValues\<close> goes to the attribute \<^verbatim>\<open>changeset\<close>; \<^verbatim>\<open>docchangeset\<close> is only read.
\<close>

definition propValues_body :: "externals \<Rightarrow> reader \<Rightarrow> string \<Rightarrow> part \<Rightarrow> state \<Rightarrow> (pyerr + pyval) \<times> state" where
  "propValues_body x rd self pt st =
     (case map_of (data (fst st)) self of
        Some (DatasetExpression e) \<Rightarrow>
          (if document e = None then (Inl AssertionError, st)
           else
             (case (if Some (changeset (fst st)) \<noteq> docchangeset e
                    then updateValues x rd self
                           (upd_expr self (\<lambda>e. e\<lparr>ds_changeset := Some (changeset (fst st))\<rparr>) (fst st),
                            snd st)
                    else (Inr (), st)) of
                (Inl er, st') \<Rightarrow> (Inl er, st')
              | (Inr u, st') \<Rightarrow>
                  (case map_of (data (fst st')) self of
                     Some (DatasetExpression e') \<Rightarrow>
                       (case map_of (evaluated e') pt of
                          None \<Rightarrow> (Inl (KeyError (part_name pt)), st')
                        | Some v \<Rightarrow> (Inr v, st'))
                   | _ \<Rightarrow> (Inl AttributeError, st'))))
      | _ \<Rightarrow> (Inl AttributeError, st))"

text \<open>
  Reading a part of one expression dataset reads the parts of every other one-dimensional
  dataset, expression datasets among them. \<open>fuel\<close> bounds the nesting of these reads as
  the interpreter's recursion limit does; at the limit Python raises RuntimeError.
\<close>

primrec propValues :: "externals \<Rightarrow> nat \<Rightarrow> reader" where
  "propValues x 0 = (\<lambda>self pt st. (Inl (RuntimeError ''maximum recursion depth exceeded''), st))"
| "propValues x (Suc fuel) = propValues_body x (propValues x fuel)"

text \<open>Reading \<^verbatim>\<open>d.data\<close>, \<^verbatim>\<open>d.serr\<close>, \<^verbatim>\<open>d.nerr\<close> or \<^verbatim>\<open>d.perr\<close> of the dataset under \<open>nm\<close>.\<close>

definition read_part :: "externals \<Rightarrow> nat \<Rightarrow> string \<Rightarrow> part \<Rightarrow> state \<Rightarrow> (pyerr + pyval) \<times> state" where
  "read_part x fuel nm pt = getattr_part (propValues x fuel) nm pt"

section \<open>Literal datasets\<close>

text \<open>
  The loop \<^verbatim>\<open>for i in (self.serr, self.nerr, self.perr): assert i == None or i.shape == s\<close>
  of \<^verbatim>\<open>Dataset.__init__\<close> and \<^verbatim>\<open>Dataset.changeValues\<close>.
\<close>

fun check_shapes :: "world \<Rightarrow> nat list \<Rightarrow> pyval list \<Rightarrow> pyerr option" where
  "check_shapes w s [] = None"
| "check_shapes w s (None # rest) = check_shapes w s rest"
| "check_shapes w s (Some i # rest) =
     (case shape (cells w i) of
        Inl e \<Rightarrow> Some e
      | Inr t \<Rightarrow> (if t = s then check_shapes w s rest else Some AssertionError))"

text \<open>\<^verbatim>\<open>serr + self.data*0.\<close> for an error argument that is not \<^verbatim>\<open>None\<close>: a new array.\<close>

definition add_err :: "externals \<Rightarrow> pyval \<Rightarrow> ref \<Rightarrow> world \<Rightarrow> (pyerr + pyval) \<times> world" where
  "add_err x e a w =
     (case e of
        None \<Rightarrow> (Inr None, w)
      | Some r \<Rightarrow>
          (case np_addzero x (cells w r) (cells w a) of
             Inl er \<Rightarrow> (Inl er, w)
           | Inr ob \<Rightarrow> (let (r', w') = alloc ob w in (Inr (Some r'), w'))))"

text \<open>\<^verbatim>\<open>Dataset.__init__(data, serr, nerr, perr, linked)\<close>.\<close>

definition Dataset_init ::
  "externals \<Rightarrow> pyval \<Rightarrow> pyval \<Rightarrow> pyval \<Rightarrow> pyval \<Rightarrow> lref option \<Rightarrow> world \<Rightarrow> (pyerr + dataset1) \<times> world" where
  "Dataset_init x dat se ne pe lnk w =
     (case cnvt_numarray dat w of
        (None, w0) \<Rightarrow> (Inl AttributeError, w0)
      | (Some a, w0) \<Rightarrow>
          (case add_err x se a w0 of
             (Inl er, w1) \<Rightarrow> (Inl er, w1)
           | (Inr s', w1) \<Rightarrow>
          (case add_err x ne a w1 of
             (Inl er, w2) \<Rightarrow> (Inl er, w2)
           | (Inr n', w2) \<Rightarrow>
          (case add_err x pe a w2 of
             (Inl er, w3) \<Rightarrow> (Inl er, w3)
           | (Inr p', w3) \<Rightarrow>
          (case shape (cells w3 a) of
             Inl er \<Rightarrow> (Inl er, w3)
           | Inr s \<Rightarrow>
               (case check_shapes w3 s [s', n', p'] of
                  Some er \<Rightarrow> (Inl er, w3)
                | None \<Rightarrow>
                    (Inr \<lparr>document = None, linked = lnk,
                          ds_data = Some a, serr = s', nerr = n', perr = p'\<rparr>, w3)))))))"

text \<open>
  \<^verbatim>\<open>Dataset.duplicate\<close> of the dataset under \<open>nm\<close>: the four attributes are read (properties,
  for an expression dataset) and handed to the constructor. \<^verbatim>\<open>Dataset2D\<close> has no such
  method.
\<close>

definition duplicate :: "externals \<Rightarrow> nat \<Rightarrow> string \<Rightarrow> state \<Rightarrow> (pyerr + dataset1) \<times> state" where
  "duplicate x fuel nm st =
     (case map_of (data (fst st)) nm of
        None \<Rightarrow> (Inl (KeyError nm), st)
      | Some (Dataset2D r) \<Rightarrow> (Inl AttributeError, st)
      | Some ds \<Rightarrow>
          andthen (read_part x fuel nm PData) (\<lambda>a.
          andthen (read_part x fuel nm PSerr) (\<lambda>b.
          andthen (read_part x fuel nm PNerr) (\<lambda>c.
          andthen (read_part x fuel nm PPerr) (\<lambda>e. \<lambda>(d, w).
            (case Dataset_init x a b c e None w of (r, w') \<Rightarrow> (r, (d, w'))))))) st)"

text \<open>\<^verbatim>\<open>Document.duplicateDataset(name, newname)\<close>.\<close>

definition duplicateDataset ::
  "externals \<Rightarrow> nat \<Rightarrow> string \<Rightarrow> string \<Rightarrow> state \<Rightarrow> (pyerr + unit) \<times> state" where
  "duplicateDataset x fuel nm newname st =
     (if has_key (data (fst st)) newname
      then (Inl (ValueError (''Dataset '' @ newname @ '' already exists'')), st)
      else
        (case duplicate x fuel nm st of
           (Inl er, st') \<Rightarrow> (Inl er, st')
         | (Inr r, (d, w)) \<Rightarrow>
             (Inr (), (setModified True (d\<lparr>data := AList.update newname (Dataset r) (data d)\<rparr>), w))))"

text \<open>The assignment at the head of \<^verbatim>\<open>changeValues\<close>, for one of the four allowed types.\<close>

definition assign_part :: "string \<Rightarrow> pyval \<Rightarrow> dataset1 \<Rightarrow> dataset1" where
  "assign_part typ vals r =
     (if typ = ''vals'' then r\<lparr>ds_data := vals\<rparr>
      else if typ = ''serr'' then r\<lparr>serr := vals\<rparr>
      else if typ = ''nerr'' then r\<lparr>nerr := vals\<rparr>
      else r\<lparr>perr := vals\<rparr>)"

definition allowed_type :: "string \<Rightarrow> bool" where
  "allowed_type typ = (typ = ''vals'' \<or> typ = ''serr'' \<or> typ = ''nerr'' \<or> typ = ''perr'')"

text \<open>
  \<^verbatim>\<open>Dataset.changeValues(type, vals)\<close> on the dataset under \<open>nm\<close>. The new value is
  stored first, the shapes are checked next, and \<^verbatim>\<open>self.document.setModified(True)\<close> comes
  last; \<^verbatim>\<open>self.document\<close>, when set, is the document of the state. On an expression
  dataset the four attributes are properties without a setter, and \<^verbatim>\<open>Dataset2D\<close> has no
  such method.
\<close>

definition changeValues :: "string \<Rightarrow> string \<Rightarrow> pyval \<Rightarrow> state \<Rightarrow> (pyerr + unit) \<times> state" where
  "changeValues nm typ vals st =
     (case map_of (data (fst st)) nm of
        None \<Rightarrow> (Inl (KeyError nm), st)
      | Some (Dataset2D r) \<Rightarrow> (Inl AttributeError, st)
      | Some (DatasetExpression e) \<Rightarrow>
          (if allowed_type typ then (Inl AttributeError, st)
           else (Inl (ValueError ''type does not contain an allowed value''), st))
      | Some (Dataset r) \<Rightarrow>
          (if allowed_type typ then
             (let r' = assign_part typ vals r;
                  d' = (fst st)\<lparr>data := AList.update nm (Dataset r') (data (fst st))\<rparr>;
                  w = snd st
              in case ds_data r' of
                   None \<Rightarrow> (Inl AttributeError, (d', w))
                 | Some a \<Rightarrow>
                     (case shape (cells w a) of
                        Inl er \<Rightarrow> (Inl er, (d', w))
                      | Inr s \<Rightarrow>
                          (case check_shapes w s [serr r', nerr r', perr r'] of
                             Some er \<Rightarrow> (Inl er, (d', w))
                           | None \<Rightarrow>
                               (case document r' of
                                  None \<Rightarrow> (Inl AttributeError, (d', w))
                                | Some i \<Rightarrow> (Inr (), (setModified True d', w))))))
           else (Inl (ValueError ''type does not contain an allowed value''), st)))"

section \<open>Two-dimensional datasets\<close>

text \<open>\<^verbatim>\<open>data.shape[i]\<close> of the constructor's argument.\<close>

definition shape_at :: "pyval \<Rightarrow> nat \<Rightarrow> world \<Rightarrow> pyerr + nat" where
  "shape_at dat i w =
     (case dat of
        None \<Rightarrow> Inl AttributeError
      | Some r \<Rightarrow>
          (case shape (cells w r) of
             Inl er \<Rightarrow> Inl er
           | Inr s \<Rightarrow> (if i < length s then Inr (s ! i) else Inl IndexError)))"

text \<open>
  \<^verbatim>\<open>Dataset2D.__init__(data, xrange=None, yrange=None)\<close>. A range that is \<^verbatim>\<open>None\<close> is
  replaced by \<^verbatim>\<open>(0, data.shape[0])\<close> for x and \<^verbatim>\<open>(0, data.shape[1])\<close> for y.
\<close>

definition Dataset2D_init ::
  "pyval \<Rightarrow> (real \<times> real) option \<Rightarrow> (real \<times> real) option \<Rightarrow> world \<Rightarrow> (pyerr + dataset2) \<times> world" where
  "Dataset2D_init dat xr yr w =
     (case cnvt_numarray dat w of (a, w') \<Rightarrow>
        (case (case xr of None \<Rightarrow> map_sum id (\<lambda>n. (0, real n)) (shape_at dat 0 w) | Some v \<Rightarrow> Inr v) of
           Inl er \<Rightarrow> (Inl er, w')
         | Inr xr' \<Rightarrow>
        (case (case yr of None \<Rightarrow> map_sum id (\<lambda>n. (0, real n)) (shape_at dat 1 w) | Some v \<Rightarrow> Inr v) of
           Inl er \<Rightarrow> (Inl er, w')
         | Inr yr' \<Rightarrow>
             (Inr \<lparr>document = None, linked = None,
                   data2d = a, xrange = Some xr', yrange = Some yr'\<rparr>, w'))))"

definition getDataRanges :: "dataset2 \<Rightarrow> (real \<times> real) option \<times> (real \<times> real) option" where
  "getDataRanges r = (xrange r, yrange r)"

section \<open>Reloading linked datasets\<close>

text \<open>
  Reading files is outside the module (\<^verbatim>\<open>simpleread\<close>, \<^verbatim>\<open>pyfits\<close>, the file system), so
  what a read produces is a parameter:
  \<^item> \<open>load_simple filename descriptor self\<close>: the entries of \<^verbatim>\<open>tempdoc.data\<close> after
    \<^verbatim>\<open>sr.setInDocument(tempdoc, linkedfile=self)\<close> and the dictionary
    \<^verbatim>\<open>sr.getInvalidConversions()\<close>, or the exception raised on the way;
  \<^item> \<open>load_2d filename datasets xrange yrange invertrows invertcols transpose\<close>: the entries
    of \<^verbatim>\<open>tempdoc.data\<close> after \<^verbatim>\<open>tempdoc.import2D(...)\<close>, or the exception;
  \<^item> \<open>load_fits filename hdu datacol symerrcol poserrcol negerrcol\<close>: the dataset
    \<^verbatim>\<open>importFITS\<close> builds from the file, or the exception.
  Each may allocate arrays in the store.
\<close>

type_synonym items = "(string \<times> dataset) list"
type_synonym errcounts = "(string \<times> nat) list"

record files =
  load_simple :: "string \<Rightarrow> string \<Rightarrow> lref \<Rightarrow> world \<Rightarrow> (pyerr + items \<times> errcounts) \<times> world"
  load_2d :: "string \<Rightarrow> string list \<Rightarrow> (real \<times> real) option \<Rightarrow> (real \<times> real) option \<Rightarrow>
      bool option \<Rightarrow> bool option \<Rightarrow> bool option \<Rightarrow> world \<Rightarrow> (pyerr + items) \<times> world"
  load_fits :: "string \<Rightarrow> string \<Rightarrow> string option \<Rightarrow> string option \<Rightarrow> string option \<Rightarrow>
      string option \<Rightarrow> world \<Rightarrow> (pyerr + dataset) \<times> world"

text \<open>
  The first component of what \<^verbatim>\<open>reloadLinks\<close> returns is a list of names in
  \<^verbatim>\<open>LinkedFile\<close> and \<^verbatim>\<open>Linked2DFile\<close>, and the string \<^verbatim>\<open>self.dsname\<close> in \<^verbatim>\<open>LinkedFITSFile\<close>.
\<close>

datatype pyseq = PyList "string list" | PyStr string

text \<open>\<^verbatim>\<open>read += nread\<close>: a list is extended by the items of any sequence, and the items of a
  string are its characters.\<close>

fun list_extend :: "string list \<Rightarrow> pyseq \<Rightarrow> string list" where
  "list_extend xs (PyList ys) = xs @ ys"
| "list_extend xs (PyStr s) = xs @ map (\<lambda>c. [c]) s"

text \<open>\<^verbatim>\<open>errors.update(nerrors)\<close>.\<close>

definition dict_update :: "('k \<times> 'v) list \<Rightarrow> ('k \<times> 'v) list \<Rightarrow> ('k \<times> 'v) list" where
  "dict_update al new = fold (\<lambda>(k, v). AList.update k v) new al"

text \<open>
  The loop \<^verbatim>\<open>for name, ds in tempdoc.data.items()\<close> of \<^verbatim>\<open>LinkedFile.reloadLinks\<close>: a
  dataset of the scratch document moves into the live one if its name is there and the
  dataset there is linked to this very link.
\<close>

fun move_linked :: "lref \<Rightarrow> items \<Rightarrow> string list \<Rightarrow> document \<Rightarrow> string list \<times> document" where
  "move_linked self [] read d = (read, d)"
| "move_linked self ((nm, ds) # rest) read d =
     (case map_of (data d) nm of
        None \<Rightarrow> move_linked self rest read d
      | Some old \<Rightarrow>
          (if get_linked old = Some self then
             move_linked self rest (read @ [nm])
               (d\<lparr>data := AList.update nm (set_document (Some (docid d)) ds) (data d)\<rparr>)
           else move_linked self rest read d))"

text \<open>The same loop in \<^verbatim>\<open>Linked2DFile.reloadLinks\<close>, which also sets \<^verbatim>\<open>errors[name] = 0\<close>
  and \<^verbatim>\<open>ds.linked = self\<close>.\<close>

fun move_linked2d ::
  "lref \<Rightarrow> items \<Rightarrow> string list \<Rightarrow> errcounts \<Rightarrow> document \<Rightarrow> string list \<times> errcounts \<times> document" where
  "move_linked2d self [] read errors d = (read, errors, d)"
| "move_linked2d self ((nm, ds) # rest) read errors d =
     (case map_of (data d) nm of
        None \<Rightarrow> move_linked2d self rest read errors d
      | Some old \<Rightarrow>
          (if get_linked old = Some self then
             move_linked2d self rest (read @ [nm]) (AList.update nm 0 errors)
               (d\<lparr>data := AList.update nm
                   (set_document (Some (docid d)) (set_linked (Some self) ds)) (data d)\<rparr>)
           else move_linked2d self rest read errors d))"

text \<open>
  \<^verbatim>\<open>Document.importFITS(dsname, filename, hdu, datacol, symerrcol, poserrcol, negerrcol,
  linked)\<close>: \<open>lnk\<close> is \<^verbatim>\<open>None\<close> for \<^verbatim>\<open>linked=False\<close> and the address of the new
  \<^verbatim>\<open>LinkedFITSFile\<close> otherwise. The dataset is stored under \<open>dsname\<close> whatever is there.
\<close>

definition importFITS ::
  "files \<Rightarrow> string \<Rightarrow> string \<Rightarrow> string \<Rightarrow> string option \<Rightarrow> string option \<Rightarrow> string option \<Rightarrow>
     string option \<Rightarrow> lref option \<Rightarrow> state \<Rightarrow> (pyerr + unit) \<times> state" where
  "importFITS f dsname filename hdu datacol symerrcol poserrcol negerrcol lnk st =
     (case load_fits f filename hdu datacol symerrcol poserrcol negerrcol (snd st) of
        (Inl er, w') \<Rightarrow> (Inl er, (fst st, w'))
      | (Inr ds, w') \<Rightarrow>
          (Inr (), (setData dsname (case lnk of None \<Rightarrow> ds | Some l \<Rightarrow> set_linked (Some l) ds) (fst st), w')))"

text \<open>\<^verbatim>\<open>reloadLinks(document)\<close> of the link object at \<open>self\<close>, by its class.\<close>

definition reloadLinks ::
  "files \<Rightarrow> lstore \<Rightarrow> lref \<Rightarrow> state \<Rightarrow> (pyerr + pyseq \<times> errcounts) \<times> state" where
  "reloadLinks f ls self st =
     (case ls self of
        LinkedFile filename descriptor useblocks \<Rightarrow>
          (case load_simple f filename descriptor self (snd st) of
             (Inl er, w') \<Rightarrow> (Inl er, (fst st, w'))
           | (Inr (its, errors), w') \<Rightarrow>
               (case move_linked self its [] (fst st) of
                  (read, d') \<Rightarrow> (Inr (PyList read, errors), (setModified True d', w'))))
      | Linked2DFile filename datasets xr yr invertrows invertcols trnsp \<Rightarrow>
          (case load_2d f filename datasets xr yr invertrows invertcols trnsp (snd st) of
             (Inl er, w') \<Rightarrow>
               (if er = Read2DError
                then (Inr (PyList [], fold (\<lambda>i. AList.update i 1) datasets []), (fst st, w'))
                else (Inl er, (fst st, w')))
           | (Inr its, w') \<Rightarrow>
               (case move_linked2d self its [] [] (fst st) of
                  (read, errors, d') \<Rightarrow> (Inr (PyList read, errors), (setModified True d', w'))))
      | LinkedFITSFile dsname filename hdu columns \<Rightarrow>
          (if length columns < 4 then (Inl IndexError, st)
           else
             (case importFITS f dsname filename hdu (columns ! 0) (columns ! 1) (columns ! 2)
                     (columns ! 3) None st of
                (Inl er, st') \<Rightarrow> (Inl er, st')
              | (Inr u, st') \<Rightarrow> (Inr (PyStr dsname, [(dsname, 0)]), st'))))"

text \<open>
  The dictionary \<^verbatim>\<open>links\<close> of \<^verbatim>\<open>reloadLinkedDatasets\<close>: one key for each link object some
  dataset refers to.
\<close>

definition collect_links :: "document \<Rightarrow> lref list" where
  "collect_links d =
     map fst (fold (\<lambda>ds links. case get_linked ds of
                                  None \<Rightarrow> links
                                | Some l \<Rightarrow> AList.update l True links)
                   (map snd (data d)) [])"

text \<open>The loop \<^verbatim>\<open>for l in links.iterkeys()\<close>.\<close>

fun reload_loop ::
  "files \<Rightarrow> lstore \<Rightarrow> lref list \<Rightarrow> string list \<Rightarrow> errcounts \<Rightarrow> state \<Rightarrow>
     (pyerr + string list \<times> errcounts) \<times> state" where
  "reload_loop f ls [] read errors st = (Inr (read, errors), st)"
| "reload_loop f ls (l # rest) read errors st =
     (case reloadLinks f ls l st of
        (Inl er, st') \<Rightarrow> (Inl er, st')
      | (Inr (nread, nerrors), st') \<Rightarrow>
          reload_loop f ls rest (list_extend read nread) (dict_update errors nerrors) st')"

text \<open>\<^verbatim>\<open>Document.reloadLinkedDatasets()\<close>.\<close>

definition reloadLinkedDatasets ::
  "files \<Rightarrow> lstore \<Rightarrow> state \<Rightarrow> (pyerr + string list \<times> errcounts) \<times> state" where
  "reloadLinkedDatasets f ls st =
     (let links = collect_links (fst st) in
      if links \<noteq> [] then
        (case reload_loop f ls links [] [] st of
           (Inl er, st') \<Rightarrow> (Inl er, st')
         | (Inr (read, errors), (d', w')) \<Rightarrow> (Inr (sort read, errors), (setModified True d', w')))
      else (Inr (sort [], []), st))"

section \<open>Saving the document\<close>

text \<open>
  What \<^verbatim>\<open>saveToFile\<close> writes, one value for each statement of the saved script. The text of
  a statement (\<^verbatim>\<open>repr\<close> of the strings, \<^verbatim>\<open>%e\<close> of the numbers) is left to its arguments.
  \<open>Header\<close> stands for the comment lines with version, user and date, \<open>SaveText\<close> for
  \<^verbatim>\<open>self.basewidget.getSaveText()\<close>; both come from outside the module.
\<close>

datatype stmt =
    Header
  | ImportFile string string bool bool
  | ImportFile2D string "string list" "(real \<times> real) option" "(real \<times> real) option"
      "bool option" "bool option" "bool option" bool
  | ImportFITSFile string string string "(string option) list" bool
  | ImportString string "real list list"
  | ImportString2D string "real \<times> real" "real \<times> real" "real list list"
  | SetDataExpression string "string option" "string option" "string option" "string option" bool
  | SaveText wref

text \<open>\<^verbatim>\<open>saveToFile\<close> of the three link classes: the import statement with \<^verbatim>\<open>linked=True\<close>.\<close>

fun link_saveToFile :: "link \<Rightarrow> stmt" where
  "link_saveToFile (LinkedFile filename descriptor useblocks) =
     ImportFile filename descriptor True useblocks"
| "link_saveToFile (Linked2DFile filename datasets xr yr invertrows invertcols trnsp) =
     ImportFile2D filename datasets xr yr invertrows invertcols trnsp True"
| "link_saveToFile (LinkedFITSFile dsname filename hdu columns) =
     ImportFITSFile dsname filename hdu (take 4 columns) True"

text \<open>
  \<^verbatim>\<open>DatasetBase.saveLinksToSavedDoc(file, savedlinks)\<close>: the link is written the first
  time it is met.
\<close>

definition saveLinksToSavedDoc :: "lstore \<Rightarrow> dataset \<Rightarrow> lref list \<times> stmt list \<Rightarrow> lref list \<times> stmt list" where
  "saveLinksToSavedDoc ls ds acc =
     (case get_linked ds of
        None \<Rightarrow> acc
      | Some l \<Rightarrow>
          (if l \<in> set (fst acc) then acc
           else (fst acc @ [l], snd acc @ [link_saveToFile (ls l)])))"

text \<open>A column for \<^verbatim>\<open>itertools.izip(*datasets)\<close>: the cells of a one-dimensional array.\<close>

definition column :: "world \<Rightarrow> pyval \<Rightarrow> pyerr + real list" where
  "column w v =
     (case v of
        None \<Rightarrow> Inl TypeError
      | Some r \<Rightarrow>
          (case cells w r of
             Arr [n] cs \<Rightarrow> Inr cs
           | _ \<Rightarrow> Inl TypeError))"

text \<open>The rows \<^verbatim>\<open>izip\<close> yields: as many as the shortest column has cells.\<close>

definition zip_rows :: "real list list \<Rightarrow> real list list" where
  "zip_rows cols =
     (case cols of
        [] \<Rightarrow> []
      | c # cs \<Rightarrow> map (\<lambda>i. map (\<lambda>col. col ! i) cols) [0 ..< fold min (map length cs) (length c)])"

text \<open>\<^verbatim>\<open>Dataset.saveToFile(file, name)\<close>: nothing for a linked dataset.\<close>

definition Dataset_saveToFile :: "world \<Rightarrow> string \<Rightarrow> dataset1 \<Rightarrow> pyerr + stmt list" where
  "Dataset_saveToFile w nm r =
     (if linked r \<noteq> None then Inr []
      else
        (let present = [ds_data r] @ (if serr r \<noteq> None then [serr r] else [])
                         @ (if perr r \<noteq> None then [perr r] else [])
                         @ (if nerr r \<noteq> None then [nerr r] else []);
             descriptor = nm @ (if serr r \<noteq> None then '',+-'' else [])
                             @ (if perr r \<noteq> None then '',+'' else [])
                             @ (if nerr r \<noteq> None then '',-'' else [])
         in if list_all (\<lambda>v. isl (column w v) = False) present
            then Inr [ImportString descriptor (zip_rows (map (\<lambda>v. projr (column w v)) present))]
            else Inl TypeError))"

text \<open>The rows of a two-dimensional array.\<close>

definition rows_of :: "pyobj \<Rightarrow> pyerr + real list list" where
  "rows_of ob =
     (case ob of
        Arr [r, c] cs \<Rightarrow> Inr (map (\<lambda>i. take c (drop (i * c) cs)) [0 ..< r])
      | _ \<Rightarrow> Inl TypeError)"

text \<open>
  \<^verbatim>\<open>Dataset2D.saveToFile(file, name)\<close>: the ranges, then the rows backwards, so that the
  lowest y comes first.
\<close>

definition Dataset2D_saveToFile :: "world \<Rightarrow> string \<Rightarrow> dataset2 \<Rightarrow> pyerr + stmt list" where
  "Dataset2D_saveToFile w nm r =
     (if linked r \<noteq> None then Inr []
      else
        (case (xrange r, yrange r, data2d r) of
           (Some xr, Some yr, Some a) \<Rightarrow>
             (case rows_of (cells w a) of
                Inl er \<Rightarrow> Inl er
              | Inr rows \<Rightarrow> Inr [ImportString2D nm xr yr (rev rows)])
         | _ \<Rightarrow> Inl TypeError))"

text \<open>\<^verbatim>\<open>DatasetExpression.saveToFile(file, name)\<close>: an error expression is written when it
  is neither \<^verbatim>\<open>None\<close> nor empty.\<close>

definition truthy :: "string option \<Rightarrow> string option" where
  "truthy e = (case e of None \<Rightarrow> None | Some s \<Rightarrow> (if s = [] then None else Some s))"

definition DatasetExpression_saveToFile :: "string \<Rightarrow> datasetexpr \<Rightarrow> pyerr + stmt list" where
  "DatasetExpression_saveToFile nm e =
     (case (map_of (expr e) PData, map_of (expr e) PSerr, map_of (expr e) PNerr, map_of (expr e) PPerr) of
        (Some dat, Some se, Some ne, Some pe) \<Rightarrow>
          Inr [SetDataExpression nm dat (truthy se) (truthy ne) (truthy pe) True]
      | _ \<Rightarrow> Inl (KeyError ''expr''))"

fun dataset_saveToFile :: "world \<Rightarrow> string \<Rightarrow> dataset \<Rightarrow> pyerr + stmt list" where
  "dataset_saveToFile w nm (Dataset r) = Dataset_saveToFile w nm r"
| "dataset_saveToFile w nm (Dataset2D r) = Dataset2D_saveToFile w nm r"
| "dataset_saveToFile w nm (DatasetExpression e) = DatasetExpression_saveToFile nm e"

text \<open>The loop \<^verbatim>\<open>for name, dataset in self.data.items(): dataset.saveToFile(file, name)\<close>.\<close>

fun save_datasets :: "world \<Rightarrow> items \<Rightarrow> stmt list \<Rightarrow> pyerr option \<times> stmt list" where
  "save_datasets w [] out = (None, out)"
| "save_datasets w ((nm, ds) # rest) out =
     (case dataset_saveToFile w nm ds of
        Inl er \<Rightarrow> (Some er, out)
      | Inr ss \<Rightarrow> save_datasets w rest (out @ ss))"

text \<open>
  \<^verbatim>\<open>Document.saveToFile(file)\<close>: returns what was written and the document afterwards. The
  last statement is \<^verbatim>\<open>self.setModified(False)\<close>; an exception before it leaves the
  document as it was.
\<close>

definition saveToFile :: "lstore \<Rightarrow> world \<Rightarrow> document \<Rightarrow> (pyerr + unit) \<times> stmt list \<times> document" where
  "saveToFile ls w d =
     (let links = snd (fold (saveLinksToSavedDoc ls) (map snd (data d)) ([], [Header])) in
      case save_datasets w (data d) links of
        (Some er, out) \<Rightarrow> (Inl er, out, d)
      | (None, out) \<Rightarrow> (Inr (), out @ [SaveText (basewidget d)], setModified False d))"

text \<open>\<^verbatim>\<open>CommandInterface.Save(filename)\<close>, the file taken as opened.\<close>

definition Save :: "lstore \<Rightarrow> world \<Rightarrow> document \<Rightarrow> (pyerr + unit) \<times> stmt list \<times> document" where
  "Save ls w d = saveToFile ls w d"

section \<open>The command interface\<close>

text \<open>
  A \<^verbatim>\<open>CommandInterface\<close> holds its document, the current widget and the verbose flag. The
  document is passed beside it, since the interface only refers to it.
\<close>

record commandinterface =
  currentwidget :: wref
  verbose :: bool

text \<open>The loop of \<^verbatim>\<open>CommandInterface._resolve\<close>.\<close>

fun ci_resolve_parts :: "wstore \<Rightarrow> wref \<Rightarrow> string list \<Rightarrow> pyerr + wref" where
  "ci_resolve_parts ws obj [] = Inr obj"
| "ci_resolve_parts ws obj (p # ps) =
     (if p = ''..'' then
        (case parent (ws obj) of
           None \<Rightarrow> Inl (ValueError ''Base graph has no parent'')
         | Some q \<Rightarrow> ci_resolve_parts ws q ps)
      else if p = ''.'' \<or> length p = 0 then ci_resolve_parts ws obj ps
      else
        (case getChild ws obj p of
           None \<Rightarrow> Inl (ValueError (''Child '' @ [CHR 0x27] @ p @ [CHR 0x27] @ '' does not exist''))
         | Some c \<Rightarrow> ci_resolve_parts ws c ps))"

definition ci_resolve :: "wstore \<Rightarrow> document \<Rightarrow> commandinterface \<Rightarrow> string \<Rightarrow> pyerr + wref" where
  "ci_resolve ws d ci wher =
     (let parts = py_split CHR ''/'' wher;
          obj = (if take 1 wher = ''/'' then basewidget d else currentwidget ci)
      in ci_resolve_parts ws obj parts)"

text \<open>\<^verbatim>\<open>CommandInterface.To\<close>: the current widget moves only when the path resolves.\<close>

definition To :: "wstore \<Rightarrow> document \<Rightarrow> string \<Rightarrow> commandinterface \<Rightarrow> (pyerr + unit) \<times> commandinterface" where
  "To ws d wher ci =
     (case ci_resolve ws d ci wher of
        Inl e \<Rightarrow> (Inl e, ci)
      | Inr w \<Rightarrow> (Inr (), ci\<lparr>currentwidget := w\<rparr>))"

text \<open>
  One element of the tuple \<^verbatim>\<open>GetData\<close> returns: \<^verbatim>\<open>if d.data != None: data = d.data.copy()\<close>.
  The attribute is read twice, as the source does.
\<close>

definition get_copy :: "externals \<Rightarrow> nat \<Rightarrow> string \<Rightarrow> part \<Rightarrow> state \<Rightarrow> (pyerr + pyval) \<times> state" where
  "get_copy x fuel nm pt =
     andthen (read_part x fuel nm pt) (\<lambda>v.
       (case v of
          None \<Rightarrow> (\<lambda>st. (Inr None, st))
        | Some a0 \<Rightarrow>
            andthen (read_part x fuel nm pt) (\<lambda>v'. \<lambda>(d, w).
              (case v' of
                 None \<Rightarrow> (Inl AttributeError, (d, w))
               | Some a \<Rightarrow> (case copy a w of (r, w') \<Rightarrow> (map_sum id Some r, (d, w')))))))"

text \<open>\<^verbatim>\<open>CommandInterface.GetData(name)\<close>: the tuple \<^verbatim>\<open>(data, serr, nerr, perr)\<close> of copies.\<close>

definition GetData ::
  "externals \<Rightarrow> nat \<Rightarrow> string \<Rightarrow> state \<Rightarrow> (pyerr + pyval \<times> pyval \<times> pyval \<times> pyval) \<times> state" where
  "GetData x fuel nm st =
     (case getData nm (fst st) of
        Inl er \<Rightarrow> (Inl er, st)
      | Inr ds \<Rightarrow>
          andthen (get_copy x fuel nm PData) (\<lambda>a.
          andthen (get_copy x fuel nm PSerr) (\<lambda>b.
          andthen (get_copy x fuel nm PNerr) (\<lambda>c.
          andthen (get_copy x fuel nm PPerr) (\<lambda>e. \<lambda>st'.
            (Inr (a, b, c, e), st'))))) st)"

text \<open>
  \<^verbatim>\<open>CommandInterface.SetData(name, val, symerr, negerr, poserr)\<close>; the verbose printout is
  left out.
\<close>

definition SetData ::
  "externals \<Rightarrow> string \<Rightarrow> pyval \<Rightarrow> pyval \<Rightarrow> pyval \<Rightarrow> pyval \<Rightarrow> state \<Rightarrow> (pyerr + unit) \<times> state" where
  "SetData x nm val symerr negerr poserr st =
     (case Dataset_init x val symerr negerr poserr None (snd st) of
        (Inl er, w') \<Rightarrow> (Inl er, (fst st, w'))
      | (Inr r, w') \<Rightarrow> (Inr (), (setData nm (Dataset r) (fst st), w')))"

text \<open>\<^verbatim>\<open>CommandInterface.GetDatasets\<close>: the names of the datasets, sorted.\<close>

definition GetDatasets :: "document \<Rightarrow> string list" where
  "GetDatasets d = sort (map fst (data d))"

section \<open>Example states\<close>

text \<open>
  A widget tree with the root at 0, its child \<^verbatim>\<open>a\<close> at 1 and the child \<^verbatim>\<open>b\<close> of that at 2,
  and an empty document over it.
\<close>

definition ex_ws :: wstore where
  "ex_ws i =
     (if i = 0 then \<lparr>name = [], parent = None, children = [1]\<rparr>
      else if i = 1 then \<lparr>name = ''a'', parent = Some 0, children = [2]\<rparr>
      else if i = 2 then \<lparr>name = ''b'', parent = Some 1, children = []\<rparr>
      else \<lparr>name = [], parent = None, children = []\<rparr>)"

definition ex_doc :: document where
  "ex_doc = \<lparr>docid = 0, data = [], changeset = 1, modified = False, basewidget = 0\<rparr>"

text \<open>
  A store with a one-dimensional array of three cells at 0, one of two cells at 1 and a
  grid of two rows and three columns at 2.
\<close>

definition ex_cells :: "ref \<Rightarrow> pyobj" where
  "ex_cells r =
     (if r = 0 then Arr [3] [1, 2, 3]
      else if r = 1 then Arr [2] [1, 2]
      else if r = 2 then Arr [2, 3] [1, 2, 3, 4, 5, 6]
      else Num 0)"

definition ex_world :: world where
  "ex_world = \<lparr>cells = ex_cells, nxt = 3, evlog = []\<rparr>"

text \<open>
  An evaluator for expressions that are a single name (its value is what the environment
  binds to it), and \<^verbatim>\<open>e + a*0.\<close> as \<^verbatim>\<open>e\<close>.
\<close>

definition ex_ext :: externals where
  "ex_ext = \<lparr>py_eval = (\<lambda>e en w. case map_of en e of
                                     None \<Rightarrow> (Inl ''name is not defined'', w)
                                   | Some v \<Rightarrow> (Inr v, w)),
             np_addzero = (\<lambda>e a. Inr e)\<rparr>"

text \<open>
  A document with the literal dataset \<^verbatim>\<open>temp\<close> and the expression dataset \<^verbatim>\<open>tempC\<close>, whose
  data expression is \<^verbatim>\<open>temp\<close>; \<^verbatim>\<open>tempC\<close> is as its constructor and \<^verbatim>\<open>setData\<close> leave it.
\<close>

definition ex_temp :: dataset where
  "ex_temp = Dataset \<lparr>document = Some 0, linked = None,
                      ds_data = Some 0, serr = None, nerr = None, perr = None\<rparr>"

definition ex_tempC :: dataset where
  "ex_tempC = DatasetExpression \<lparr>document = Some 0, linked = None,
      docchangeset = None, ds_changeset = None,
      expr = [(PData, Some ''temp''), (PSerr, None), (PNerr, None), (PPerr, None)],
      evaluated = []\<rparr>"

definition ex_expr_doc :: document where
  "ex_expr_doc = \<lparr>docid = 0, data = [(''temp'', ex_temp), (''tempC'', ex_tempC)],
                  changeset = 3, modified = True, basewidget = 0\<rparr>"

section \<open>Predicates used in the proofs\<close>

text \<open>A step that leaves the document's change counter as it found it.\<close>

definition keeps_cs :: "(state \<Rightarrow> (pyerr + 'a) \<times> state) \<Rightarrow> bool" where
  "keeps_cs m = (\<forall>st. changeset (fst (snd (m st))) = changeset (fst st))"

text \<open>
  The condition under which \<^verbatim>\<open>reloadLinks\<close> replaces a dataset: the name is in the live
  document and the dataset there is linked to the link object \<open>self\<close>
  (\<^verbatim>\<open>name in document.data and document.data[name].linked == self\<close>).
\<close>

definition linked_to :: "lref \<Rightarrow> document \<Rightarrow> string \<Rightarrow> bool" where
  "linked_to self d n =
     (case map_of (data d) n of None \<Rightarrow> False | Some old \<Rightarrow> get_linked old = Some self)"

text \<open>
  The reloads of \<^verbatim>\<open>reloadLinkedDatasets\<close> one after another: what each \<^verbatim>\<open>reloadLinks\<close>
  returned, up to the first that raised, and the state after the last one run.
\<close>

fun reload_each :: "files \<Rightarrow> lstore \<Rightarrow> lref list \<Rightarrow> state \<Rightarrow> (pyseq \<times> errcounts) list \<times> state" where
  "reload_each f ls [] st = ([], st)"
| "reload_each f ls (l # rest) st =
     (case reloadLinks f ls l st of
        (Inl er, st') \<Rightarrow> ([], st')
      | (Inr r, st') \<Rightarrow> (case reload_each f ls rest st' of (rs, st'') \<Rightarrow> (r # rs, st'')))"

definition is_fits :: "link \<Rightarrow> bool" where
  "is_fits l = (case l of LinkedFITSFile dsname filename hdu columns \<Rightarrow> True | _ \<Rightarrow> False)"

text \<open>
  Two link objects, a \<^verbatim>\<open>LinkedFile\<close> at 0 and a \<^verbatim>\<open>Linked2DFile\<close> at 1; files that hold the
  datasets \<^verbatim>\<open>x\<close> and \<^verbatim>\<open>y\<close> and the grid \<^verbatim>\<open>g\<close>; and documents in which \<^verbatim>\<open>x\<close> is linked to
  the first link, \<^verbatim>\<open>g\<close> to the second, and \<^verbatim>\<open>y\<close> is a literal dataset with no link.
\<close>

definition ex_links :: lstore where
  "ex_links l =
     (if l = 0 then LinkedFile ''data.txt'' ''x y'' False
      else Linked2DFile ''img.txt'' [''g''] None None None None None)"

definition ex_new_x :: dataset where
  "ex_new_x = Dataset \<lparr>document = Some 7, linked = Some 0,
                       ds_data = Some 1, serr = None, nerr = None, perr = None\<rparr>"

definition ex_new_y :: dataset where
  "ex_new_y = Dataset \<lparr>document = Some 7, linked = Some 0,
                       ds_data = Some 1, serr = None, nerr = None, perr = None\<rparr>"

definition ex_new_g :: dataset where
  "ex_new_g = Dataset2D \<lparr>document = Some 8, linked = None,
                         data2d = Some 2, xrange = Some (0, 2), yrange = Some (0, 3)\<rparr>"

definition ex_files :: files where
  "ex_files = \<lparr>load_simple = (\<lambda>fn desc self w. (Inr ([(''x'', ex_new_x), (''y'', ex_new_y)], []), w)),
               load_2d = (\<lambda>fn dss xr yr ir ic tr w. (Inr [(''g'', ex_new_g)], w)),
               load_fits = (\<lambda>fn hdu c0 c1 c2 c3 w. (Inl IOError, w))\<rparr>"

definition ex_old_x :: dataset where
  "ex_old_x = Dataset \<lparr>document = Some 0, linked = Some 0,
                       ds_data = Some 0, serr = None, nerr = None, perr = None\<rparr>"

definition ex_old_y :: dataset where
  "ex_old_y = Dataset \<lparr>document = Some 0, linked = None,
                       ds_data = Some 0, serr = None, nerr = None, perr = None\<rparr>"

definition ex_old_g :: dataset where
  "ex_old_g = Dataset2D \<lparr>document = Some 0, linked = Some 1,
                         data2d = Some 2, xrange = Some (0, 1), yrange = Some (0, 1)\<rparr>"

definition ex_link_doc :: document where
  "ex_link_doc = \<lparr>docid = 0, data = [(''x'', ex_old_x), (''y'', ex_old_y)],
                  changeset = 3, modified = False, basewidget = 0\<rparr>"

definition ex_grid_doc :: document where
  "ex_grid_doc = \<lparr>docid = 0, data = [(''x'', ex_old_x), (''y'', ex_old_y), (''g'', ex_old_g)],
                  changeset = 3, modified = False, basewidget = 0\<rparr>"

text \<open>The document \<open>ex_grid_doc\<close> after the first link is reloaded, and after the second.\<close>

definition ex_grid_doc1 :: document where
  "ex_grid_doc1 = \<lparr>docid = 0,
     data = [(''x'', set_document (Some 0) ex_new_x), (''y'', ex_old_y), (''g'', ex_old_g)],
     changeset = 4, modified = True, basewidget = 0\<rparr>"

definition ex_grid_doc2 :: document where
  "ex_grid_doc2 = \<lparr>docid = 0,
     data = [(''x'', set_document (Some 0) ex_new_x), (''y'', ex_old_y),
             (''g'', set_document (Some 0) (set_linked (Some 1) ex_new_g))],
     changeset = 5, modified = True, basewidget = 0\<rparr>"

text \<open>
  The expression dataset \<^verbatim>\<open>tempC\<close> of \<open>ex_expr_doc\<close> after its \<^verbatim>\<open>data\<close> has been read once,
  and the document that holds it then: \<^verbatim>\<open>_propValues\<close> has set the attribute \<^verbatim>\<open>changeset\<close>
  of the dataset, \<^verbatim>\<open>docchangeset\<close> is still \<^verbatim>\<open>None\<close>.
\<close>

definition ex_tempC1 :: dataset where
  "ex_tempC1 = DatasetExpression \<lparr>document = Some 0, linked = None,
      docchangeset = None, ds_changeset = Some 3,
      expr = [(PData, Some ''temp''), (PSerr, None), (PNerr, None), (PPerr, None)],
      evaluated = [(PData, Some 0), (PSerr, None), (PNerr, None), (PPerr, None)]\<rparr>"

definition ex_expr_doc1 :: document where
  "ex_expr_doc1 = \<lparr>docid = 0, data = [(''temp'', ex_temp), (''tempC'', ex_tempC1)],
                   changeset = 3, modified = True, basewidget = 0\<rparr>"

text \<open>
  An expression dataset whose \<^verbatim>\<open>docchangeset\<close> holds the change counter of \<open>ex_expr_doc\<close>.
\<close>

definition ex_cached :: datasetexpr where
  "ex_cached = \<lparr>document = Some 0, linked = None,
      docchangeset = Some 3, ds_changeset = Some 3,
      expr = [(PData, Some ''temp''), (PSerr, None), (PNerr, None), (PPerr, None)],
      evaluated = [(PData, Some 0), (PSerr, None), (PNerr, None), (PPerr, None)]\<rparr>"

text \<open>
  The invariant of a literal dataset: there is a \<^verbatim>\<open>data\<close> array and every error array that is
  present has its shape (the three assertions at the end of \<^verbatim>\<open>changeValues\<close>).
\<close>

definition shapes_match :: "world \<Rightarrow> dataset1 \<Rightarrow> bool" where
  "shapes_match w r =
     (case ds_data r of
        None \<Rightarrow> False
      | Some a \<Rightarrow>
          (case shape (cells w a) of
             Inl e \<Rightarrow> False
           | Inr s \<Rightarrow>
               list_all (\<lambda>i. case i of None \<Rightarrow> True | Some j \<Rightarrow> shape (cells w j) = Inr s)
                 [serr r, nerr r, perr r]))"

text \<open>
  What a caller can do with arrays it holds: a sequence of writes, each replacing the content
  of the array at one reference.
\<close>

definition write_cells :: "(ref \<times> pyobj) list \<Rightarrow> world \<Rightarrow> world" where
  "write_cells ws w = fold (\<lambda>(a, ob) w'. w'\<lparr>cells := (cells w')(a := ob)\<rparr>) ws w"

text \<open>The references in the tuple that \<^verbatim>\<open>GetData\<close> returns, and the arrays they refer to.\<close>

definition tuple_refs :: "pyval \<times> pyval \<times> pyval \<times> pyval \<Rightarrow> ref set" where
  "tuple_refs t = (case t of (a, b, c, e) \<Rightarrow> set_option a \<union> set_option b \<union> set_option c \<union> set_option e)"

definition contents ::
  "world \<Rightarrow> pyval \<times> pyval \<times> pyval \<times> pyval \<Rightarrow> pyobj option \<times> pyobj option \<times> pyobj option \<times> pyobj option" where
  "contents w t =
     (case t of (a, b, c, e) \<Rightarrow>
        (map_option (cells w) a, map_option (cells w) b, map_option (cells w) c, map_option (cells w) e))"

text \<open>The arrays of a literal dataset are in the allocated part of the store.\<close>

definition allocated :: "world \<Rightarrow> dataset1 \<Rightarrow> bool" where
  "allocated w r =
     list_all (\<lambda>v. case v of None \<Rightarrow> True | Some a \<Rightarrow> a < nxt w) [ds_data r, serr r, nerr r, perr r]"

text \<open>
  \<^verbatim>\<open>GetData\<close> on a literal dataset, seen from the store: each part that is not \<^verbatim>\<open>None\<close> is copied,
  one after another.
\<close>

definition copy_val :: "pyval \<Rightarrow> world \<Rightarrow> (pyerr + pyval) \<times> world" where
  "copy_val v w =
     (case v of
        None \<Rightarrow> (Inr None, w)
      | Some a \<Rightarrow> (case copy a w of (r, w') \<Rightarrow> (map_sum id Some r, w')))"

fun copy_vals :: "pyval list \<Rightarrow> world \<Rightarrow> (pyerr + pyval list) \<times> world" where
  "copy_vals [] w = (Inr [], w)"
| "copy_vals (v # vs) w =
     (case copy_val v w of
        (Inl e, w') \<Rightarrow> (Inl e, w')
      | (Inr r, w') \<Rightarrow>
          (case copy_vals vs w' of
             (Inl e, w'') \<Rightarrow> (Inl e, w'')
           | (Inr rs, w'') \<Rightarrow> (Inr (r # rs), w'')))"

text \<open>The store of \<open>ex_world\<close> after one more array, a copy of the array at 0, was allocated.\<close>

definition ex_world1 :: world where
  "ex_world1 = \<lparr>cells = ex_cells(3 := Arr [3] [1, 2, 3]), nxt = 4, evlog = []\<rparr>"

text \<open>
  The branch of \<^verbatim>\<open>_propValues\<close> that evaluates: \<^verbatim>\<open>self.changeset\<close> is assigned,
  \<^verbatim>\<open>updateValues\<close> is run and the part asked for is taken from what it stored.
\<close>

definition reevaluate :: "externals \<Rightarrow> reader \<Rightarrow> string \<Rightarrow> part \<Rightarrow> state \<Rightarrow> (pyerr + pyval) \<times> state" where
  "reevaluate x rd self pt st =
     (case updateValues x rd self
             (upd_expr self (\<lambda>e. e\<lparr>ds_changeset := Some (changeset (fst st))\<rparr>) (fst st), snd st) of
        (Inl er, st') \<Rightarrow> (Inl er, st')
      | (Inr u, st') \<Rightarrow>
          (case map_of (data (fst st')) self of
             Some (DatasetExpression e') \<Rightarrow>
               (case map_of (evaluated e') pt of
                  None \<Rightarrow> (Inl (KeyError (part_name pt)), st')
                | Some v \<Rightarrow> (Inr v, st'))
           | _ \<Rightarrow> (Inl AttributeError, st')))"

text \<open>
  The document \<open>ex_expr_doc\<close> with \<open>ex_cached\<close> for its expression dataset \<^verbatim>\<open>tempC\<close>: the
  counter recorded is the document's.
\<close>

definition ex_cached_doc :: document where
  "ex_cached_doc = \<lparr>docid = 0, data = [(''temp'', ex_temp), (''tempC'', DatasetExpression ex_cached)],
                    changeset = 3, modified = True, basewidget = 0\<rparr>"

text \<open>
  A FITS file whose table gives the array at 1, and the link object that
  \<^verbatim>\<open>importFITS('ab', 'img.fits', '1', datacol='flux', linked=True)\<close> makes, at every address.
  \<open>ex_user_ab\<close> is a literal dataset with the array at 0 and no link. In \<open>ex_fits_doc\<close> the
  dataset read from the file is called \<^verbatim>\<open>zz\<close> and \<^verbatim>\<open>ab\<close> is \<open>ex_user_ab\<close>.
\<close>

definition ex_fits_files :: files where
  "ex_fits_files =
     \<lparr>load_simple = (\<lambda>fn desc self w. (Inl IOError, w)),
      load_2d = (\<lambda>fn dss xr yr ir ic tr w. (Inl IOError, w)),
      load_fits = (\<lambda>fn hdu c0 c1 c2 c3 w.
        (Inr (Dataset \<lparr>document = None, linked = None,
                       ds_data = Some 1, serr = None, nerr = None, perr = None\<rparr>), w))\<rparr>"

definition ex_fits_links :: lstore where
  "ex_fits_links l = LinkedFITSFile ''ab'' ''img.fits'' ''1'' [Some ''flux'', None, None, None]"

definition ex_user_ab :: dataset where
  "ex_user_ab = Dataset \<lparr>document = None, linked = None,
                         ds_data = Some 0, serr = None, nerr = None, perr = None\<rparr>"

definition ex_fits_doc :: document where
  "ex_fits_doc =
     \<lparr>docid = 0,
      data = [(''zz'', Dataset \<lparr>document = Some 0, linked = Some 0,
                               ds_data = Some 1, serr = None, nerr = None, perr = None\<rparr>),
              (''ab'', Dataset \<lparr>document = Some 0, linked = None,
                               ds_data = Some 0, serr = None, nerr = None, perr = None\<rparr>)],
      changeset = 4, modified = True, basewidget = 0\<rparr>"

section \<open>Properties of path resolution\<close>

lemma ci_resolve_parts_eq:
  "ci_resolve_parts ws obj ps = resolve_parts ws obj ps"
  by (induction ps arbitrary: obj) (simp_all add: child_missing_def split: option.split)

text \<open>
  Claim C7. \<^verbatim>\<open>Document.resolve(origin, path)\<close> and \<^verbatim>\<open>CommandInterface._resolve(path)\<close> with
  \<^verbatim>\<open>currentwidget = origin\<close> give the same widget or fail with the same error, for every
  widget store, document, origin and path.
\<close>

theorem resolve_same_as_ci_resolve:
  "ci_resolve ws d (ci\<lparr>currentwidget := origin\<rparr>) wher = resolve ws d origin wher"
  by (simp add: ci_resolve_def resolve_def ci_resolve_parts_eq)

lemma py_split_nonempty: "py_split c xs \<noteq> []"
  by (induction xs) (auto split: list.splits)

lemma py_split_append:
  "py_split c (xs @ c # ys) = py_split c xs @ py_split c ys"
  by (induction xs) (auto split: list.splits simp: py_split_nonempty)

lemma py_split_no_sep: "c \<notin> set xs \<Longrightarrow> py_split c xs = [xs]"
  by (induction xs) auto

lemma resolve_parts_append:
  "resolve_parts ws obj (ps @ qs) =
     (case resolve_parts ws obj ps of Inl e \<Rightarrow> Inl e | Inr ob \<Rightarrow> resolve_parts ws ob qs)"
  by (induction ps arbitrary: obj) (auto split: option.splits)

lemma getChild_in_children: "getChild ws obj p = Some c \<Longrightarrow> c \<in> set (children (ws obj))"
  by (auto simp: getChild_def find_Some_iff)

lemma child_then_parent:
  assumes wf: "\<And>n c. c \<in> set (children (ws n)) \<Longrightarrow> parent (ws c) = Some n"
    and b: "b \<noteq> []" "b \<noteq> ''.''" "b \<noteq> ''..''"
    and r: "resolve_parts ws obj [b, ''..''] = Inr n"
  shows "n = obj"
proof (cases "getChild ws obj b")
  case None
  with b r show ?thesis by simp
next
  case (Some c)
  then have "parent (ws c) = Some obj" by (rule wf [OF getChild_in_children])
  with Some b r show ?thesis by simp
qed

lemma resolve_dot: "resolve ws d node ''.'' = Inr node"
  by (simp add: resolve_def)

lemma resolve_up_again:
  assumes wf: "\<And>n c. c \<in> set (children (ws n)) \<Longrightarrow> parent (ws c) = Some n"
    and b: "CHR ''/'' \<notin> set b" "b \<noteq> []" "b \<noteq> ''.''" "b \<noteq> ''..''"
    and r: "resolve ws d origin (''/'' @ a @ ''/'' @ b @ ''/..'') = Inr n"
  shows "resolve ws d origin (''/'' @ a) = Inr n"
proof -
  have sp: "py_split CHR ''/'' (''/'' @ a @ ''/'' @ b @ ''/..'')
              = py_split CHR ''/'' (''/'' @ a) @ [b, ''..'']"
    using py_split_append [of "CHR ''/''" "''/'' @ a" "b @ ''/..''"]
          py_split_append [of "CHR ''/''" b "''..''"] py_split_no_sep [OF b(1)]
    by simp
  from r have r': "resolve_parts ws (basewidget d) (py_split CHR ''/'' (''/'' @ a) @ [b, ''..'']) = Inr n"
    unfolding resolve_def sp [symmetric] by simp
  then obtain ob where ob: "resolve_parts ws (basewidget d) (py_split CHR ''/'' (''/'' @ a)) = Inr ob"
    and fin: "resolve_parts ws ob [b, ''..''] = Inr n"
    by (auto simp: resolve_parts_append split: sum.splits)
  from child_then_parent [OF wf b(2-4) fin] have "n = ob" by simp
  with ob show ?thesis by (simp add: resolve_def)
qed

lemma resolve_missing_child:
  assumes pre: "resolve ws d origin pre = Inr obj" "pre \<noteq> []"
    and p: "CHR ''/'' \<notin> set p" "p \<noteq> []" "p \<noteq> ''.''" "p \<noteq> ''..''"
    and none: "getChild ws obj p = None"
  shows "resolve ws d origin (pre @ ''/'' @ p @ ''/'' @ rest)
           = Inl (ValueError (''Child '' @ [CHR 0x27] @ p @ [CHR 0x27] @ '' does not exist''))"
proof -
  have sp: "py_split CHR ''/'' (pre @ ''/'' @ p @ ''/'' @ rest)
              = py_split CHR ''/'' pre @ p # py_split CHR ''/'' rest"
    using py_split_append [of "CHR ''/''" pre "p @ ''/'' @ rest"]
          py_split_append [of "CHR ''/''" p rest] py_split_no_sep [OF p(1)]
    by simp
  have tk: "take 1 (pre @ ''/'' @ p @ ''/'' @ rest) = take 1 pre"
    using pre(2) by (cases pre) simp_all
  show ?thesis
    using pre(1) p none unfolding resolve_def sp tk
    by (simp add: resolve_parts_append child_missing_def Let_def)
qed

text \<open>
  Claim C4. In a widget tree where every child points back to its parent:
  \<^item> if the path \<^verbatim>\<open>/a/b/..\<close> resolves (\<open>a\<close> any path, \<open>b\<close> the name of a child), then \<^verbatim>\<open>/a\<close>
    resolves to the same widget;
  \<^item> the path \<^verbatim>\<open>.\<close> resolves to the origin itself, from every origin;
  \<^item> if a prefix of a path resolves to a widget that has no child named by the next
    segment \<open>p\<close>, resolution fails with the ValueError \<^verbatim>\<open>Child 'p' does not exist\<close>; the
    last conjunct says the same of the loop at any point of a path.
\<close>

theorem path_resolution:
  "((\<forall>n c. c \<in> set (children (ws n)) \<longrightarrow> parent (ws c) = Some n)
      \<and> CHR ''/'' \<notin> set b \<and> b \<noteq> [] \<and> b \<noteq> ''.'' \<and> b \<noteq> ''..''
      \<and> resolve ws d origin (''/'' @ a @ ''/'' @ b @ ''/..'') = Inr n
      \<longrightarrow> resolve ws d origin (''/'' @ a) = Inr n)
   \<and> resolve ws d node ''.'' = Inr node
   \<and> (resolve ws d origin pre = Inr obj \<and> pre \<noteq> []
      \<and> CHR ''/'' \<notin> set p \<and> p \<noteq> [] \<and> p \<noteq> ''.'' \<and> p \<noteq> ''..''
      \<and> getChild ws obj p = None
      \<longrightarrow> resolve ws d origin (pre @ ''/'' @ p @ ''/'' @ rest)
            = Inl (ValueError (''Child '' @ [CHR 0x27] @ p @ [CHR 0x27] @ '' does not exist'')))
   \<and> (p \<noteq> [] \<and> p \<noteq> ''.'' \<and> p \<noteq> ''..'' \<and> getChild ws obj p = None
      \<longrightarrow> resolve_parts ws obj (p # ps)
            = Inl (ValueError (''Child '' @ [CHR 0x27] @ p @ [CHR 0x27] @ '' does not exist'')))"
proof (intro conjI impI)
  assume h: "(\<forall>n c. c \<in> set (children (ws n)) \<longrightarrow> parent (ws c) = Some n)
      \<and> CHR ''/'' \<notin> set b \<and> b \<noteq> [] \<and> b \<noteq> ''.'' \<and> b \<noteq> ''..''
      \<and> resolve ws d origin (''/'' @ a @ ''/'' @ b @ ''/..'') = Inr n"
  then show "resolve ws d origin (''/'' @ a) = Inr n"
    using resolve_up_again [of ws b d origin a n] by blast
next
  show "resolve ws d node ''.'' = Inr node" by (rule resolve_dot)
next
  assume "resolve ws d origin pre = Inr obj \<and> pre \<noteq> []
      \<and> CHR ''/'' \<notin> set p \<and> p \<noteq> [] \<and> p \<noteq> ''.'' \<and> p \<noteq> ''..''
      \<and> getChild ws obj p = None"
  then show "resolve ws d origin (pre @ ''/'' @ p @ ''/'' @ rest)
            = Inl (ValueError (''Child '' @ [CHR 0x27] @ p @ [CHR 0x27] @ '' does not exist''))"
    using resolve_missing_child [of ws d origin pre obj p rest] by blast
next
  assume "p \<noteq> [] \<and> p \<noteq> ''.'' \<and> p \<noteq> ''..'' \<and> getChild ws obj p = None"
  then show "resolve_parts ws obj (p # ps)
            = Inl (ValueError (''Child '' @ [CHR 0x27] @ p @ [CHR 0x27] @ '' does not exist''))"
    by (simp add: child_missing_def)
qed

lemma ex_ws_wf: "\<forall>n c. c \<in> set (children (ex_ws n)) \<longrightarrow> parent (ex_ws c) = Some n"
  by (simp add: ex_ws_def)

text \<open>
  The tree \<open>ex_ws\<close>, from the widget \<^verbatim>\<open>b\<close>: \<^verbatim>\<open>/a/b/..\<close> and \<^verbatim>\<open>/a\<close> are the widget \<^verbatim>\<open>a\<close>, and
  \<^verbatim>\<open>/a/zz/b\<close> fails naming \<^verbatim>\<open>zz\<close>.
\<close>

theorem path_resolution_witness:
  "resolve ex_ws ex_doc 2 ''/a/b/..'' = Inr 1
   \<and> resolve ex_ws ex_doc 2 ''/a'' = Inr 1
   \<and> resolve ex_ws ex_doc 2 ''.'' = Inr 2
   \<and> getChild ex_ws 1 ''zz'' = None
   \<and> resolve ex_ws ex_doc 2 ''/a/zz/b''
        = Inl (ValueError (''Child '' @ [CHR 0x27] @ ''zz'' @ [CHR 0x27] @ '' does not exist''))
   \<and> resolve_parts ex_ws 1 [''zz'', ''b'']
        = Inl (ValueError (''Child '' @ [CHR 0x27] @ ''zz'' @ [CHR 0x27] @ '' does not exist''))"
proof -
  have r1: "resolve ex_ws ex_doc 2 ''/a/b/..'' = Inr 1"
    by (simp add: resolve_def ex_ws_def ex_doc_def getChild_def)
  have r2: "resolve ex_ws ex_doc 2 ''/a'' = Inr 1"
    by (simp add: resolve_def ex_ws_def ex_doc_def getChild_def)
  have g: "getChild ex_ws 1 ''zz'' = None"
    by (simp add: ex_ws_def getChild_def)
  show ?thesis
    using path_resolution [of ex_ws "''b''" ex_doc 2 "''a''" 1 2 "''/a''" 1 "''zz''" "''b''" "[''b'']"]
      ex_ws_wf r1 r2 g
    by simp
qed

section \<open>Properties of the change counter\<close>

text \<open>Reading datasets, expression datasets included, never moves the change counter.\<close>

lemma keeps_csI: "(\<And>st. changeset (fst (snd (m st))) = changeset (fst st)) \<Longrightarrow> keeps_cs m"
  by (simp add: keeps_cs_def)

lemma keeps_csD: "keeps_cs m \<Longrightarrow> changeset (fst (snd (m st))) = changeset (fst st)"
  unfolding keeps_cs_def by blast

lemma keeps_andthen:
  assumes "keeps_cs m" and "\<And>a. keeps_cs (f a)"
  shows "keeps_cs (andthen m f)"
proof (rule keeps_csI)
  fix st
  show "changeset (fst (snd (andthen m f st))) = changeset (fst st)"
  proof -
    obtain r s' where Pair: "m st = (r, s')" by (cases "m st")
    have "changeset (fst (snd (m st))) = changeset (fst st)" by (rule keeps_csD [OF assms(1)])
    with Pair have s': "changeset (fst s') = changeset (fst st)" by simp
    show ?thesis
    proof (cases r)
      case (Inl e)
      with Pair s' show ?thesis by (simp add: andthen_def)
    next
      case (Inr a)
      have "changeset (fst (snd (f a s'))) = changeset (fst s')" by (rule keeps_csD [OF assms(2)])
      with Inr Pair s' show ?thesis by (simp add: andthen_def)
    qed
  qed
qed

lemma keeps_return: "keeps_cs (\<lambda>st. (r, st))"
  by (simp add: keeps_cs_def)

lemma keeps_getattr:
  assumes "\<And>nm pt. keeps_cs (rd nm pt)"
  shows "keeps_cs (getattr_part rd nm pt)"
  using assms
  by (auto simp: keeps_cs_def getattr_part_def split: option.splits dataset.splits)

lemma keeps_env_dataset:
  assumes "\<And>nm pt. keeps_cs (rd nm pt)"
  shows "keeps_cs (env_dataset rd pt nm en)"
  unfolding env_dataset_def
  by (intro keeps_andthen keeps_getattr assms keeps_return)

lemma keeps_env_loop:
  assumes "\<And>nm pt. keeps_cs (rd nm pt)"
  shows "changeset (fst (snd (env_loop rd self pt nms en st))) = changeset (fst st)"
proof (induction nms arbitrary: en st)
  case Nil
  show ?case by simp
next
  case (Cons nm nms)
  show ?case
  proof -
    obtain r s' where Pair: "env_dataset rd pt nm en st = (r, s')" by (cases "env_dataset rd pt nm en st")
    have "changeset (fst (snd (env_dataset rd pt nm en st))) = changeset (fst st)"
      by (rule keeps_csD [OF keeps_env_dataset [OF assms]])
    with Pair have s': "changeset (fst s') = changeset (fst st)" by simp
    show ?thesis
      using Pair s' Cons.IH
      by (cases r) (simp_all split: option.splits)
  qed
qed

lemma upd_expr_changeset [simp]: "changeset (upd_expr self f d) = changeset d"
  by (simp add: upd_expr_def split: option.splits dataset.splits)

lemma set_evaluated_changeset [simp]: "changeset (set_evaluated self pt v d) = changeset d"
  by (simp add: set_evaluated_def)

lemma keeps_eval_part:
  assumes "\<And>nm pt. keeps_cs (rd nm pt)"
  shows "changeset (fst (snd (eval_part x rd self pt ex st))) = changeset (fst st)"
proof -
  obtain r s' where Pair: "env_loop rd self pt (map fst (data (fst st))) [] st = (r, s')"
    by (cases "env_loop rd self pt (map fst (data (fst st))) [] st")
  have "changeset (fst (snd (env_loop rd self pt (map fst (data (fst st))) [] st))) = changeset (fst st)"
    by (rule keeps_env_loop [OF assms])
  with Pair have s': "changeset (fst s') = changeset (fst st)" by simp
  show ?thesis
    using Pair s'
    by (cases r; cases s') (simp_all add: eval_part_def split: prod.splits sum.splits)
qed

lemma keeps_eval_loop:
  assumes "\<And>nm pt. keeps_cs (rd nm pt)"
  shows "changeset (fst (snd (eval_loop x rd self es st))) = changeset (fst st)"
proof (induction es arbitrary: st)
  case Nil
  show ?case by simp
next
  case (Cons pe es)
  obtain pt ex where pe: "pe = (pt, ex)" by (cases pe)
  show ?case
  proof (cases ex)
    case None
    with pe Cons.IH [of "(set_evaluated self pt None (fst st), snd st)"] show ?thesis by simp
  next
    case (Some e)
    show ?thesis
    proof (cases "e = []")
      case True
      with Some pe Cons.IH [of "(set_evaluated self pt None (fst st), snd st)"] show ?thesis by simp
    next
      case False
      obtain r s' where ep: "eval_part x rd self pt e st = (r, s')" by (cases "eval_part x rd self pt e st")
      have "changeset (fst (snd (eval_part x rd self pt e st))) = changeset (fst st)"
        by (rule keeps_eval_part [OF assms])
      with ep have s': "changeset (fst s') = changeset (fst st)" by simp
      show ?thesis
        using pe Some False ep s' Cons.IH [of s'] by (cases r) simp_all
    qed
  qed
qed

lemma keeps_updateValues:
  assumes "\<And>nm pt. keeps_cs (rd nm pt)"
  shows "changeset (fst (snd (updateValues x rd self st))) = changeset (fst st)"
proof (cases "map_of (data (fst st)) self")
  case None
  then show ?thesis by (simp add: updateValues_def)
next
  case (Some ds)
  show ?thesis
  proof (cases ds)
    case (DatasetExpression e)
    obtain r s' where el: "eval_loop x rd self (expr e) st = (r, s')"
      by (cases "eval_loop x rd self (expr e) st")
    have "changeset (fst (snd (eval_loop x rd self (expr e) st))) = changeset (fst st)"
      by (rule keeps_eval_loop [OF assms])
    with el have s': "changeset (fst s') = changeset (fst st)" by simp
    show ?thesis
      using Some DatasetExpression el s'
      by (cases r; cases s')
         (simp_all add: updateValues_def split: option.splits dataset.splits)
  qed (use Some in \<open>simp_all add: updateValues_def\<close>)
qed

lemma keeps_propValues_body:
  assumes "\<And>nm pt. keeps_cs (rd nm pt)"
  shows "keeps_cs (propValues_body x rd self pt)"
proof (rule keeps_csI)
  fix st
  have uv: "\<And>s. changeset (fst (snd (updateValues x rd self s))) = changeset (fst s)"
    by (rule keeps_updateValues [OF assms])
  show "changeset (fst (snd (propValues_body x rd self pt st))) = changeset (fst st)"
  proof (cases "map_of (data (fst st)) self")
    case None
    then show ?thesis by (simp add: propValues_body_def)
  next
    case (Some ds)
    show ?thesis
    proof (cases ds)
      case (DatasetExpression e)
      let ?s = "(upd_expr self (\<lambda>e. e\<lparr>ds_changeset := Some (changeset (fst st))\<rparr>) (fst st), snd st)"
      obtain r s' where u: "updateValues x rd self ?s = (r, s')"
        by (cases "updateValues x rd self ?s")
      with uv [of ?s] have s': "changeset (fst s') = changeset (fst st)" by simp
      show ?thesis
        using Some DatasetExpression u s'
        by (cases r)
           (simp_all add: propValues_body_def split: option.splits dataset.splits)
    qed (use Some in \<open>simp_all add: propValues_body_def\<close>)
  qed
qed

lemma keeps_propValues: "keeps_cs (propValues x fuel self pt)"
proof (induction fuel arbitrary: self pt)
  case 0
  show ?case by (simp add: keeps_cs_def)
next
  case (Suc fuel)
  show ?case by (simp add: keeps_propValues_body [OF Suc.IH])
qed

lemma keeps_read_part: "keeps_cs (read_part x fuel nm pt)"
  unfolding read_part_def by (rule keeps_getattr) (rule keeps_propValues)

lemma keeps_duplicate: "keeps_cs (duplicate x fuel nm)"
proof (rule keeps_csI)
  fix st
  have k: "keeps_cs (andthen (read_part x fuel nm PData) (\<lambda>a.
          andthen (read_part x fuel nm PSerr) (\<lambda>b.
          andthen (read_part x fuel nm PNerr) (\<lambda>c.
          andthen (read_part x fuel nm PPerr) (\<lambda>e. \<lambda>(d, w).
            (case Dataset_init x a b c e None w of (r, w') \<Rightarrow> (r, (d, w'))))))))"
    by (intro keeps_andthen keeps_read_part) (simp add: keeps_cs_def split: prod.splits)
  show "changeset (fst (snd (duplicate x fuel nm st))) = changeset (fst st)"
    using keeps_csD [OF k]
    by (simp add: duplicate_def split: option.splits dataset.splits)
qed

lemma duplicateDataset_changeset:
  "changeset (fst (snd (duplicateDataset x fuel nm newname st)))
     = (if isl (fst (duplicateDataset x fuel nm newname st)) then changeset (fst st)
        else changeset (fst st) + 1)"
proof -
  obtain r s' where Pair: "duplicate x fuel nm st = (r, s')" by (cases "duplicate x fuel nm st")
  have "changeset (fst (snd (duplicate x fuel nm st))) = changeset (fst st)"
    by (rule keeps_csD [OF keeps_duplicate])
  with Pair have "changeset (fst s') = changeset (fst st)" by simp
  with Pair show ?thesis
    by (cases r; cases s') (simp_all add: duplicateDataset_def setModified_def)
qed

section \<open>Properties of reloading linked datasets\<close>

lemma move_linked_fields:
  "move_linked self its read d = (read', d') \<Longrightarrow>
     changeset d' = changeset d \<and> docid d' = docid d \<and> modified d' = modified d
     \<and> basewidget d' = basewidget d \<and> map fst (data d') = map fst (data d)"
proof (induction its arbitrary: read d)
  case Nil
  then show ?case by simp
next
  case (Cons it its)
  obtain nm ds where it: "it = (nm, ds)" by (cases it)
  show ?case
  proof (cases "map_of (data d) nm")
    case None
    with Cons it show ?thesis by simp
  next
    case (Some old)
    then have k: "nm \<in> fst ` set (data d)" by (force dest: map_of_SomeD)
    show ?thesis
    proof (cases "get_linked old = Some self")
      case True
      let ?d1 = "d\<lparr>data := AList.update nm (set_document (Some (docid d)) ds) (data d)\<rparr>"
      from Cons.prems it Some True
      have "move_linked self its (read @ [nm]) ?d1 = (read', d')" by simp
      from Cons.IH [OF this] k show ?thesis by (simp add: update_keys)
    next
      case False
      with Cons it Some show ?thesis by simp
    qed
  qed
qed

lemma linked_to_update_other:
  "n \<noteq> nm \<Longrightarrow> linked_to self (d\<lparr>data := AList.update nm v (data d)\<rparr>) n = linked_to self d n"
  by (simp add: linked_to_def update_conv')

lemma move_linked_result:
  assumes "distinct (map fst its)"
  shows "fst (move_linked self its read d) = read @ filter (linked_to self d) (map fst its)
     \<and> map_of (data (snd (move_linked self its read d))) n =
         (if linked_to self d n
          then (case map_of its n of
                  None \<Rightarrow> map_of (data d) n
                | Some ds \<Rightarrow> Some (set_document (Some (docid d)) ds))
          else map_of (data d) n)"
  using assms
proof (induction its arbitrary: read d)
  case Nil
  show ?case by simp
next
  case (Cons it its)
  obtain nm ds where it: "it = (nm, ds)" by (cases it)
  from Cons.prems it have dist: "distinct (map fst its)" and fresh: "nm \<notin> fst ` set its" by auto
  from fresh have nomap: "map_of its nm = None" by (simp add: map_of_eq_None_iff)
  show ?case
  proof (cases "linked_to self d nm")
    case False
    then have step: "move_linked self (it # its) read d = move_linked self its read d"
      by (auto simp: it linked_to_def split: option.splits)
    from Cons.IH [OF dist, of read d] False nomap show ?thesis
      unfolding step by (auto simp: it)
  next
    case True
    let ?v = "set_document (Some (docid d)) ds"
    let ?d1 = "d\<lparr>data := AList.update nm ?v (data d)\<rparr>"
    from True have step: "move_linked self (it # its) read d = move_linked self its (read @ [nm]) ?d1"
      by (auto simp: it linked_to_def split: option.splits)
    have flt: "filter (linked_to self ?d1) (map fst its) = filter (linked_to self d) (map fst its)"
    proof (rule filter_cong [OF refl])
      fix a assume "a \<in> set (map fst its)"
      with fresh have "a \<noteq> nm" by auto
      then show "linked_to self ?d1 a = linked_to self d a" by (rule linked_to_update_other)
    qed
    show ?thesis
    proof (cases "n = nm")
      case True
      with Cons.IH [OF dist, of "read @ [nm]" ?d1] \<open>linked_to self d nm\<close> nomap flt show ?thesis
        unfolding step by (simp add: it update_conv')
    next
      case False
      with Cons.IH [OF dist, of "read @ [nm]" ?d1] \<open>linked_to self d nm\<close> flt show ?thesis
        unfolding step by (simp add: it update_conv' linked_to_update_other cong: option.case_cong)
    qed
  qed
qed

lemma move_linked2d_fields:
  "move_linked2d self its read errors d = (read', errors', d') \<Longrightarrow>
     changeset d' = changeset d \<and> docid d' = docid d \<and> modified d' = modified d
     \<and> basewidget d' = basewidget d \<and> map fst (data d') = map fst (data d)"
proof (induction its arbitrary: read errors d)
  case Nil
  then show ?case by simp
next
  case (Cons it its)
  obtain nm ds where it: "it = (nm, ds)" by (cases it)
  show ?case
  proof (cases "map_of (data d) nm")
    case None
    with Cons it show ?thesis by simp
  next
    case (Some old)
    then have k: "nm \<in> fst ` set (data d)" by (force dest: map_of_SomeD)
    show ?thesis
    proof (cases "get_linked old = Some self")
      case True
      let ?d1 = "d\<lparr>data := AList.update nm
                   (set_document (Some (docid d)) (set_linked (Some self) ds)) (data d)\<rparr>"
      from Cons.prems it Some True
      have "move_linked2d self its (read @ [nm]) (AList.update nm 0 errors) ?d1 = (read', errors', d')"
        by simp
      from Cons.IH [OF this] k show ?thesis by (simp add: update_keys)
    next
      case False
      with Cons it Some show ?thesis by simp
    qed
  qed
qed

lemma move_linked2d_result:
  assumes "distinct (map fst its)"
  shows "fst (move_linked2d self its read errors d) = read @ filter (linked_to self d) (map fst its)
     \<and> map_of (data (snd (snd (move_linked2d self its read errors d)))) n =
         (if linked_to self d n
          then (case map_of its n of
                  None \<Rightarrow> map_of (data d) n
                | Some ds \<Rightarrow> Some (set_document (Some (docid d)) (set_linked (Some self) ds)))
          else map_of (data d) n)"
  using assms
proof (induction its arbitrary: read errors d)
  case Nil
  show ?case by simp
next
  case (Cons it its)
  obtain nm ds where it: "it = (nm, ds)" by (cases it)
  from Cons.prems it have dist: "distinct (map fst its)" and fresh: "nm \<notin> fst ` set its" by auto
  from fresh have nomap: "map_of its nm = None" by (simp add: map_of_eq_None_iff)
  show ?case
  proof (cases "linked_to self d nm")
    case False
    then have step: "move_linked2d self (it # its) read errors d = move_linked2d self its read errors d"
      by (auto simp: it linked_to_def split: option.splits)
    from Cons.IH [OF dist, of read errors d] False nomap show ?thesis
      unfolding step by (auto simp: it)
  next
    case True
    let ?v = "set_document (Some (docid d)) (set_linked (Some self) ds)"
    let ?d1 = "d\<lparr>data := AList.update nm ?v (data d)\<rparr>"
    from True have step: "move_linked2d self (it # its) read errors d
        = move_linked2d self its (read @ [nm]) (AList.update nm 0 errors) ?d1"
      by (auto simp: it linked_to_def split: option.splits)
    have flt: "filter (linked_to self ?d1) (map fst its) = filter (linked_to self d) (map fst its)"
    proof (rule filter_cong [OF refl])
      fix a assume "a \<in> set (map fst its)"
      with fresh have "a \<noteq> nm" by auto
      then show "linked_to self ?d1 a = linked_to self d a" by (rule linked_to_update_other)
    qed
    show ?thesis
    proof (cases "n = nm")
      case True
      with Cons.IH [OF dist, of "read @ [nm]" "AList.update nm 0 errors" ?d1]
        \<open>linked_to self d nm\<close> nomap flt show ?thesis
        unfolding step by (simp add: it update_conv')
    next
      case False
      with Cons.IH [OF dist, of "read @ [nm]" "AList.update nm 0 errors" ?d1]
        \<open>linked_to self d nm\<close> flt show ?thesis
        unfolding step by (simp add: it update_conv' linked_to_update_other cong: option.case_cong)
    qed
  qed
qed

lemma reloadLinks_LinkedFile:
  assumes "ls self = LinkedFile fn desc ub"
    and "load_simple f fn desc self (snd st) = (Inr (its, errs), w1)"
  shows "reloadLinks f ls self st =
     (Inr (PyList (fst (move_linked self its [] (fst st))), errs),
      (setModified True (snd (move_linked self its [] (fst st))), w1))"
  using assms by (simp add: reloadLinks_def split: prod.splits)

lemma reloadLinks_Linked2DFile:
  assumes "ls self = Linked2DFile fn dss xr yr ir ic tr"
    and "load_2d f fn dss xr yr ir ic tr (snd st) = (Inr its, w1)"
  shows "reloadLinks f ls self st =
     (Inr (PyList (fst (move_linked2d self its [] [] (fst st))),
           fst (snd (move_linked2d self its [] [] (fst st)))),
      (setModified True (snd (snd (move_linked2d self its [] [] (fst st)))), w1))"
  using assms by (simp add: reloadLinks_def split: prod.splits)

lemma setModified_fields [simp]:
  "changeset (setModified b d) = changeset d + 1" "modified (setModified b d) = b"
  "data (setModified b d) = data d" "docid (setModified b d) = docid d"
  "basewidget (setModified b d) = basewidget d"
  by (simp_all add: setModified_def)

lemma setData_changeset [simp]: "changeset (setData nm ds d) = changeset d + 1"
  by (simp add: setData_def)

lemma importFITS_changeset:
  "changeset (fst (snd (importFITS f dsname filename hdu c0 c1 c2 c3 lnk st)))
     = (if isl (fst (importFITS f dsname filename hdu c0 c1 c2 c3 lnk st))
        then changeset (fst st) else changeset (fst st) + 1)"
  by (simp add: importFITS_def split: prod.splits sum.splits)

lemma reloadLinks_changeset:
  "changeset (fst st) \<le> changeset (fst (snd (reloadLinks f ls self st)))
   \<and> changeset (fst (snd (reloadLinks f ls self st))) \<le> changeset (fst st) + 1"
proof (cases "ls self")
  case (LinkedFile fn desc ub)
  obtain r w1 where l: "load_simple f fn desc self (snd st) = (r, w1)"
    by (cases "load_simple f fn desc self (snd st)")
  show ?thesis
  proof (cases r)
    case (Inl e)
    with LinkedFile l show ?thesis by (simp add: reloadLinks_def)
  next
    case (Inr p)
    obtain its errs where p: "p = (its, errs)" by (cases p)
    obtain rd d' where m: "move_linked self its [] (fst st) = (rd, d')"
      by (cases "move_linked self its [] (fst st)")
    from move_linked_fields [OF m] have "changeset d' = changeset (fst st)" by simp
    with LinkedFile l Inr p m show ?thesis by (simp add: reloadLinks_def)
  qed
next
  case (Linked2DFile fn dss xr yr ir ic tr)
  obtain r w1 where l: "load_2d f fn dss xr yr ir ic tr (snd st) = (r, w1)"
    by (cases "load_2d f fn dss xr yr ir ic tr (snd st)")
  show ?thesis
  proof (cases r)
    case (Inl e)
    with Linked2DFile l show ?thesis by (simp add: reloadLinks_def)
  next
    case (Inr its)
    obtain rd es d' where m: "move_linked2d self its [] [] (fst st) = (rd, es, d')"
      by (cases "move_linked2d self its [] [] (fst st)") auto
    from move_linked2d_fields [OF m] have "changeset d' = changeset (fst st)" by simp
    with Linked2DFile l Inr m show ?thesis by (simp add: reloadLinks_def)
  qed
next
  case (LinkedFITSFile dsname fn hdu cols)
  show ?thesis
  proof (cases "length cols < 4")
    case True
    with LinkedFITSFile show ?thesis by (simp add: reloadLinks_def)
  next
    case False
    let ?r = "importFITS f dsname fn hdu (cols ! 0) (cols ! 1) (cols ! 2) (cols ! 3) None st"
    obtain r st' where i: "?r = (r, st')" by (cases ?r)
    from importFITS_changeset [of f dsname fn hdu "cols ! 0" "cols ! 1" "cols ! 2" "cols ! 3" None st] i
    have "changeset (fst st') = (if isl r then changeset (fst st) else changeset (fst st) + 1)"
      by simp
    with LinkedFITSFile False i show ?thesis
      by (cases r) (simp_all add: reloadLinks_def)
  qed
qed

lemma reload_loop_changeset:
  "changeset (fst st) \<le> changeset (fst (snd (reload_loop f ls links read errors st)))
   \<and> changeset (fst (snd (reload_loop f ls links read errors st)))
       \<le> changeset (fst st) + int (length links)"
proof (induction links arbitrary: read errors st)
  case Nil
  show ?case by simp
next
  case (Cons l links)
  obtain r st' where rl: "reloadLinks f ls l st = (r, st')" by (cases "reloadLinks f ls l st")
  from reloadLinks_changeset [of st f ls l] rl
  have b: "changeset (fst st) \<le> changeset (fst st')" "changeset (fst st') \<le> changeset (fst st) + 1"
    by simp_all
  show ?case
  proof (cases r)
    case (Inl e)
    with rl b show ?thesis by simp
  next
    case (Inr p)
    obtain nread nerrors where p: "p = (nread, nerrors)" by (cases p)
    from Cons.IH [where st = st' and read = "list_extend read nread"
                    and errors = "dict_update errors nerrors"] b
    show ?thesis using rl Inr p by simp
  qed
qed

lemma reloadLinkedDatasets_changeset:
  "changeset (fst st) \<le> changeset (fst (snd (reloadLinkedDatasets f ls st)))
   \<and> changeset (fst (snd (reloadLinkedDatasets f ls st)))
       \<le> changeset (fst st) + int (length (collect_links (fst st))) + 1
   \<and> (collect_links (fst st) \<noteq> [] \<and> \<not> isl (fst (reloadLinkedDatasets f ls st))
       \<longrightarrow> changeset (fst st) < changeset (fst (snd (reloadLinkedDatasets f ls st))))
   \<and> (collect_links (fst st) = [] \<longrightarrow> reloadLinkedDatasets f ls st = (Inr ([], []), st))"
proof (cases "collect_links (fst st) = []")
  case True
  then show ?thesis by (simp add: reloadLinkedDatasets_def)
next
  case False
  let ?r = "reload_loop f ls (collect_links (fst st)) [] [] st"
  obtain r st' where rl: "?r = (r, st')" by (cases ?r)
  from reload_loop_changeset [of st f ls "collect_links (fst st)" "[]" "[]"] rl
  have b: "changeset (fst st) \<le> changeset (fst st')"
    "changeset (fst st') \<le> changeset (fst st) + int (length (collect_links (fst st)))"
    by simp_all
  show ?thesis
  proof (cases r)
    case (Inl e)
    with False rl b show ?thesis by (simp add: reloadLinkedDatasets_def)
  next
    case (Inr p)
    with False rl b show ?thesis
      by (cases p; cases st') (simp add: reloadLinkedDatasets_def)
  qed
qed

lemma collect_fold:
  "distinct (map fst acc) \<Longrightarrow>
   distinct (map fst (fold (\<lambda>ds links. case get_linked ds of
                                  None \<Rightarrow> links
                                | Some l \<Rightarrow> AList.update l True links) dss acc))
   \<and> fst ` set (fold (\<lambda>ds links. case get_linked ds of
                                  None \<Rightarrow> links
                                | Some l \<Rightarrow> AList.update l True links) dss acc)
      = fst ` set acc \<union> {l. \<exists>ds \<in> set dss. get_linked ds = Some l}"
proof (induction dss arbitrary: acc)
  case Nil
  then show ?case by simp
next
  case (Cons ds dss)
  show ?case
  proof (cases "get_linked ds")
    case None
    with Cons.IH [OF Cons.prems] show ?thesis by auto
  next
    case (Some l)
    from Cons.prems have "distinct (map fst (AList.update l True acc))" by (rule distinct_update)
    from Cons.IH [OF this] Some show ?thesis by (auto simp: dom_update)
  qed
qed

lemma collect_links_distinct:
  "distinct (collect_links d)
   \<and> set (collect_links d) = {l. \<exists>nm ds. (nm, ds) \<in> set (data d) \<and> get_linked ds = Some l}"
  using collect_fold [of "[]" "map snd (data d)"]
  by (force simp: collect_links_def)

lemma reload_loop_each:
  "reload_loop f ls links read errors st = (Inr (read', errs'), st') \<Longrightarrow>
     snd (reload_each f ls links st) = st'
     \<and> length (fst (reload_each f ls links st)) = length links
     \<and> read' = read @ concat (map (\<lambda>r. list_extend [] (fst r)) (fst (reload_each f ls links st)))
     \<and> errs' = fold (\<lambda>r acc. dict_update acc (snd r)) (fst (reload_each f ls links st)) errors"
proof (induction links arbitrary: read errors st)
  case Nil
  then show ?case by simp
next
  case (Cons l links)
  obtain r st1 where rl: "reloadLinks f ls l st = (r, st1)" by (cases "reloadLinks f ls l st")
  show ?case
  proof (cases r)
    case (Inl e)
    with Cons.prems rl show ?thesis by simp
  next
    case (Inr p)
    obtain nread nerrors where p: "p = (nread, nerrors)" by (cases p)
    from Cons.prems rl Inr p
    have "reload_loop f ls links (list_extend read nread) (dict_update errors nerrors) st1
            = (Inr (read', errs'), st')" by simp
    from Cons.IH [OF this]
    have ih: "snd (reload_each f ls links st1) = st'"
      "length (fst (reload_each f ls links st1)) = length links"
      "read' = list_extend read nread
                 @ concat (map (\<lambda>r. list_extend [] (fst r)) (fst (reload_each f ls links st1)))"
      "errs' = fold (\<lambda>r acc. dict_update acc (snd r)) (fst (reload_each f ls links st1))
                 (dict_update errors nerrors)"
      by simp_all
    obtain rs s2 where re: "reload_each f ls links st1 = (rs, s2)"
      by (cases "reload_each f ls links st1")
    have ex: "list_extend read nread = read @ list_extend [] nread" by (cases nread) simp_all
    from ih re rl Inr p ex show ?thesis by simp
  qed
qed

lemmas ex_link_defs = ex_links_def ex_new_x_def ex_new_y_def ex_new_g_def ex_files_def
  ex_old_x_def ex_old_y_def ex_old_g_def ex_link_doc_def ex_grid_doc_def

text \<open>
  Reloading a \<^verbatim>\<open>LinkedFile\<close> or a \<^verbatim>\<open>Linked2DFile\<close> (the two classes that load the file into a
  scratch document, whose entries are \<open>its\<close>): the names returned as read are the names of
  the scratch document that are in the live document and linked there to this very link
  object; each of them now maps to the dataset of the scratch document (with its
  \<^verbatim>\<open>document\<close>, and for a grid its \<^verbatim>\<open>linked\<close>, set); every other name, also one that is in
  the scratch document but whose live dataset has another link or none, maps to the
  dataset it mapped to before, and no name is added or removed. If loading the file raises,
  the live document is left as it was. \<^verbatim>\<open>LinkedFITSFile.reloadLinks\<close> loads no scratch
  document and is not covered here.
\<close>

theorem reload_replaces_only_linked:
  "(ls self = LinkedFile fn desc ub \<and> load_simple f fn desc self w = (Inr (its, errs), w1)
      \<and> distinct (map fst its)
     \<longrightarrow> fst (reloadLinks f ls self (d, w))
           = Inr (PyList (filter (linked_to self d) (map fst its)), errs)
         \<and> (linked_to self d n \<and> map_of its n = Some ds
             \<longrightarrow> map_of (data (fst (snd (reloadLinks f ls self (d, w))))) n
                   = Some (set_document (Some (docid d)) ds))
         \<and> (\<not> (linked_to self d n \<and> n \<in> fst ` set its)
             \<longrightarrow> map_of (data (fst (snd (reloadLinks f ls self (d, w))))) n = map_of (data d) n)
         \<and> map fst (data (fst (snd (reloadLinks f ls self (d, w))))) = map fst (data d))
   \<and> (ls self = Linked2DFile fn dss xr yr ir ic tr
      \<and> load_2d f fn dss xr yr ir ic tr w = (Inr its, w1) \<and> distinct (map fst its)
     \<longrightarrow> map_sum id fst (fst (reloadLinks f ls self (d, w)))
           = Inr (PyList (filter (linked_to self d) (map fst its)))
         \<and> (linked_to self d n \<and> map_of its n = Some ds
             \<longrightarrow> map_of (data (fst (snd (reloadLinks f ls self (d, w))))) n
                   = Some (set_document (Some (docid d)) (set_linked (Some self) ds)))
         \<and> (\<not> (linked_to self d n \<and> n \<in> fst ` set its)
             \<longrightarrow> map_of (data (fst (snd (reloadLinks f ls self (d, w))))) n = map_of (data d) n)
         \<and> map fst (data (fst (snd (reloadLinks f ls self (d, w))))) = map fst (data d))
   \<and> (ls self = LinkedFile fn desc ub \<and> fst (load_simple f fn desc self w) = Inl e
     \<longrightarrow> fst (snd (reloadLinks f ls self (d, w))) = d)
   \<and> (ls self = Linked2DFile fn dss xr yr ir ic tr
      \<and> fst (load_2d f fn dss xr yr ir ic tr w) = Inl e
     \<longrightarrow> fst (snd (reloadLinks f ls self (d, w))) = d)"
proof (intro conjI impI)
  assume h: "ls self = LinkedFile fn desc ub \<and> load_simple f fn desc self w = (Inr (its, errs), w1)
      \<and> distinct (map fst its)"
  then have rl: "reloadLinks f ls self (d, w) =
     (Inr (PyList (fst (move_linked self its [] d)), errs),
      (setModified True (snd (move_linked self its [] d)), w1))"
    using reloadLinks_LinkedFile [of ls self fn desc ub f "(d, w)" its errs w1] by simp
  from h have dist: "distinct (map fst its)" by simp
  note res = move_linked_result [OF dist, of self "[]" d]
  show "fst (reloadLinks f ls self (d, w))
           = Inr (PyList (filter (linked_to self d) (map fst its)), errs)"
    using rl res by simp
  show "map fst (data (fst (snd (reloadLinks f ls self (d, w))))) = map fst (data d)"
    using rl move_linked_fields [of self its "[]" d] by (cases "move_linked self its [] d") simp
  {
    assume "linked_to self d n \<and> map_of its n = Some ds"
    then show "map_of (data (fst (snd (reloadLinks f ls self (d, w))))) n
                   = Some (set_document (Some (docid d)) ds)"
      using rl res [of n] by simp
  }
  {
    assume a: "\<not> (linked_to self d n \<and> n \<in> fst ` set its)"
    have "n \<notin> fst ` set its \<Longrightarrow> map_of its n = None" by (simp add: map_of_eq_None_iff)
    with a show "map_of (data (fst (snd (reloadLinks f ls self (d, w))))) n = map_of (data d) n"
      using rl res [of n] by auto
  }
next
  assume h: "ls self = Linked2DFile fn dss xr yr ir ic tr
      \<and> load_2d f fn dss xr yr ir ic tr w = (Inr its, w1) \<and> distinct (map fst its)"
  then have rl: "reloadLinks f ls self (d, w) =
     (Inr (PyList (fst (move_linked2d self its [] [] d)),
           fst (snd (move_linked2d self its [] [] d))),
      (setModified True (snd (snd (move_linked2d self its [] [] d))), w1))"
    using reloadLinks_Linked2DFile [of ls self fn dss xr yr ir ic tr f "(d, w)" its w1] by simp
  from h have dist: "distinct (map fst its)" by simp
  note res = move_linked2d_result [OF dist, of self "[]" "[]" d]
  show "map_sum id fst (fst (reloadLinks f ls self (d, w)))
           = Inr (PyList (filter (linked_to self d) (map fst its)))"
    using rl res by simp
  show "map fst (data (fst (snd (reloadLinks f ls self (d, w))))) = map fst (data d)"
    using rl move_linked2d_fields [of self its "[]" "[]" d]
    by (cases "move_linked2d self its [] [] d") simp
  {
    assume "linked_to self d n \<and> map_of its n = Some ds"
    then show "map_of (data (fst (snd (reloadLinks f ls self (d, w))))) n
                   = Some (set_document (Some (docid d)) (set_linked (Some self) ds))"
      using rl res [of n] by simp
  }
  {
    assume a: "\<not> (linked_to self d n \<and> n \<in> fst ` set its)"
    have "n \<notin> fst ` set its \<Longrightarrow> map_of its n = None" by (simp add: map_of_eq_None_iff)
    with a show "map_of (data (fst (snd (reloadLinks f ls self (d, w))))) n = map_of (data d) n"
      using rl res [of n] by auto
  }
next
  assume "ls self = LinkedFile fn desc ub \<and> fst (load_simple f fn desc self w) = Inl e"
  then show "fst (snd (reloadLinks f ls self (d, w))) = d"
    by (cases "load_simple f fn desc self w") (simp add: reloadLinks_def)
next
  assume "ls self = Linked2DFile fn dss xr yr ir ic tr
      \<and> fst (load_2d f fn dss xr yr ir ic tr w) = Inl e"
  then show "fst (snd (reloadLinks f ls self (d, w))) = d"
    by (cases "load_2d f fn dss xr yr ir ic tr w") (simp add: reloadLinks_def)
qed

text \<open>
  In \<open>ex_grid_doc\<close> the file of link 0 holds \<^verbatim>\<open>x\<close> and \<^verbatim>\<open>y\<close>: \<^verbatim>\<open>x\<close>, linked to 0, is
  replaced and \<^verbatim>\<open>y\<close>, a literal dataset of the same name as one in the file, is not.
  Reloading link 1 replaces the grid \<^verbatim>\<open>g\<close> and leaves \<^verbatim>\<open>x\<close>.
\<close>

theorem reload_replaces_only_linked_witness:
  "fst (reloadLinks ex_files ex_links 0 (ex_grid_doc, ex_world)) = Inr (PyList [''x''], [])
   \<and> map_of (data (fst (snd (reloadLinks ex_files ex_links 0 (ex_grid_doc, ex_world))))) ''x''
       = Some (set_document (Some 0) ex_new_x)
   \<and> map_of (data (fst (snd (reloadLinks ex_files ex_links 0 (ex_grid_doc, ex_world))))) ''y''
       = Some ex_old_y
   \<and> map_sum id fst (fst (reloadLinks ex_files ex_links 1 (ex_grid_doc, ex_world))) = Inr (PyList [''g''])
   \<and> map_of (data (fst (snd (reloadLinks ex_files ex_links 1 (ex_grid_doc, ex_world))))) ''g''
       = Some (set_document (Some 0) (set_linked (Some 1) ex_new_g))
   \<and> map_of (data (fst (snd (reloadLinks ex_files ex_links 1 (ex_grid_doc, ex_world))))) ''x''
       = Some ex_old_x"
proof -
  have l0: "ex_links 0 = LinkedFile ''data.txt'' ''x y'' False" by (simp add: ex_links_def)
  have l1: "ex_links 1 = Linked2DFile ''img.txt'' [''g''] None None None None None"
    by (simp add: ex_links_def)
  have ld0: "load_simple ex_files ''data.txt'' ''x y'' 0 ex_world
               = (Inr ([(''x'', ex_new_x), (''y'', ex_new_y)], []), ex_world)"
    by (simp add: ex_files_def)
  have ld1: "load_2d ex_files ''img.txt'' [''g''] None None None None None ex_world
               = (Inr [(''g'', ex_new_g)], ex_world)"
    by (simp add: ex_files_def)
  have lt: "linked_to 0 ex_grid_doc ''x''" "\<not> linked_to 0 ex_grid_doc ''y''"
    "linked_to 1 ex_grid_doc ''g''" "\<not> linked_to 1 ex_grid_doc ''x''"
    by (simp_all add: linked_to_def ex_grid_doc_def ex_old_x_def ex_old_y_def ex_old_g_def)
  have dd: "docid ex_grid_doc = 0"
    "map_of (data ex_grid_doc) ''y'' = Some ex_old_y"
    "map_of (data ex_grid_doc) ''x'' = Some ex_old_x"
    by (simp_all add: ex_grid_doc_def)
  note a = reload_replaces_only_linked
    [where ls = ex_links and self = 0 and fn = "''data.txt''" and desc = "''x y''" and ub = False
       and f = ex_files and w = ex_world and its = "[(''x'', ex_new_x), (''y'', ex_new_y)]"
       and errs = "[]" and ?w1.0 = ex_world and d = ex_grid_doc and n = "''x''" and ds = ex_new_x]
  note b = reload_replaces_only_linked
    [where ls = ex_links and self = 0 and fn = "''data.txt''" and desc = "''x y''" and ub = False
       and f = ex_files and w = ex_world and its = "[(''x'', ex_new_x), (''y'', ex_new_y)]"
       and errs = "[]" and ?w1.0 = ex_world and d = ex_grid_doc and n = "''y''" and ds = ex_new_y]
  note c = reload_replaces_only_linked
    [where ls = ex_links and self = 1 and fn = "''img.txt''" and dss = "[''g'']"
       and xr = None and yr = None and ir = None and ic = None and tr = None
       and f = ex_files and w = ex_world and its = "[(''g'', ex_new_g)]"
       and ?w1.0 = ex_world and d = ex_grid_doc and n = "''g''" and ds = ex_new_g]
  note e = reload_replaces_only_linked
    [where ls = ex_links and self = 1 and fn = "''img.txt''" and dss = "[''g'']"
       and xr = None and yr = None and ir = None and ic = None and tr = None
       and f = ex_files and w = ex_world and its = "[(''g'', ex_new_g)]"
       and ?w1.0 = ex_world and d = ex_grid_doc and n = "''x''" and ds = ex_new_g]
  show ?thesis
    using a b c e l0 l1 ld0 ld1 lt dd by simp
qed

text \<open>
  Claim C3 fails for a \<^verbatim>\<open>LinkedFITSFile\<close>, whose \<^verbatim>\<open>reloadLinks\<close> calls \<^verbatim>\<open>importFITS\<close> on the live
  document and so stores the dataset read under \<^verbatim>\<open>dsname\<close> without the test
  \<^verbatim>\<open>document.data[name].linked == self\<close> of the other two classes. \<open>ex_fits_doc\<close> is reached
  from the empty document by \<^verbatim>\<open>importFITS('ab', 'img.fits', '1', datacol='flux', linked=True)\<close>,
  \<^verbatim>\<open>renameDataset('ab', 'zz')\<close> and \<^verbatim>\<open>setData('ab', ds)\<close> with a literal dataset \<^verbatim>\<open>ds\<close>: the
  dataset \<^verbatim>\<open>zz\<close> holds the link, \<^verbatim>\<open>ab\<close> is the literal dataset and has no link. Reloading
  the link, directly or through \<^verbatim>\<open>reloadLinkedDatasets\<close>, replaces \<^verbatim>\<open>ab\<close>, whose data was
  the array at 0, by the dataset read from the file, whose data is the array at 1.
\<close>

theorem fits_reload_overwrites_unlinked:
  "setData ''ab'' ex_user_ab
      (snd (renameDataset ''ab'' ''zz''
        (fst (snd (importFITS ex_fits_files ''ab'' ''img.fits'' ''1'' (Some ''flux'') None None None
                     (Some 0) (ex_doc, ex_world))))))
     = ex_fits_doc
   \<and> ex_fits_links 0 = LinkedFITSFile ''ab'' ''img.fits'' ''1'' [Some ''flux'', None, None, None]
   \<and> collect_links ex_fits_doc = [0]
   \<and> map_of (data ex_fits_doc) ''ab''
       = Some (Dataset \<lparr>document = Some 0, linked = None,
                        ds_data = Some 0, serr = None, nerr = None, perr = None\<rparr>)
   \<and> linked_to 0 ex_fits_doc ''ab'' = False
   \<and> map_of (data (fst (snd (reloadLinks ex_fits_files ex_fits_links 0 (ex_fits_doc, ex_world))))) ''ab''
       = Some (Dataset \<lparr>document = Some 0, linked = None,
                        ds_data = Some 1, serr = None, nerr = None, perr = None\<rparr>)
   \<and> map_of (data (fst (snd (reloadLinkedDatasets ex_fits_files ex_fits_links
                               (ex_fits_doc, ex_world))))) ''ab''
       = Some (Dataset \<lparr>document = Some 0, linked = None,
                        ds_data = Some 1, serr = None, nerr = None, perr = None\<rparr>)"
  by (simp add: reloadLinkedDatasets_def reloadLinks_def importFITS_def setData_def
        renameDataset_def setModified_def collect_links_def linked_to_def dict_update_def
        ex_fits_files_def ex_fits_links_def ex_fits_doc_def ex_user_ab_def ex_doc_def)

text \<open>
  Claim C6, as stated, fails where it says the changeset is bumped exactly once: in
  \<open>ex_link_doc\<close> one link is reloaded, and the counter goes from 3 to 5, once in
  \<^verbatim>\<open>LinkedFile.reloadLinks\<close> and once at the end of \<^verbatim>\<open>reloadLinkedDatasets\<close>.
\<close>

theorem reload_bumps_changeset_twice:
  "collect_links ex_link_doc = [0]
   \<and> fst (reloadLinkedDatasets ex_files ex_links (ex_link_doc, ex_world)) = Inr ([''x''], [])
   \<and> changeset ex_link_doc = 3
   \<and> changeset (fst (snd (reloadLinkedDatasets ex_files ex_links (ex_link_doc, ex_world)))) = 5"
  by (simp add: reloadLinkedDatasets_def reloadLinks_def collect_links_def ex_link_defs
        setModified_def dict_update_def)

lemma reloadLinks_list:
  assumes "\<not> is_fits (ls l)" and "reloadLinks f ls l st = (Inr (nread, nerrs), st')"
  shows "\<exists>ys. nread = PyList ys"
proof (cases "ls l")
  case (LinkedFile fn desc ub)
  with assms(2) show ?thesis
    by (auto simp: reloadLinks_def split: prod.splits sum.splits)
next
  case (Linked2DFile fn dss xr yr ir ic tr)
  with assms(2) show ?thesis
    by (auto simp: reloadLinks_def split: prod.splits sum.splits if_splits)
next
  case (LinkedFITSFile dsname fn hdu cols)
  with assms(1) show ?thesis by (simp add: is_fits_def)
qed

lemma reload_each_lists:
  assumes "\<forall>l \<in> set links. \<not> is_fits (ls l)"
  shows "\<exists>nss. map fst (fst (reload_each f ls links st)) = map PyList nss"
  using assms
proof (induction links arbitrary: st)
  case Nil
  show ?case by simp
next
  case (Cons l links)
  obtain r st1 where rl: "reloadLinks f ls l st = (r, st1)" by (cases "reloadLinks f ls l st")
  show ?case
  proof (cases r)
    case (Inl e)
    with rl show ?thesis by simp
  next
    case (Inr p)
    obtain nread nerrs where p: "p = (nread, nerrs)" by (cases p)
    from Cons.prems have nf: "\<not> is_fits (ls l)" and rest: "\<forall>l \<in> set links. \<not> is_fits (ls l)"
      by simp_all
    from rl Inr p have "reloadLinks f ls l st = (Inr (nread, nerrs), st1)" by simp
    with nf have "\<exists>ys. nread = PyList ys" by (rule reloadLinks_list)
    then obtain ys where ys: "nread = PyList ys" by blast
    from Cons.IH [OF rest, of st1] obtain nss
      where nss: "map fst (fst (reload_each f ls links st1)) = map PyList nss" by blast
    obtain rs s2 where re: "reload_each f ls links st1 = (rs, s2)"
      by (cases "reload_each f ls links st1")
    from nss re rl Inr p ys
    have "map fst (fst (reload_each f ls (l # links) st)) = map PyList (ys # nss)" by simp
    then show ?thesis by blast
  qed
qed

lemma concat_lists:
  "map fst rs = map PyList nss \<Longrightarrow> concat (map (\<lambda>r. list_extend [] (fst r)) rs) = concat nss"
proof (induction rs arbitrary: nss)
  case Nil
  then show ?case by simp
next
  case (Cons r rs)
  then obtain ys rest where l: "nss = ys # rest" "fst r = PyList ys" "map fst rs = map PyList rest"
    by (cases nss) auto
  with Cons.IH [of rest] show ?case by simp
qed

text \<open>
  Claim C6, amended. \<^verbatim>\<open>reloadLinkedDatasets\<close> reloads the link objects of \<open>collect_links\<close>,
  which holds each link object some dataset refers to exactly once. With no link it
  returns two empty results and changes nothing. When it returns with links, there is
  one \<^verbatim>\<open>reloadLinks\<close> result for each link; the error map is the results' error maps
  merged in that order; if no link is a \<^verbatim>\<open>LinkedFITSFile\<close>, every result holds a list of
  names and the names returned are these lists concatenated and sorted; and the
  changeset has been bumped by the reloads and once more at the end, so it has grown by
  at least one and at most the number of links plus one.
\<close>

theorem reloadLinkedDatasets_result:
  "distinct (collect_links d)
   \<and> set (collect_links d) = {l. \<exists>nm ds. (nm, ds) \<in> set (data d) \<and> get_linked ds = Some l}
   \<and> (collect_links d = [] \<longrightarrow> reloadLinkedDatasets f ls (d, w) = (Inr ([], []), (d, w)))
   \<and> (reloadLinkedDatasets f ls (d, w) = (Inr (read, errs), (d', w')) \<longrightarrow>
        sorted read
        \<and> length (fst (reload_each f ls (collect_links d) (d, w))) = length (collect_links d)
        \<and> errs = fold (\<lambda>r acc. dict_update acc (snd r))
                    (fst (reload_each f ls (collect_links d) (d, w))) []
        \<and> ((\<forall>l \<in> set (collect_links d). \<not> is_fits (ls l)) \<longrightarrow>
             (\<exists>nss. map fst (fst (reload_each f ls (collect_links d) (d, w))) = map PyList nss
                      \<and> read = sort (concat nss)))
        \<and> (collect_links d \<noteq> [] \<longrightarrow>
             (d', w') = (setModified True (fst (snd (reload_each f ls (collect_links d) (d, w)))),
                         snd (snd (reload_each f ls (collect_links d) (d, w))))
             \<and> changeset d < changeset d'
             \<and> changeset d' \<le> changeset d + int (length (collect_links d)) + 1))"
proof (intro conjI impI)
  show "distinct (collect_links d)" using collect_links_distinct [of d] by simp
  show "set (collect_links d) = {l. \<exists>nm ds. (nm, ds) \<in> set (data d) \<and> get_linked ds = Some l}"
    using collect_links_distinct [of d] by simp
  show "collect_links d = [] \<Longrightarrow> reloadLinkedDatasets f ls (d, w) = (Inr ([], []), (d, w))"
    using reloadLinkedDatasets_changeset [of "(d, w)" f ls] by simp
next
  assume r: "reloadLinkedDatasets f ls (d, w) = (Inr (read, errs), (d', w'))"
  let ?links = "collect_links d"
  let ?rs = "fst (reload_each f ls ?links (d, w))"
  have loop: "\<exists>read0 st0. reload_loop f ls ?links [] [] (d, w) = (Inr (read0, errs), st0)
                \<and> read = sort read0 \<and> (?links \<noteq> [] \<longrightarrow> (d', w') = (setModified True (fst st0), snd st0))"
  proof (cases "?links = []")
    case True
    with r show ?thesis by (simp add: reloadLinkedDatasets_def)
  next
    case False
    obtain q st0 where q: "reload_loop f ls ?links [] [] (d, w) = (q, st0)"
      by (cases "reload_loop f ls ?links [] [] (d, w)")
    with r False show ?thesis
      by (cases q; cases st0) (auto simp: reloadLinkedDatasets_def)
  qed
  then obtain read0 st0 where l0: "reload_loop f ls ?links [] [] (d, w) = (Inr (read0, errs), st0)"
    and rd: "read = sort read0"
    and fin: "?links \<noteq> [] \<longrightarrow> (d', w') = (setModified True (fst st0), snd st0)" by blast
  from reload_loop_each [OF l0]
  have each: "snd (reload_each f ls ?links (d, w)) = st0" "length ?rs = length ?links"
    "read0 = concat (map (\<lambda>r. list_extend [] (fst r)) ?rs)"
    "errs = fold (\<lambda>r acc. dict_update acc (snd r)) ?rs []"
    by simp_all
  show "sorted read" using rd by simp
  show "length ?rs = length ?links" by (rule each(2))
  show "errs = fold (\<lambda>r acc. dict_update acc (snd r)) ?rs []" by (rule each(4))
  {
    assume "\<forall>l \<in> set ?links. \<not> is_fits (ls l)"
    from reload_each_lists [OF this, of f "(d, w)"] obtain nss
      where nss: "map fst ?rs = map PyList nss" by blast
    from concat_lists [OF nss] each(3) rd have "read = sort (concat nss)" by simp
    with nss show "\<exists>nss. map fst ?rs = map PyList nss \<and> read = sort (concat nss)" by blast
  }
  {
    assume ne: "?links \<noteq> []"
    with fin each(1)
    show "(d', w') = (setModified True (fst (snd (reload_each f ls ?links (d, w)))),
                         snd (snd (reload_each f ls ?links (d, w))))" by simp
    from reloadLinkedDatasets_changeset [of "(d, w)" f ls] r ne
    show "changeset d < changeset d'" by simp
    from reloadLinkedDatasets_changeset [of "(d, w)" f ls] r
    show "changeset d' \<le> changeset d + int (length ?links) + 1" by simp
  }
qed

lemma ex_sort: "sort [''x'', ''g''] = [''g'', ''x'']"
  by (simp add: less_eq_char_def less_char_def)

lemma ex_collect: "collect_links ex_grid_doc = [0, 1]"
  by (simp add: collect_links_def ex_link_defs)

lemma ex_reload0: "reloadLinks ex_files ex_links 0 (ex_grid_doc, ex_world)
    = (Inr (PyList [''x''], []), (ex_grid_doc1, ex_world))"
  by (simp add: reloadLinks_def ex_links_def ex_files_def ex_grid_doc_def setModified_def
        ex_old_x_def ex_old_y_def ex_old_g_def ex_grid_doc1_def)

lemma ex_reload1: "reloadLinks ex_files ex_links 1 (ex_grid_doc1, ex_world)
    = (Inr (PyList [''g''], [(''g'', 0)]), (ex_grid_doc2, ex_world))"
  by (simp add: reloadLinks_def ex_links_def ex_files_def ex_grid_doc1_def setModified_def
        ex_new_x_def ex_old_y_def ex_old_g_def ex_grid_doc2_def)

lemma ex_each: "reload_each ex_files ex_links [0, 1] (ex_grid_doc, ex_world)
    = ([(PyList [''x''], []), (PyList [''g''], [(''g'', 0)])], (ex_grid_doc2, ex_world))"
  by (simp add: ex_reload0 ex_reload1 [unfolded One_nat_def])

lemma ex_run: "reloadLinkedDatasets ex_files ex_links (ex_grid_doc, ex_world)
    = (Inr ([''g'', ''x''], [(''g'', 0)]), (setModified True ex_grid_doc2, ex_world))"
  by (simp add: reloadLinkedDatasets_def ex_collect ex_reload0 ex_reload1 [unfolded One_nat_def] ex_sort dict_update_def)

text \<open>
  \<open>ex_grid_doc\<close> has the two links 0 and 1: the names read are \<^verbatim>\<open>g\<close> and \<^verbatim>\<open>x\<close> and the
  counter goes from 3 to 6. \<open>ex_doc\<close> has no link and is left as it is.
\<close>

theorem reloadLinkedDatasets_result_witness:
  "collect_links ex_grid_doc = [0, 1]
   \<and> distinct (collect_links ex_grid_doc)
   \<and> reloadLinkedDatasets ex_files ex_links (ex_grid_doc, ex_world)
       = (Inr ([''g'', ''x''], [(''g'', 0)]), (setModified True ex_grid_doc2, ex_world))
   \<and> sorted [''g'', ''x'']
   \<and> map fst (fst (reload_each ex_files ex_links [0, 1] (ex_grid_doc, ex_world)))
       = map PyList [[''x''], [''g'']]
   \<and> changeset ex_grid_doc = 3
   \<and> changeset (setModified True ex_grid_doc2) = 6
   \<and> collect_links ex_doc = []
   \<and> reloadLinkedDatasets ex_files ex_links (ex_doc, ex_world) = (Inr ([], []), (ex_doc, ex_world))"
proof -
  have cl0: "collect_links ex_doc = []"
    by (simp add: collect_links_def ex_doc_def)
  have cs: "changeset ex_grid_doc = 3" "changeset (setModified True ex_grid_doc2) = 6"
    by (simp_all add: ex_grid_doc_def ex_grid_doc2_def setModified_def)
  note t = reloadLinkedDatasets_result
    [where d = ex_grid_doc and f = ex_files and ls = ex_links and w = ex_world
       and read = "[''g'', ''x'']" and errs = "[(''g'', 0)]"
       and d' = "setModified True ex_grid_doc2" and w' = ex_world]
  note t0 = reloadLinkedDatasets_result
    [where d = ex_doc and f = ex_files and ls = ex_links and w = ex_world]
  from t ex_run have a: "distinct (collect_links ex_grid_doc)" "sorted [''g'', ''x'']" by blast+
  from t0 cl0 have b: "reloadLinkedDatasets ex_files ex_links (ex_doc, ex_world)
      = (Inr ([], []), (ex_doc, ex_world))" by blast
  show ?thesis using ex_collect cl0 a b ex_run ex_each cs by simp
qed

section \<open>Properties of expression datasets\<close>

lemmas rd_defs = read_part_def getattr_part_def propValues_body_def updateValues_def
  upd_expr_def set_evaluated_def eval_part_def env_dataset_def andthen_def

text \<open>
  The document \<open>ex_expr_doc\<close> holds the literal dataset \<^verbatim>\<open>temp\<close> and the expression dataset
  \<^verbatim>\<open>tempC\<close> with the expression \<^verbatim>\<open>temp\<close> for its data. \<open>evlog\<close> records every expression
  that is handed to \<^verbatim>\<open>eval\<close>.
\<close>

lemma ex_first_read:
  "read_part ex_ext 2 ''tempC'' PData (ex_expr_doc, ex_world)
     = (Inr (Some 0), (ex_expr_doc1, ex_world\<lparr>evlog := [''temp'']\<rparr>))"
  by (simp add: rd_defs numeral_2_eq_2 ex_ext_def ex_temp_def ex_tempC_def ex_expr_doc_def
        ex_world_def ex_cells_def ex_tempC1_def ex_expr_doc1_def)

lemma ex_second_read:
  "read_part ex_ext 2 ''tempC'' PData (ex_expr_doc1, ex_world\<lparr>evlog := [''temp'']\<rparr>)
     = (Inr (Some 0), (ex_expr_doc1, ex_world\<lparr>evlog := [''temp'', ''temp'']\<rparr>))"
  by (simp add: rd_defs numeral_2_eq_2 ex_ext_def ex_temp_def ex_expr_doc_def
        ex_world_def ex_cells_def ex_tempC1_def ex_expr_doc1_def)

text \<open>
  Claim C1. Reading \<^verbatim>\<open>tempC.data\<close> twice, with no change to the document in between (the
  change counter is 3 before and after), evaluates the expression twice: \<^verbatim>\<open>_propValues\<close>
  compares \<^verbatim>\<open>document.changeset\<close> with \<^verbatim>\<open>self.docchangeset\<close> but stores the counter in
  \<^verbatim>\<open>self.changeset\<close>, so \<^verbatim>\<open>docchangeset\<close> stays \<^verbatim>\<open>None\<close> and every read calls
  \<^verbatim>\<open>updateValues\<close>.
\<close>

theorem expression_reread_evaluates_again:
  "read_part ex_ext 2 ''tempC'' PData (ex_expr_doc, ex_world)
     = (Inr (Some 0), (ex_expr_doc1, ex_world\<lparr>evlog := [''temp'']\<rparr>))
   \<and> changeset ex_expr_doc1 = changeset ex_expr_doc
   \<and> read_part ex_ext 2 ''tempC'' PData (ex_expr_doc1, ex_world\<lparr>evlog := [''temp'']\<rparr>)
     = (Inr (Some 0), (ex_expr_doc1, ex_world\<lparr>evlog := [''temp'', ''temp'']\<rparr>))"
  using ex_first_read ex_second_read by (simp add: ex_expr_doc_def ex_expr_doc1_def)

section \<open>Properties of two-dimensional datasets\<close>

text \<open>
  Claim C8. The array at 2 in \<open>ex_world\<close> has shape \<^verbatim>\<open>(2, 3)\<close>: two rows of three columns.
  \<^verbatim>\<open>Dataset2D(data)\<close> with no ranges stores the x-range \<^verbatim>\<open>(0, 2)\<close>, the number of rows, and
  the y-range \<^verbatim>\<open>(0, 3)\<close>, the number of columns.
\<close>

theorem grid_default_ranges_swapped:
  "shape (cells ex_world 2) = Inr [2, 3]
   \<and> fst (Dataset2D_init (Some 2) None None ex_world)
       = Inr \<lparr>document = None, linked = None, data2d = Some 3,
              xrange = Some (0, 2), yrange = Some (0, 3)\<rparr>"
  by (simp add: Dataset2D_init_def cnvt_numarray_def alloc_def shape_at_def ex_world_def ex_cells_def)

section \<open>Properties of literal datasets\<close>

text \<open>
  Claim C5. \<^verbatim>\<open>duplicateDataset(name, newname)\<close> on a document in which \<^verbatim>\<open>newname\<close> is the name
  of a dataset raises \<^verbatim>\<open>ValueError\<close> with the message \<^verbatim>\<open>Dataset <newname> already exists\<close> and
  leaves the document and the store as they were, so every dataset keeps its value.
\<close>

theorem duplicate_to_existing_name_fails:
  "map_of (data d) newname = Some old \<longrightarrow>
     duplicateDataset x fuel nm newname (d, w)
       = (Inl (ValueError (''Dataset '' @ newname @ '' already exists'')), (d, w))"
  by (simp add: duplicateDataset_def has_key_def)

text \<open>
  In \<open>ex_expr_doc\<close>, duplicating \<^verbatim>\<open>temp\<close> to the existing name \<^verbatim>\<open>tempC\<close> fails and both
  are as before.
\<close>

theorem duplicate_to_existing_name_fails_witness:
  "map_of (data ex_expr_doc) ''tempC'' = Some ex_tempC
   \<and> duplicateDataset ex_ext 2 ''temp'' ''tempC'' (ex_expr_doc, ex_world)
       = (Inl (ValueError ''Dataset tempC already exists''), (ex_expr_doc, ex_world))
   \<and> map_of (data (fst (snd (duplicateDataset ex_ext 2 ''temp'' ''tempC'' (ex_expr_doc, ex_world)))))
        ''temp'' = Some ex_temp"
proof -
  have m: "map_of (data ex_expr_doc) ''tempC'' = Some ex_tempC"
    "map_of (data ex_expr_doc) ''temp'' = Some ex_temp"
    by (simp_all add: ex_expr_doc_def)
  from duplicate_to_existing_name_fails
    [where d = ex_expr_doc and newname = "''tempC''" and old = ex_tempC and x = ex_ext
       and fuel = 2 and nm = "''temp''" and w = ex_world] m
  show ?thesis by simp
qed

lemma check_shapes_None:
  "(check_shapes w s vs = None)
     = list_all (\<lambda>i. case i of None \<Rightarrow> True | Some j \<Rightarrow> shape (cells w j) = Inr s) vs"
proof (induction vs)
  case Nil
  show ?case by simp
next
  case (Cons v vs)
  then show ?case by (cases v) (auto split: sum.splits)
qed

lemma changeValues_bad_type:
  "map_of (data d) nm = Some (Dataset r) \<Longrightarrow> \<not> allowed_type tp \<Longrightarrow>
     changeValues nm tp vals (d, w) = (Inl (ValueError ''type does not contain an allowed value''), (d, w))"
  by (simp add: changeValues_def)

lemma changeValues_ok:
  assumes "map_of (data d) nm = Some (Dataset r)" and "allowed_type tp"
    and "shapes_match w (assign_part tp vals r)" and "document r \<noteq> None"
  shows "changeValues nm tp vals (d, w) =
     (Inr (), (setModified True
        (d\<lparr>data := AList.update nm (Dataset (assign_part tp vals r)) (data d)\<rparr>), w))"
proof -
  have doc: "document (assign_part tp vals r) = document r"
    by (simp add: assign_part_def)
  from assms(3) obtain a sh where a: "ds_data (assign_part tp vals r) = Some a"
    and sh: "shape (cells w a) = Inr sh"
    and al: "list_all (\<lambda>i. case i of None \<Rightarrow> True | Some j \<Rightarrow> shape (cells w j) = Inr sh)
           [serr (assign_part tp vals r), nerr (assign_part tp vals r), perr (assign_part tp vals r)]"
    by (auto simp: shapes_match_def split: option.splits sum.splits)
  from al have cs: "check_shapes w sh [serr (assign_part tp vals r), nerr (assign_part tp vals r),
                 perr (assign_part tp vals r)] = None"
    by (simp only: check_shapes_None)
  from assms(4) obtain i where i: "document r = Some i" by auto
  show ?thesis
    using assms(1,2) doc a sh cs i by (simp add: changeValues_def Let_def)
qed

lemma changeValues_fail:
  assumes "map_of (data d) nm = Some (Dataset r)" and "allowed_type tp"
    and "\<not> (shapes_match w (assign_part tp vals r) \<and> document r \<noteq> None)"
  shows "isl (fst (changeValues nm tp vals (d, w)))
     \<and> snd (changeValues nm tp vals (d, w))
         = (d\<lparr>data := AList.update nm (Dataset (assign_part tp vals r)) (data d)\<rparr>, w)"
proof -
  have doc: "document (assign_part tp vals r) = document r"
    by (simp add: assign_part_def)
  have cs: "\<And>s. (check_shapes w s [serr (assign_part tp vals r), nerr (assign_part tp vals r),
                 perr (assign_part tp vals r)] = None)
       = list_all (\<lambda>i. case i of None \<Rightarrow> True | Some j \<Rightarrow> shape (cells w j) = Inr s)
           [serr (assign_part tp vals r), nerr (assign_part tp vals r), perr (assign_part tp vals r)]"
    by (rule check_shapes_None)
  show ?thesis
  proof (cases "ds_data (assign_part tp vals r)")
    case None
    with assms show ?thesis by (simp add: changeValues_def Let_def)
  next
    case (Some a)
    show ?thesis
    proof (cases "shape (cells w a)")
      case (Inl e)
      with Some assms show ?thesis by (simp add: changeValues_def Let_def)
    next
      case (Inr sh)
      show ?thesis
      proof (cases "check_shapes w sh [serr (assign_part tp vals r), nerr (assign_part tp vals r),
                 perr (assign_part tp vals r)]")
        case (Some er)
        with \<open>ds_data (assign_part tp vals r) = Some a\<close> Inr assms show ?thesis
          by (simp add: changeValues_def Let_def)
      next
        case None
        with cs [of sh] \<open>ds_data (assign_part tp vals r) = Some a\<close> Inr
        have "shapes_match w (assign_part tp vals r)" by (simp add: shapes_match_def)
        with assms(3) have "document r = None" by simp
        with None \<open>ds_data (assign_part tp vals r) = Some a\<close> Inr assms(1,2) doc show ?thesis
          by (simp add: changeValues_def Let_def)
      qed
    qed
  qed
qed

text \<open>
  Claim C2, amended. The types \<^verbatim>\<open>changeValues(type, vals)\<close> takes are \<^verbatim>\<open>vals\<close>, \<^verbatim>\<open>serr\<close>,
  \<^verbatim>\<open>nerr\<close> and \<^verbatim>\<open>perr\<close> (the values go under \<^verbatim>\<open>vals\<close>; \<^verbatim>\<open>data\<close> is not among them). For a
  literal dataset, a call with any other type raises \<^verbatim>\<open>ValueError\<close> and changes nothing.
  When the call returns, the dataset holds the new sequence, every error sequence that is
  present has the shape of the values, the change counter went up by one and the document is
  marked modified. When the call fails, the change counter and the modified flag are as
  before; with one of the four types the new sequence has been stored all the same.
\<close>

theorem changeValues_outcomes:
  "(allowed_type tp \<longleftrightarrow> tp \<in> set [''vals'', ''serr'', ''nerr'', ''perr''])
   \<and> (map_of (data d) nm = Some (Dataset r) \<longrightarrow>
     (\<not> allowed_type tp \<longrightarrow>
        changeValues nm tp vals (d, w)
          = (Inl (ValueError ''type does not contain an allowed value''), (d, w)))
   \<and> (fst (changeValues nm tp vals (d, w)) = Inr () \<longrightarrow>
        map_of (data (fst (snd (changeValues nm tp vals (d, w))))) nm
          = Some (Dataset (assign_part tp vals r))
        \<and> shapes_match w (assign_part tp vals r)
        \<and> changeset (fst (snd (changeValues nm tp vals (d, w)))) = changeset d + 1
        \<and> modified (fst (snd (changeValues nm tp vals (d, w)))))
   \<and> (isl (fst (changeValues nm tp vals (d, w))) \<longrightarrow>
        changeset (fst (snd (changeValues nm tp vals (d, w)))) = changeset d
        \<and> modified (fst (snd (changeValues nm tp vals (d, w)))) = modified d)
   \<and> (isl (fst (changeValues nm tp vals (d, w))) \<and> allowed_type tp \<longrightarrow>
        map_of (data (fst (snd (changeValues nm tp vals (d, w))))) nm
          = Some (Dataset (assign_part tp vals r))))"
proof (rule conjI)
  show "allowed_type tp \<longleftrightarrow> tp \<in> set [''vals'', ''serr'', ''nerr'', ''perr'']"
    by (auto simp: allowed_type_def)
  show "map_of (data d) nm = Some (Dataset r) \<longrightarrow>
     (\<not> allowed_type tp \<longrightarrow>
        changeValues nm tp vals (d, w)
          = (Inl (ValueError ''type does not contain an allowed value''), (d, w)))
   \<and> (fst (changeValues nm tp vals (d, w)) = Inr () \<longrightarrow>
        map_of (data (fst (snd (changeValues nm tp vals (d, w))))) nm
          = Some (Dataset (assign_part tp vals r))
        \<and> shapes_match w (assign_part tp vals r)
        \<and> changeset (fst (snd (changeValues nm tp vals (d, w)))) = changeset d + 1
        \<and> modified (fst (snd (changeValues nm tp vals (d, w)))))
   \<and> (isl (fst (changeValues nm tp vals (d, w))) \<longrightarrow>
        changeset (fst (snd (changeValues nm tp vals (d, w)))) = changeset d
        \<and> modified (fst (snd (changeValues nm tp vals (d, w)))) = modified d)
   \<and> (isl (fst (changeValues nm tp vals (d, w))) \<and> allowed_type tp \<longrightarrow>
        map_of (data (fst (snd (changeValues nm tp vals (d, w))))) nm
          = Some (Dataset (assign_part tp vals r)))"
  proof (intro impI)
    assume m: "map_of (data d) nm = Some (Dataset r)"
    show "(\<not> allowed_type tp \<longrightarrow>
        changeValues nm tp vals (d, w)
          = (Inl (ValueError ''type does not contain an allowed value''), (d, w)))
     \<and> (fst (changeValues nm tp vals (d, w)) = Inr () \<longrightarrow>
        map_of (data (fst (snd (changeValues nm tp vals (d, w))))) nm
          = Some (Dataset (assign_part tp vals r))
        \<and> shapes_match w (assign_part tp vals r)
        \<and> changeset (fst (snd (changeValues nm tp vals (d, w)))) = changeset d + 1
        \<and> modified (fst (snd (changeValues nm tp vals (d, w)))))
     \<and> (isl (fst (changeValues nm tp vals (d, w))) \<longrightarrow>
        changeset (fst (snd (changeValues nm tp vals (d, w)))) = changeset d
        \<and> modified (fst (snd (changeValues nm tp vals (d, w)))) = modified d)
     \<and> (isl (fst (changeValues nm tp vals (d, w))) \<and> allowed_type tp \<longrightarrow>
        map_of (data (fst (snd (changeValues nm tp vals (d, w))))) nm
          = Some (Dataset (assign_part tp vals r)))"
    proof (cases "allowed_type tp")
      case False
      with changeValues_bad_type [OF m False, of vals w] show ?thesis by simp
    next
      case True
      show ?thesis
      proof (cases "shapes_match w (assign_part tp vals r) \<and> document r \<noteq> None")
        case ok: True
        then have "changeValues nm tp vals (d, w) =
          (Inr (), (setModified True (d\<lparr>data := AList.update nm (Dataset (assign_part tp vals r)) (data d)\<rparr>), w))"
          using changeValues_ok [OF m True, of w vals] by simp
        with ok True show ?thesis by (simp add: setModified_def update_conv')
      next
        case bad: False
        from changeValues_fail [OF m True bad]
        have e: "isl (fst (changeValues nm tp vals (d, w)))"
          and s: "snd (changeValues nm tp vals (d, w))
                    = (d\<lparr>data := AList.update nm (Dataset (assign_part tp vals r)) (data d)\<rparr>, w)"
          by simp_all
        from e have ne: "fst (changeValues nm tp vals (d, w)) \<noteq> Inr ()" by auto
        from e s ne True show ?thesis by (simp add: update_conv')
      qed
    qed
  qed
qed

text \<open>
  Claim C2, as stated, fails where it says that a failing call has changed none of the stored
  sequences: \<^verbatim>\<open>changeValues\<close> assigns first and asserts afterwards. In \<open>ex_expr_doc\<close> the
  dataset \<^verbatim>\<open>temp\<close> has three values and no errors; setting \<^verbatim>\<open>serr\<close> to the array at 1, of two
  elements, fails with \<^verbatim>\<open>AssertionError\<close> and leaves that array as the \<^verbatim>\<open>serr\<close> of \<^verbatim>\<open>temp\<close>.
\<close>

theorem changeValues_fails_after_storing:
  "fst (changeValues ''temp'' ''serr'' (Some 1) (ex_expr_doc, ex_world)) = Inl AssertionError
   \<and> map_of (data ex_expr_doc) ''temp''
       = Some (Dataset \<lparr>document = Some 0, linked = None,
                        ds_data = Some 0, serr = None, nerr = None, perr = None\<rparr>)
   \<and> map_of (data (fst (snd (changeValues ''temp'' ''serr'' (Some 1) (ex_expr_doc, ex_world))))) ''temp''
       = Some (Dataset \<lparr>document = Some 0, linked = None,
                        ds_data = Some 0, serr = Some 1, nerr = None, perr = None\<rparr>)"
  by (simp add: changeValues_def allowed_type_def assign_part_def ex_expr_doc_def ex_temp_def
        ex_world_def ex_cells_def)

text \<open>
  On \<^verbatim>\<open>temp\<close> in \<open>ex_expr_doc\<close>: the type \<^verbatim>\<open>data\<close> is refused and nothing is changed; setting
  \<^verbatim>\<open>vals\<close> to the array at 1 succeeds and stores it as the data; setting \<^verbatim>\<open>serr\<close> to the array
  at 0 (three elements) succeeds, setting it to the array at 1 (two elements) fails.
\<close>

theorem changeValues_outcomes_witness:
  "map_of (data ex_expr_doc) ''temp'' = Some ex_temp
   \<and> \<not> allowed_type ''data''
   \<and> changeValues ''temp'' ''data'' (Some 1) (ex_expr_doc, ex_world)
       = (Inl (ValueError ''type does not contain an allowed value''), (ex_expr_doc, ex_world))
   \<and> allowed_type ''vals''
   \<and> fst (changeValues ''temp'' ''vals'' (Some 1) (ex_expr_doc, ex_world)) = Inr ()
   \<and> map_of (data (fst (snd (changeValues ''temp'' ''vals'' (Some 1) (ex_expr_doc, ex_world))))) ''temp''
       = Some (Dataset \<lparr>document = Some 0, linked = None,
                        ds_data = Some 1, serr = None, nerr = None, perr = None\<rparr>)
   \<and> fst (changeValues ''temp'' ''serr'' (Some 0) (ex_expr_doc, ex_world)) = Inr ()
   \<and> shapes_match ex_world (assign_part ''serr'' (Some 0)
        \<lparr>document = Some 0, linked = None, ds_data = Some 0, serr = None, nerr = None, perr = None\<rparr>)
   \<and> changeset (fst (snd (changeValues ''temp'' ''serr'' (Some 0) (ex_expr_doc, ex_world)))) = 4
   \<and> isl (fst (changeValues ''temp'' ''serr'' (Some 1) (ex_expr_doc, ex_world)))
   \<and> changeset (fst (snd (changeValues ''temp'' ''serr'' (Some 1) (ex_expr_doc, ex_world)))) = 3"
proof -
  let ?r = "\<lparr>document = Some 0, linked = None, ds_data = Some 0, serr = None, nerr = None, perr = None\<rparr>"
  have m: "map_of (data ex_expr_doc) ''temp'' = Some (Dataset ?r)"
    by (simp add: ex_expr_doc_def ex_temp_def)
  have okv: "fst (changeValues ''temp'' ''vals'' (Some 1) (ex_expr_doc, ex_world)) = Inr ()"
    by (simp add: changeValues_def allowed_type_def assign_part_def ex_expr_doc_def ex_temp_def
          ex_world_def ex_cells_def)
  have ok: "fst (changeValues ''temp'' ''serr'' (Some 0) (ex_expr_doc, ex_world)) = Inr ()"
    by (simp add: changeValues_def allowed_type_def assign_part_def ex_expr_doc_def ex_temp_def
          ex_world_def ex_cells_def)
  have bad: "isl (fst (changeValues ''temp'' ''serr'' (Some 1) (ex_expr_doc, ex_world)))"
    by (simp add: changeValues_def allowed_type_def assign_part_def ex_expr_doc_def ex_temp_def
          ex_world_def ex_cells_def)
  have cs: "changeset ex_expr_doc = 3" by (simp add: ex_expr_doc_def)
  have av: "assign_part ''vals'' (Some 1) ?r
      = \<lparr>document = Some 0, linked = None, ds_data = Some 1, serr = None, nerr = None, perr = None\<rparr>"
    by (simp add: assign_part_def)
  note a = changeValues_outcomes
    [where d = ex_expr_doc and nm = "''temp''" and r = "?r" and tp = "''data''"
       and vals = "Some 1" and w = ex_world]
  note v = changeValues_outcomes
    [where d = ex_expr_doc and nm = "''temp''" and r = "?r" and tp = "''vals''"
       and vals = "Some 1" and w = ex_world]
  note b = changeValues_outcomes
    [where d = ex_expr_doc and nm = "''temp''" and r = "?r" and tp = "''serr''"
       and vals = "Some 0" and w = ex_world]
  note c = changeValues_outcomes
    [where d = ex_expr_doc and nm = "''temp''" and r = "?r" and tp = "''serr''"
       and vals = "Some 1" and w = ex_world]
  from a have na: "\<not> allowed_type ''data''" by simp
  from v have ya: "allowed_type ''vals''" by simp
  from a m na have a': "changeValues ''temp'' ''data'' (Some 1) (ex_expr_doc, ex_world)
       = (Inl (ValueError ''type does not contain an allowed value''), (ex_expr_doc, ex_world))"
    by blast
  from v m okv have "map_of (data (fst (snd (changeValues ''temp'' ''vals'' (Some 1) (ex_expr_doc, ex_world))))) ''temp''
       = Some (Dataset (assign_part ''vals'' (Some 1) ?r))"
    by blast
  then have v': "map_of (data (fst (snd (changeValues ''temp'' ''vals'' (Some 1) (ex_expr_doc, ex_world))))) ''temp''
       = Some (Dataset \<lparr>document = Some 0, linked = None,
                        ds_data = Some 1, serr = None, nerr = None, perr = None\<rparr>)"
    by (simp only: av)
  from b m ok cs have b': "shapes_match ex_world (assign_part ''serr'' (Some 0) ?r)"
    "changeset (fst (snd (changeValues ''temp'' ''serr'' (Some 0) (ex_expr_doc, ex_world)))) = 4"
    by simp_all
  from c m bad cs
  have c': "changeset (fst (snd (changeValues ''temp'' ''serr'' (Some 1) (ex_expr_doc, ex_world)))) = 3"
    by simp
  show ?thesis using m na ya a' okv v' b' c' ok bad by (simp add: ex_temp_def)
qed

section \<open>The change counter across the document's operations\<close>

lemma deleteDataset_changeset:
  "changeset (snd (deleteDataset nm d))
     = (if isl (fst (deleteDataset nm d)) then changeset d else changeset d + 1)"
  by (simp add: deleteDataset_def)

lemma renameDataset_changeset:
  "changeset (snd (renameDataset oldname newname d))
     = (if isl (fst (renameDataset oldname newname d)) then changeset d else changeset d + 1)"
  by (simp add: renameDataset_def split: option.splits)

lemma unlinkDataset_changeset:
  "changeset (snd (unlinkDataset nm d))
     = (if isl (fst (unlinkDataset nm d)) then changeset d else changeset d + 1)"
  by (simp add: unlinkDataset_def split: option.splits)

lemma saveToFile_changeset:
  "changeset (snd (snd (saveToFile ls w d)))
     = (if isl (fst (saveToFile ls w d)) then changeset d else changeset d + 1)
   \<and> (fst (saveToFile ls w d) = Inr () \<longrightarrow> snd (snd (saveToFile ls w d)) = setModified False d)"
  by (simp add: saveToFile_def Let_def split: prod.splits option.splits)

lemma changeValues_changeset:
  "changeset (fst (snd (changeValues nm tp vals st)))
     = (if isl (fst (changeValues nm tp vals st)) then changeset (fst st)
        else changeset (fst st) + 1)"
proof (cases "map_of (data (fst st)) nm")
  case None
  then show ?thesis by (simp add: changeValues_def)
next
  case (Some ds)
  show ?thesis
  proof (cases ds)
    case (Dataset r)
    with Some have m: "map_of (data (fst st)) nm = Some (Dataset r)" by simp
    show ?thesis
    proof (cases "allowed_type tp")
      case False
      with changeValues_bad_type [OF m False, of vals "snd st"] show ?thesis by simp
    next
      case True
      show ?thesis
      proof (cases "shapes_match (snd st) (assign_part tp vals r) \<and> document r \<noteq> None")
        case ok: True
        with changeValues_ok [OF m True, of "snd st" vals] show ?thesis by simp
      next
        case bad: False
        from changeValues_fail [OF m True bad] show ?thesis by simp
      qed
    qed
  next
    case (Dataset2D r)
    with Some show ?thesis by (simp add: changeValues_def)
  next
    case (DatasetExpression e)
    with Some show ?thesis by (simp add: changeValues_def)
  qed
qed

lemma keeps_get_copy: "keeps_cs (get_copy x fuel nm pt)"
  unfolding get_copy_def
proof (rule keeps_andthen [OF keeps_read_part])
  fix v
  show "keeps_cs (case v of None \<Rightarrow> \<lambda>st. (Inr None, st)
      | Some a0 \<Rightarrow> andthen (read_part x fuel nm pt)
          (\<lambda>v'. \<lambda>(d, w). case v' of None \<Rightarrow> (Inl AttributeError, d, w)
             | Some a \<Rightarrow> (case copy a w of (r, w') \<Rightarrow> (map_sum id Some r, d, w'))))"
  proof (cases v)
    case None
    then show ?thesis by (simp add: keeps_cs_def)
  next
    case (Some a0)
    have "keeps_cs (andthen (read_part x fuel nm pt)
          (\<lambda>v'. \<lambda>(d, w). case v' of None \<Rightarrow> (Inl AttributeError, d, w)
             | Some a \<Rightarrow> (case copy a w of (r, w') \<Rightarrow> (map_sum id Some r, d, w'))))"
      by (rule keeps_andthen [OF keeps_read_part])
         (simp add: keeps_cs_def split: option.splits prod.splits)
    with Some show ?thesis by simp
  qed
qed

lemma keeps_GetData: "keeps_cs (GetData x fuel nm)"
proof (rule keeps_csI)
  fix st
  have k: "keeps_cs (andthen (get_copy x fuel nm PData) (\<lambda>a.
          andthen (get_copy x fuel nm PSerr) (\<lambda>b.
          andthen (get_copy x fuel nm PNerr) (\<lambda>c.
          andthen (get_copy x fuel nm PPerr) (\<lambda>e. \<lambda>st'.
            (Inr (a, b, c, e), st'))))))"
    by (intro keeps_andthen keeps_get_copy keeps_return)
  show "changeset (fst (snd (GetData x fuel nm st))) = changeset (fst st)"
    using keeps_csD [OF k]
    by (simp add: GetData_def split: sum.splits)
qed

lemma read_part_reevaluates:
  assumes "map_of (data d) nm = Some (DatasetExpression e)" and "document e \<noteq> None"
    and "Some (changeset d) \<noteq> docchangeset e"
  shows "read_part x (Suc fuel) nm pt (d, w) = reevaluate x (propValues x fuel) nm pt (d, w)"
proof -
  from assms(2) obtain i where "document e = Some i" by auto
  with assms(1,3) show ?thesis
    by (simp add: read_part_def getattr_part_def propValues_body_def reevaluate_def)
qed

lemma read_part_cached:
  assumes "map_of (data d) nm = Some (DatasetExpression e)" and "document e \<noteq> None"
    and "Some (changeset d) = docchangeset e" and "map_of (evaluated e) pt = Some v"
  shows "read_part x (Suc fuel) nm pt (d, w) = (Inr v, (d, w))"
proof -
  from assms(2) obtain i where "document e = Some i" by auto
  with assms(1,3,4) show ?thesis
    by (simp add: read_part_def getattr_part_def propValues_body_def)
qed

lemma read_part_wiped:
  "read_part x fuel nm pt (wipe newroot d, w) = (Inl (KeyError nm), (wipe newroot d, w))"
  by (simp add: read_part_def getattr_part_def wipe_def setModified_def)

text \<open>
  Claim C10, amended. \<^verbatim>\<open>setModified\<close> adds one to the change counter whatever flag it is given, and so
  do \<^verbatim>\<open>wipe\<close> and a \<^verbatim>\<open>saveToFile\<close> that returns, which call \<^verbatim>\<open>setModified(False)\<close>. Every
  operation of the document that reaches its \<^verbatim>\<open>setModified\<close> leaves the counter strictly
  larger: by one for \<^verbatim>\<open>setData\<close>, \<^verbatim>\<open>deleteDataset\<close>, \<^verbatim>\<open>renameDataset\<close>, \<^verbatim>\<open>unlinkDataset\<close>,
  \<^verbatim>\<open>duplicateDataset\<close> and \<^verbatim>\<open>changeValues\<close> when they return, by at least one for a
  \<^verbatim>\<open>reloadLinkedDatasets\<close> that returns on a document with a link. A call of \<^verbatim>\<open>saveToFile\<close>
  or of one of the six operations named that raises, a reload of a document with no link and
  a read of a dataset leave the counter as it is; a reload that raises leaves it or has
  raised it; no operation lowers it.

  Saving and wiping invalidate what expression datasets have evaluated. Whatever counter
  value an expression dataset of the document has recorded before (none, or a value up to
  the counter then), after \<^verbatim>\<open>setModified\<close> with any flag, and so after a \<^verbatim>\<open>saveToFile\<close> that
  returns, the counter differs from it and the next read of a part of the dataset is
  \<open>reevaluate\<close>: it runs \<^verbatim>\<open>updateValues\<close> and returns what that stored. After \<^verbatim>\<open>wipe\<close> the
  document holds no dataset, and a read through it finds none.
\<close>

theorem setModified_bumps_changeset:
  "changeset (setModified flag d) = changeset d + 1
   \<and> changeset d < changeset (setModified flag d)
   \<and> modified (setModified flag d) = flag
   \<and> changeset (wipe newroot d) = changeset d + 1
   \<and> data (wipe newroot d) = []
   \<and> changeset (snd (snd (saveToFile ls w d)))
       = (if isl (fst (saveToFile ls w d)) then changeset d else changeset d + 1)
   \<and> (fst (saveToFile ls w d) = Inr () \<longrightarrow> snd (snd (saveToFile ls w d)) = setModified False d)
   \<and> changeset (setData nm ds d) = changeset d + 1
   \<and> changeset (snd (deleteDataset nm d))
       = (if isl (fst (deleteDataset nm d)) then changeset d else changeset d + 1)
   \<and> changeset (snd (renameDataset nm newname d))
       = (if isl (fst (renameDataset nm newname d)) then changeset d else changeset d + 1)
   \<and> changeset (snd (unlinkDataset nm d))
       = (if isl (fst (unlinkDataset nm d)) then changeset d else changeset d + 1)
   \<and> changeset (fst (snd (duplicateDataset x fuel nm newname (d, w))))
       = (if isl (fst (duplicateDataset x fuel nm newname (d, w))) then changeset d
          else changeset d + 1)
   \<and> changeset (fst (snd (changeValues nm tp vals (d, w))))
       = (if isl (fst (changeValues nm tp vals (d, w))) then changeset d else changeset d + 1)
   \<and> changeset d \<le> changeset (fst (snd (reloadLinkedDatasets f ls (d, w))))
   \<and> (collect_links d \<noteq> [] \<and> \<not> isl (fst (reloadLinkedDatasets f ls (d, w)))
        \<longrightarrow> changeset d < changeset (fst (snd (reloadLinkedDatasets f ls (d, w)))))
   \<and> (collect_links d = [] \<longrightarrow> reloadLinkedDatasets f ls (d, w) = (Inr ([], []), (d, w)))
   \<and> changeset (fst (snd (read_part x fuel nm pt (d, w)))) = changeset d
   \<and> changeset (fst (snd (GetData x fuel nm (d, w)))) = changeset d
   \<and> ((\<forall>v. docchangeset e = Some v \<longrightarrow> v \<le> changeset d) \<longrightarrow>
         Some (changeset (setModified flag d)) \<noteq> docchangeset e
         \<and> Some (changeset (wipe newroot d)) \<noteq> docchangeset e
         \<and> (fst (saveToFile ls w d) = Inr ()
              \<longrightarrow> Some (changeset (snd (snd (saveToFile ls w d)))) \<noteq> docchangeset e))
   \<and> (map_of (data d) nm = Some (DatasetExpression e) \<and> document e \<noteq> None
        \<and> (\<forall>v. docchangeset e = Some v \<longrightarrow> v \<le> changeset d) \<longrightarrow>
         read_part x (Suc fuel) nm pt (setModified flag d, w)
           = reevaluate x (propValues x fuel) nm pt (setModified flag d, w)
         \<and> (fst (saveToFile ls w d) = Inr ()
              \<longrightarrow> read_part x (Suc fuel) nm pt (snd (snd (saveToFile ls w d)), w)
                    = reevaluate x (propValues x fuel) nm pt (snd (snd (saveToFile ls w d)), w)))
   \<and> read_part x fuel nm pt (wipe newroot d, w) = (Inl (KeyError nm), (wipe newroot d, w))"
proof -
  have stale: "(\<forall>v. docchangeset e = Some v \<longrightarrow> v \<le> changeset d) \<longrightarrow>
         Some (changeset (setModified flag d)) \<noteq> docchangeset e
         \<and> Some (changeset (wipe newroot d)) \<noteq> docchangeset e
         \<and> (fst (saveToFile ls w d) = Inr ()
              \<longrightarrow> Some (changeset (snd (snd (saveToFile ls w d)))) \<noteq> docchangeset e)"
    using saveToFile_changeset [of ls w d]
    by (cases "docchangeset e") (auto simp: wipe_def)
  have reread: "map_of (data d) nm = Some (DatasetExpression e) \<and> document e \<noteq> None
        \<and> (\<forall>v. docchangeset e = Some v \<longrightarrow> v \<le> changeset d) \<longrightarrow>
         read_part x (Suc fuel) nm pt (setModified flag d, w)
           = reevaluate x (propValues x fuel) nm pt (setModified flag d, w)
         \<and> (fst (saveToFile ls w d) = Inr ()
              \<longrightarrow> read_part x (Suc fuel) nm pt (snd (snd (saveToFile ls w d)), w)
                    = reevaluate x (propValues x fuel) nm pt (snd (snd (saveToFile ls w d)), w))"
  proof (intro impI)
    assume h: "map_of (data d) nm = Some (DatasetExpression e) \<and> document e \<noteq> None
        \<and> (\<forall>v. docchangeset e = Some v \<longrightarrow> v \<le> changeset d)"
    have r: "read_part x (Suc fuel) nm pt (setModified b d, w)
           = reevaluate x (propValues x fuel) nm pt (setModified b d, w)" for b
    proof (rule read_part_reevaluates)
      from h show "map_of (data (setModified b d)) nm = Some (DatasetExpression e)" by simp
      from h show "document e \<noteq> None" by simp
      from h show "Some (changeset (setModified b d)) \<noteq> docchangeset e"
        by (cases "docchangeset e") auto
    qed
    from r [of flag] r [of False] saveToFile_changeset [of ls w d]
    show "read_part x (Suc fuel) nm pt (setModified flag d, w)
           = reevaluate x (propValues x fuel) nm pt (setModified flag d, w)
         \<and> (fst (saveToFile ls w d) = Inr ()
              \<longrightarrow> read_part x (Suc fuel) nm pt (snd (snd (saveToFile ls w d)), w)
                    = reevaluate x (propValues x fuel) nm pt (snd (snd (saveToFile ls w d)), w))"
      by simp
  qed
  have counters: "changeset (setModified flag d) = changeset d + 1
   \<and> changeset d < changeset (setModified flag d)
   \<and> modified (setModified flag d) = flag
   \<and> changeset (wipe newroot d) = changeset d + 1
   \<and> data (wipe newroot d) = []
   \<and> changeset (snd (snd (saveToFile ls w d)))
       = (if isl (fst (saveToFile ls w d)) then changeset d else changeset d + 1)
   \<and> (fst (saveToFile ls w d) = Inr () \<longrightarrow> snd (snd (saveToFile ls w d)) = setModified False d)
   \<and> changeset (setData nm ds d) = changeset d + 1
   \<and> changeset (snd (deleteDataset nm d))
       = (if isl (fst (deleteDataset nm d)) then changeset d else changeset d + 1)
   \<and> changeset (snd (renameDataset nm newname d))
       = (if isl (fst (renameDataset nm newname d)) then changeset d else changeset d + 1)
   \<and> changeset (snd (unlinkDataset nm d))
       = (if isl (fst (unlinkDataset nm d)) then changeset d else changeset d + 1)
   \<and> changeset (fst (snd (duplicateDataset x fuel nm newname (d, w))))
       = (if isl (fst (duplicateDataset x fuel nm newname (d, w))) then changeset d
          else changeset d + 1)
   \<and> changeset (fst (snd (changeValues nm tp vals (d, w))))
       = (if isl (fst (changeValues nm tp vals (d, w))) then changeset d else changeset d + 1)
   \<and> changeset d \<le> changeset (fst (snd (reloadLinkedDatasets f ls (d, w))))
   \<and> (collect_links d \<noteq> [] \<and> \<not> isl (fst (reloadLinkedDatasets f ls (d, w)))
        \<longrightarrow> changeset d < changeset (fst (snd (reloadLinkedDatasets f ls (d, w)))))
   \<and> (collect_links d = [] \<longrightarrow> reloadLinkedDatasets f ls (d, w) = (Inr ([], []), (d, w)))
   \<and> changeset (fst (snd (read_part x fuel nm pt (d, w)))) = changeset d
   \<and> changeset (fst (snd (GetData x fuel nm (d, w)))) = changeset d"
    using saveToFile_changeset [of ls w d] deleteDataset_changeset [of nm d]
      renameDataset_changeset [of nm newname d] unlinkDataset_changeset [of nm d]
      duplicateDataset_changeset [of x fuel nm newname "(d, w)"]
      changeValues_changeset [of nm tp vals "(d, w)"]
      reloadLinkedDatasets_changeset [of "(d, w)" f ls]
      keeps_csD [OF keeps_read_part, of x fuel nm pt "(d, w)"]
      keeps_csD [OF keeps_GetData, of x fuel nm "(d, w)"]
    by (simp add: wipe_def)
  from counters stale reread read_part_wiped [of x fuel nm pt newroot d w]
  show ?thesis by blast
qed

text \<open>
  \<open>ex_cached_doc\<close> has the counter 3 and its expression dataset \<^verbatim>\<open>tempC\<close> has recorded 3: a
  read returns what was evaluated and evaluates nothing. After \<^verbatim>\<open>setModified(False)\<close>, or
  \<^verbatim>\<open>saveToFile\<close>, the counter is 4 and the read hands the expression \<^verbatim>\<open>temp\<close> to \<^verbatim>\<open>eval\<close>.
  \<open>ex_cached_doc\<close> has no link; reloading \<open>ex_grid_doc\<close>, which has two, raises the counter.
\<close>

lemma ex_cached_read:
  "read_part ex_ext (Suc (Suc 0)) ''tempC'' PData (ex_cached_doc, ex_world)
     = (Inr (Some 0), (ex_cached_doc, ex_world))"
  by (rule read_part_cached [where e = ex_cached])
     (simp_all add: ex_cached_doc_def ex_cached_def)

lemma ex_cached_reevaluate:
  "fst (reevaluate ex_ext (propValues ex_ext (Suc 0)) ''tempC'' PData
          (setModified False ex_cached_doc, ex_world)) = Inr (Some 0)
   \<and> evlog (snd (snd (reevaluate ex_ext (propValues ex_ext (Suc 0)) ''tempC'' PData
          (setModified False ex_cached_doc, ex_world)))) = [''temp'']"
  by (simp add: reevaluate_def rd_defs setModified_def ex_ext_def ex_temp_def ex_cached_def
        ex_cached_doc_def ex_world_def ex_cells_def)

theorem setModified_bumps_changeset_witness:
  "changeset ex_cached_doc = 3
   \<and> changeset (setModified False ex_cached_doc) = 4
   \<and> changeset (wipe 0 ex_cached_doc) = 4
   \<and> fst (saveToFile ex_links ex_world ex_cached_doc) = Inr ()
   \<and> snd (snd (saveToFile ex_links ex_world ex_cached_doc)) = setModified False ex_cached_doc
   \<and> map_of (data ex_cached_doc) ''tempC'' = Some (DatasetExpression ex_cached)
   \<and> docchangeset ex_cached = Some 3
   \<and> Some (changeset (setModified False ex_cached_doc)) \<noteq> docchangeset ex_cached
   \<and> Some (changeset (wipe 0 ex_cached_doc)) \<noteq> docchangeset ex_cached
   \<and> read_part ex_ext (Suc (Suc 0)) ''tempC'' PData (ex_cached_doc, ex_world)
       = (Inr (Some 0), (ex_cached_doc, ex_world))
   \<and> fst (read_part ex_ext (Suc (Suc 0)) ''tempC'' PData (setModified False ex_cached_doc, ex_world))
       = Inr (Some 0)
   \<and> evlog (snd (snd (read_part ex_ext (Suc (Suc 0)) ''tempC'' PData
              (setModified False ex_cached_doc, ex_world)))) = [''temp'']
   \<and> evlog (snd (snd (read_part ex_ext (Suc (Suc 0)) ''tempC'' PData
              (snd (snd (saveToFile ex_links ex_world ex_cached_doc)), ex_world)))) = [''temp'']
   \<and> collect_links ex_cached_doc = []
   \<and> reloadLinkedDatasets ex_files ex_links (ex_cached_doc, ex_world)
       = (Inr ([], []), (ex_cached_doc, ex_world))
   \<and> collect_links ex_grid_doc = [0, 1]
   \<and> changeset ex_grid_doc
       < changeset (fst (snd (reloadLinkedDatasets ex_files ex_links (ex_grid_doc, ex_world))))"
proof -
  have cs: "changeset ex_cached_doc = 3" by (simp add: ex_cached_doc_def)
  have dc: "docchangeset ex_cached = Some 3" "document ex_cached \<noteq> None"
    by (simp_all add: ex_cached_def)
  have m: "map_of (data ex_cached_doc) ''tempC'' = Some (DatasetExpression ex_cached)"
    by (simp add: ex_cached_doc_def)
  have sv: "fst (saveToFile ex_links ex_world ex_cached_doc) = Inr ()"
    by (simp add: saveToFile_def saveLinksToSavedDoc_def Dataset_saveToFile_def
          DatasetExpression_saveToFile_def column_def truthy_def
          ex_cached_doc_def ex_cached_def ex_temp_def ex_world_def ex_cells_def)
  have cl: "collect_links ex_cached_doc = []"
    by (simp add: collect_links_def ex_cached_doc_def ex_cached_def ex_temp_def)
  have ni: "\<not> isl (fst (reloadLinkedDatasets ex_files ex_links (ex_grid_doc, ex_world)))"
    by (simp add: ex_run)
  note t = setModified_bumps_changeset
    [where d = ex_cached_doc and flag = False and newroot = 0 and ls = ex_links and w = ex_world
       and e = ex_cached and nm = "''tempC''" and pt = PData and x = ex_ext and fuel = "Suc 0"
       and f = ex_files]
  note g = setModified_bumps_changeset
    [where d = ex_grid_doc and f = ex_files and ls = ex_links and w = ex_world]
  from t cs dc have c4: "changeset (setModified False ex_cached_doc) = 4"
    "changeset (wipe 0 ex_cached_doc) = 4"
    "Some (changeset (setModified False ex_cached_doc)) \<noteq> docchangeset ex_cached"
    "Some (changeset (wipe 0 ex_cached_doc)) \<noteq> docchangeset ex_cached"
    by simp_all
  from t sv have sm: "snd (snd (saveToFile ex_links ex_world ex_cached_doc))
      = setModified False ex_cached_doc"
    by blast
  from t m dc cs
  have rr: "read_part ex_ext (Suc (Suc 0)) ''tempC'' PData (setModified False ex_cached_doc, ex_world)
      = reevaluate ex_ext (propValues ex_ext (Suc 0)) ''tempC'' PData
          (setModified False ex_cached_doc, ex_world)"
    by simp
  from t cl have rl0: "reloadLinkedDatasets ex_files ex_links (ex_cached_doc, ex_world)
       = (Inr ([], []), (ex_cached_doc, ex_world))"
    by blast
  from g ex_collect ni
  have rl1: "changeset ex_grid_doc
       < changeset (fst (snd (reloadLinkedDatasets ex_files ex_links (ex_grid_doc, ex_world))))"
    by simp
  show ?thesis
    using cs c4 sv sm m dc ex_cached_read ex_cached_reevaluate cl rl0 ex_collect rl1
    by (simp add: rr)
qed

text \<open>
  Claim C10, as stated, fails where it says the changeset is strictly increasing across all
  document operations: an operation that does not reach \<^verbatim>\<open>setModified\<close> leaves the counter
  as it is. On \<open>ex_expr_doc\<close>, which has no link, \<^verbatim>\<open>reloadLinkedDatasets\<close> returns and changes
  nothing; \<^verbatim>\<open>deleteDataset\<close> of a name that is not there raises \<^verbatim>\<open>KeyError\<close>; and
  \<^verbatim>\<open>changeValues\<close> with an error array of another length raises \<^verbatim>\<open>AssertionError\<close> after it
  has changed the dataset. The counter is 3 after each of them, as before.
\<close>

theorem changeset_kept_without_setModified:
  "changeset ex_expr_doc = 3
   \<and> collect_links ex_expr_doc = []
   \<and> reloadLinkedDatasets ex_files ex_links (ex_expr_doc, ex_world)
       = (Inr ([], []), (ex_expr_doc, ex_world))
   \<and> deleteDataset ''nope'' ex_expr_doc = (Inl (KeyError ''nope''), ex_expr_doc)
   \<and> fst (changeValues ''temp'' ''serr'' (Some 1) (ex_expr_doc, ex_world)) = Inl AssertionError
   \<and> data (fst (snd (changeValues ''temp'' ''serr'' (Some 1) (ex_expr_doc, ex_world))))
       \<noteq> data ex_expr_doc
   \<and> changeset (fst (snd (changeValues ''temp'' ''serr'' (Some 1) (ex_expr_doc, ex_world)))) = 3"
  by (simp add: reloadLinkedDatasets_def collect_links_def deleteDataset_def has_key_def
        changeValues_def allowed_type_def assign_part_def
        ex_expr_doc_def ex_temp_def ex_tempC_def ex_world_def ex_cells_def)

section \<open>Properties of the command interface\<close>

lemma get_copy_literal:
  "map_of (data d) nm = Some (Dataset r) \<Longrightarrow>
     get_copy x fuel nm pt (d, w) = (case copy_val (field pt r) w of (res, w') \<Rightarrow> (res, (d, w')))"
  by (simp add: get_copy_def read_part_def getattr_part_def andthen_def copy_val_def
        split: option.splits prod.splits)

lemma GetData_literal:
  assumes m: "map_of (data d) nm = Some (Dataset r)"
  shows "GetData x fuel nm (d, w) =
     (case copy_vals [ds_data r, serr r, nerr r, perr r] w of
        (Inl e, w') \<Rightarrow> (Inl e, (d, w'))
      | (Inr rs, w') \<Rightarrow> (Inr (rs ! 0, rs ! 1, rs ! 2, rs ! 3), (d, w')))"
proof -
  have g: "\<And>pt w. get_copy x fuel nm pt (d, w)
             = (case copy_val (field pt r) w of (res, w') \<Rightarrow> (res, (d, w')))"
    by (rule get_copy_literal [OF m])
  show ?thesis
    using m
    by (simp add: GetData_def getData_def andthen_def g split: prod.splits sum.splits)
qed

lemma copy_val_frame:
  assumes "copy_val v w = (Inr r, w')"
  shows "nxt w \<le> nxt w' \<and> (\<forall>a < nxt w. cells w' a = cells w a)
     \<and> (\<forall>b. r = Some b \<longrightarrow> nxt w \<le> b \<and> b < nxt w' \<and> (\<exists>a. v = Some a \<and> cells w' b = cells w a))
     \<and> (r = None \<longrightarrow> v = None)"
  using assms
  by (auto simp: copy_val_def copy_def alloc_def split: option.splits pyobj.splits)

lemma copy_val_sim:
  assumes a: "copy_val v wA = (Inr rA, wA')"
    and v: "\<forall>a. v = Some a \<longrightarrow> a < n"
    and ag: "\<forall>a < n. cells wB a = cells wA a"
  shows "\<exists>rB wB'. copy_val v wB = (Inr rB, wB')
           \<and> map_option (cells wB') rB = map_option (cells wA') rA"
  using assms
  by (auto simp: copy_val_def copy_def alloc_def split: option.splits pyobj.splits)

lemma copy_vals_frame:
  "copy_vals vs w = (Inr rs, w') \<Longrightarrow>
     nxt w \<le> nxt w' \<and> (\<forall>a < nxt w. cells w' a = cells w a)
     \<and> length rs = length vs \<and> (\<forall>b. Some b \<in> set rs \<longrightarrow> nxt w \<le> b \<and> b < nxt w')"
proof (induction vs arbitrary: w rs)
  case Nil
  then show ?case by auto
next
  case (Cons v vs)
  from Cons.prems obtain r w1 rs1 where s: "copy_val v w = (Inr r, w1)"
    and t: "copy_vals vs w1 = (Inr rs1, w')" and rs: "rs = r # rs1"
    by (auto split: prod.splits sum.splits)
  note f = copy_val_frame [OF s]
  note ih = Cons.IH [OF t]
  from f ih rs show ?case by (auto simp: less_le_trans dest: order_trans)
qed

lemma copy_vals_sim:
  assumes "copy_vals vs wA = (Inr rsA, wA')"
    and "\<forall>a. Some a \<in> set vs \<longrightarrow> a < n"
    and "n \<le> nxt wA" and "n \<le> nxt wB"
    and "\<forall>a < n. cells wB a = cells wA a"
  shows "\<exists>rsB wB'. copy_vals vs wB = (Inr rsB, wB')
           \<and> map (map_option (cells wB')) rsB = map (map_option (cells wA')) rsA"
  using assms
proof (induction vs arbitrary: wA wB rsA)
  case Nil
  then show ?case by auto
next
  case (Cons v vs)
  from Cons.prems(1) obtain r wA1 rs1 where s: "copy_val v wA = (Inr r, wA1)"
    and t: "copy_vals vs wA1 = (Inr rs1, wA')" and rs: "rsA = r # rs1"
    by (auto split: prod.splits sum.splits)
  from Cons.prems(2) have vn: "\<forall>a. v = Some a \<longrightarrow> a < n" and vsn: "\<forall>a. Some a \<in> set vs \<longrightarrow> a < n"
    by auto
  from copy_val_sim [OF s vn Cons.prems(5)] obtain rB wB1
    where sB: "copy_val v wB = (Inr rB, wB1)"
      and c1: "map_option (cells wB1) rB = map_option (cells wA1) r" by blast
  note fA = copy_val_frame [OF s]
  note fB = copy_val_frame [OF sB]
  from fA Cons.prems(3) have nA: "n \<le> nxt wA1" by auto
  from fB Cons.prems(4) have nB: "n \<le> nxt wB1" by auto
  have ag1: "\<forall>a < n. cells wB1 a = cells wA1 a"
    using fA fB Cons.prems(3,4,5) by auto
  from Cons.IH [OF t vsn nA nB ag1] obtain rsB wB'
    where tB: "copy_vals vs wB1 = (Inr rsB, wB')"
      and c2: "map (map_option (cells wB')) rsB = map (map_option (cells wA')) rs1" by blast
  note gA = copy_vals_frame [OF t]
  note gB = copy_vals_frame [OF tB]
  have hd: "map_option (cells wB') rB = map_option (cells wA') r"
  proof (cases r)
    case None
    with fA have "v = None" by simp
    with sB have "rB = None" by (simp add: copy_val_def)
    with None show ?thesis by simp
  next
    case (Some b)
    with c1 obtain bB where bB: "rB = Some bB" by (cases rB) auto
    from fA Some have "b < nxt wA1" by simp
    with gA have eA: "cells wA' b = cells wA1 b" by simp
    from fB bB have "bB < nxt wB1" by simp
    with gB have eB: "cells wB' bB = cells wB1 bB" by simp
    from c1 Some bB eA eB show ?thesis by simp
  qed
  from sB tB have "copy_vals (v # vs) wB = (Inr (rB # rsB), wB')" by simp
  with hd c2 rs show ?case by simp
qed

lemma write_cells_frame:
  "(\<forall>(a, ob) \<in> set ws. n \<le> a) \<Longrightarrow>
     nxt (write_cells ws w) = nxt w \<and> (\<forall>a < n. cells (write_cells ws w) a = cells w a)"
proof (induction ws arbitrary: w)
  case Nil
  show ?case by (simp add: write_cells_def)
next
  case (Cons p ws)
  obtain a ob where p: "p = (a, ob)" by (cases p)
  from Cons.prems p have na: "n \<le> a" and rest: "\<forall>(a, ob) \<in> set ws. n \<le> a" by auto
  have st: "write_cells (p # ws) w = write_cells ws (w\<lparr>cells := (cells w)(a := ob)\<rparr>)"
    by (simp add: write_cells_def p)
  from Cons.IH [OF rest, of "w\<lparr>cells := (cells w)(a := ob)\<rparr>"] na show ?case
    unfolding st by auto
qed

lemma copy_vals_contents:
  "copy_vals vs w = (Inr rs, w') \<Longrightarrow> \<forall>a. Some a \<in> set vs \<longrightarrow> a < nxt w \<Longrightarrow>
     map (map_option (cells w')) rs = map (map_option (cells w)) vs"
proof (induction vs arbitrary: w rs)
  case Nil
  then show ?case by auto
next
  case (Cons v vs)
  from Cons.prems(1) obtain r w1 rs1 where s: "copy_val v w = (Inr r, w1)"
    and t: "copy_vals vs w1 = (Inr rs1, w')" and rs: "rs = r # rs1"
    by (auto split: prod.splits sum.splits)
  note f = copy_val_frame [OF s]
  note g = copy_vals_frame [OF t]
  from Cons.prems(2) f have vs1: "\<forall>a. Some a \<in> set vs \<longrightarrow> a < nxt w1" by auto
  from Cons.IH [OF t vs1] have ih: "map (map_option (cells w')) rs1 = map (map_option (cells w1)) vs" .
  have tl: "map (map_option (cells w1)) vs = map (map_option (cells w)) vs"
  proof (rule map_cong [OF refl])
    fix u assume u: "u \<in> set vs"
    show "map_option (cells w1) u = map_option (cells w) u"
    proof (cases u)
      case None
      then show ?thesis by simp
    next
      case (Some a)
      with u Cons.prems(2) have "a < nxt w" by auto
      with f Some show ?thesis by simp
    qed
  qed
  have hd: "map_option (cells w') r = map_option (cells w) v"
  proof (cases r)
    case None
    with f show ?thesis by simp
  next
    case (Some b)
    with f obtain a where a: "v = Some a" "cells w1 b = cells w a" "b < nxt w1" by auto
    from g a(3) have "cells w' b = cells w1 b" by simp
    with a Some show ?thesis by simp
  qed
  from hd ih tl rs show ?case by simp
qed

text \<open>
  Claim C9. \<^verbatim>\<open>GetData(name)\<close> on a literal dataset whose arrays are allocated, when it
  returns, leaves the document as it is and returns arrays allocated by the call itself that
  hold what the dataset's arrays hold (\<^verbatim>\<open>None\<close> where the dataset has \<^verbatim>\<open>None\<close>). After any
  sequence of writes to the returned arrays, every array that existed before the call, so
  every array of the dataset, has the content it had, and a second \<^verbatim>\<open>GetData(name)\<close> returns
  arrays with the contents the first call returned, which are the stored ones.
\<close>

theorem GetData_returns_copies:
  "map_of (data d) nm = Some (Dataset r) \<and> allocated w r
     \<and> GetData x fuel nm (d, w) = (Inr t, (d1, w1))
     \<and> (\<forall>(a, ob) \<in> set ws. a \<in> tuple_refs t)
   \<longrightarrow> d1 = d
     \<and> contents w1 t = contents w (ds_data r, serr r, nerr r, perr r)
     \<and> (\<forall>a \<in> tuple_refs t. nxt w \<le> a)
     \<and> (\<forall>a \<in> tuple_refs (ds_data r, serr r, nerr r, perr r). a \<notin> tuple_refs t)
     \<and> (\<forall>a < nxt w. cells (write_cells ws w1) a = cells w a)
     \<and> contents (write_cells ws w1) (ds_data r, serr r, nerr r, perr r)
         = contents w (ds_data r, serr r, nerr r, perr r)
     \<and> (\<exists>t' w2. GetData x fuel nm (d, write_cells ws w1) = (Inr t', (d, w2))
                  \<and> contents w2 t' = contents w1 t
                  \<and> contents w2 t' = contents w (ds_data r, serr r, nerr r, perr r))"
proof (intro impI)
  assume h: "map_of (data d) nm = Some (Dataset r) \<and> allocated w r
     \<and> GetData x fuel nm (d, w) = (Inr t, (d1, w1))
     \<and> (\<forall>(a, ob) \<in> set ws. a \<in> tuple_refs t)"
  let ?vs = "[ds_data r, serr r, nerr r, perr r]"
  let ?st = "(ds_data r, serr r, nerr r, perr r)"
  from h have m: "map_of (data d) nm = Some (Dataset r)" by simp
  from h have "allocated w r" by simp
  then have al: "\<forall>a. Some a \<in> set ?vs \<longrightarrow> a < nxt w"
    by (simp add: allocated_def) (metis option.simps(5))
  from h have g: "GetData x fuel nm (d, w) = (Inr t, (d1, w1))" by simp
  from g obtain rs where c: "copy_vals ?vs w = (Inr rs, w1)"
    and t: "t = (rs ! 0, rs ! 1, rs ! 2, rs ! 3)" and d1: "d1 = d"
    unfolding GetData_literal [OF m] by (auto split: prod.splits sum.splits)
  note f = copy_vals_frame [OF c]
  from f have len: "length rs = 4" by simp
  then obtain ra rb rc re where rs: "rs = [ra, rb, rc, re]"
    by (cases rs; cases "tl rs"; cases "tl (tl rs)"; cases "tl (tl (tl rs))") auto
  with t have t': "t = (ra, rb, rc, re)" by simp
  from copy_vals_contents [OF c al] rs t'
  have stored: "contents w1 t = contents w ?st"
    by (simp add: contents_def)
  have fresh: "\<forall>a \<in> tuple_refs t. nxt w \<le> a"
    using f rs t' by (auto simp: tuple_refs_def)
  have old: "\<forall>a \<in> tuple_refs ?st. a < nxt w"
    using al by (auto simp: tuple_refs_def)
  from fresh old have apart: "\<forall>a \<in> tuple_refs ?st. a \<notin> tuple_refs t"
    by (meson not_le)
  from h fresh have wr: "\<forall>(a, ob) \<in> set ws. nxt w \<le> a" by auto
  note wf = write_cells_frame [OF wr, of w1]
  have ag: "\<forall>a < nxt w. cells (write_cells ws w1) a = cells w a"
    using wf f by auto
  have kept: "contents (write_cells ws w1) ?st = contents w ?st"
  proof -
    have "\<And>u. Some u \<in> set ?vs \<Longrightarrow> cells (write_cells ws w1) u = cells w u"
      using al ag by blast
    then show ?thesis
      by (cases "ds_data r"; cases "serr r"; cases "nerr r"; cases "perr r")
         (simp_all add: contents_def)
  qed
  have nB: "nxt w \<le> nxt (write_cells ws w1)" using wf f by simp
  from copy_vals_sim [OF c al order_refl nB ag] obtain rsB w2
    where cB: "copy_vals ?vs (write_cells ws w1) = (Inr rsB, w2)"
      and eq: "map (map_option (cells w2)) rsB = map (map_option (cells w1)) rs" by blast
  from copy_vals_frame [OF cB] have "length rsB = 4" by simp
  then obtain sa sb sc se where rsB: "rsB = [sa, sb, sc, se]"
    by (cases rsB; cases "tl rsB"; cases "tl (tl rsB)"; cases "tl (tl (tl rsB))") auto
  have gB: "GetData x fuel nm (d, write_cells ws w1) = (Inr (sa, sb, sc, se), (d, w2))"
    unfolding GetData_literal [OF m] using cB rsB by simp
  have ceq: "contents w2 (sa, sb, sc, se) = contents w1 t"
    using eq rs rsB t' by (simp add: contents_def)
  with stored have ceq2: "contents w2 (sa, sb, sc, se) = contents w ?st" by simp
  from gB ceq ceq2
  have again: "\<exists>t' w2. GetData x fuel nm (d, write_cells ws w1) = (Inr t', (d, w2))
                  \<and> contents w2 t' = contents w1 t
                  \<and> contents w2 t' = contents w ?st"
    by blast
  from d1 stored fresh apart ag kept again
  show "d1 = d
     \<and> contents w1 t = contents w (ds_data r, serr r, nerr r, perr r)
     \<and> (\<forall>a \<in> tuple_refs t. nxt w \<le> a)
     \<and> (\<forall>a \<in> tuple_refs (ds_data r, serr r, nerr r, perr r). a \<notin> tuple_refs t)
     \<and> (\<forall>a < nxt w. cells (write_cells ws w1) a = cells w a)
     \<and> contents (write_cells ws w1) (ds_data r, serr r, nerr r, perr r)
         = contents w (ds_data r, serr r, nerr r, perr r)
     \<and> (\<exists>t' w2. GetData x fuel nm (d, write_cells ws w1) = (Inr t', (d, w2))
                  \<and> contents w2 t' = contents w1 t
                  \<and> contents w2 t' = contents w (ds_data r, serr r, nerr r, perr r))"
    by (intro conjI)
qed

text \<open>
  \<^verbatim>\<open>GetData('temp')\<close> on \<open>ex_expr_doc\<close> returns the new array at 3, a copy of the array at 0;
  after the caller overwrites the array at 3, the array at 0 is as it was and a second
  \<^verbatim>\<open>GetData('temp')\<close> returns the values 1, 2, 3 again.
\<close>

lemma ex_cells_0: "ex_cells 0 = Arr [3] [1, 2, 3]"
  by (simp add: ex_cells_def)

lemma ex_GetData:
  "GetData ex_ext 2 ''temp'' (ex_expr_doc, ex_world)
     = (Inr (Some 3, None, None, None), (ex_expr_doc, ex_world1))"
  by (simp add: GetData_def getData_def get_copy_def read_part_def getattr_part_def andthen_def
        copy_def alloc_def ex_expr_doc_def ex_temp_def ex_world_def ex_world1_def ex_cells_0)

theorem GetData_returns_copies_witness:
  "map_of (data ex_expr_doc) ''temp'' = Some ex_temp
   \<and> GetData ex_ext 2 ''temp'' (ex_expr_doc, ex_world)
       = (Inr (Some 3, None, None, None), (ex_expr_doc, ex_world1))
   \<and> 3 \<in> tuple_refs (Some 3, None, None, None)
   \<and> cells ex_world 0 = Arr [3] [1, 2, 3]
   \<and> contents ex_world1 (Some 3, None, None, None) = (Some (Arr [3] [1, 2, 3]), None, None, None)
   \<and> cells (write_cells [(3, Arr [3] [9, 9, 9])] ex_world1) 3 = Arr [3] [9, 9, 9]
   \<and> cells (write_cells [(3, Arr [3] [9, 9, 9])] ex_world1) 0 = Arr [3] [1, 2, 3]
   \<and> (\<exists>t' w2. GetData ex_ext 2 ''temp'' (ex_expr_doc, write_cells [(3, Arr [3] [9, 9, 9])] ex_world1)
                  = (Inr t', (ex_expr_doc, w2))
               \<and> contents w2 t' = (Some (Arr [3] [1, 2, 3]), None, None, None))"
proof -
  let ?r = "\<lparr>document = Some 0, linked = None,
             ds_data = Some 0, serr = None, nerr = None, perr = None\<rparr>"
  let ?ws = "[(3, Arr [3] [9, 9, 9])]"
  have m: "map_of (data ex_expr_doc) ''temp'' = Some (Dataset ?r)"
    by (simp add: ex_expr_doc_def ex_temp_def)
  have al: "allocated ex_world ?r" by (simp add: allocated_def ex_world_def)
  have tr: "\<forall>(a, ob) \<in> set ?ws. a \<in> tuple_refs (Some 3, None, None, None)"
    by (simp add: tuple_refs_def)
  have c0: "contents ex_world (ds_data ?r, serr ?r, nerr ?r, perr ?r)
              = (Some (Arr [3] [1, 2, 3]), None, None, None)"
    by (simp add: contents_def ex_world_def ex_cells_0)
  have wc: "cells ex_world 0 = Arr [3] [1, 2, 3]"
    "cells (write_cells ?ws ex_world1) 3 = Arr [3] [9, 9, 9]"
    by (simp_all add: write_cells_def ex_world_def ex_world1_def ex_cells_0)
  note t = GetData_returns_copies
    [where d = ex_expr_doc and nm = "''temp''" and r = "?r" and w = ex_world and x = ex_ext
       and fuel = 2 and t = "(Some 3, None, None, None)" and ?d1.0 = ex_expr_doc
       and ?w1.0 = ex_world1 and ws = "?ws"]
  from t m al ex_GetData tr
  have s: "contents ex_world1 (Some 3, None, None, None)
             = contents ex_world (ds_data ?r, serr ?r, nerr ?r, perr ?r)"
    by blast
  from t m al ex_GetData tr
  have k: "\<forall>a < nxt ex_world. cells (write_cells ?ws ex_world1) a = cells ex_world a"
    by blast
  then have k0: "cells (write_cells ?ws ex_world1) 0 = Arr [3] [1, 2, 3]"
    using wc(1) by (simp add: ex_world_def)
  from t m al ex_GetData tr
  have "\<exists>t' w2. GetData ex_ext 2 ''temp'' (ex_expr_doc, write_cells ?ws ex_world1)
                  = (Inr t', (ex_expr_doc, w2))
               \<and> contents w2 t' = contents ex_world (ds_data ?r, serr ?r, nerr ?r, perr ?r)"
    by blast
  with c0 s m ex_GetData wc k0 show ?thesis by (simp add: tuple_refs_def ex_temp_def)
qed

end
